theory Spec2Isabelle
  imports Main
begin

section \<open>Entity store\<close>

text \<open>
  The engine of \<^verbatim>\<open>src/.keystone/config.js\<close> works on persisted entities through the
  Keystone query API. The store is modelled as one record of tables, each table a list of
  rows in the order the store returns them. Row identifiers are opaque keys; they are
  modelled as natural numbers and a new row takes the counter \<open>nextId\<close>. Text fields are
  strings with the empty string as default, as Keystone's \<^verbatim>\<open>text()\<close> field has it; a
  to-one relationship is an optional identifier, and a platform is kept inside its shop or
  channel, the way the queries read it. Order status is the text the code writes
  (\<^verbatim>\<open>PENDING\<close>, \<^verbatim>\<open>AWAITING\<close>, \<^verbatim>\<open>COMPLETE\<close>, \<^verbatim>\<open>CANCELLED\<close>).
  Access filters of the calling session and the framework's field validation hooks are not
  modelled: every query sees the whole table. The type check of the GraphQL input is
  modelled at the two places where the engine hands over a value of another type than the
  schema declares: the \<^verbatim>\<open>where\<close> of \<^verbatim>\<open>Order.findOne\<close> in the link route and the
  \<^verbatim>\<open>price\<close> of \<^verbatim>\<open>CartItem.createMany\<close> there.
\<close>

type_synonym ident = nat

datatype exn = TypeError string | Error string

text \<open>
  A JavaScript number as far as the engine needs it: the value of a \<^verbatim>\<open>float()\<close> field,
  a mantissa and a decimal exponent. \<^verbatim>\<open>LineItem.price\<close> is such a field, while
  \<^verbatim>\<open>CartItem.price\<close> is a \<^verbatim>\<open>text()\<close> field.
\<close>

datatype js_number = Number int int

record Order =
  o_id :: ident
  o_orderId :: string
  o_status :: string
  o_error :: string
  o_linkOrder :: bool
  o_matchOrder :: bool
  o_processOrder :: bool
  o_shop :: "ident option"
  o_user :: "ident option"

record LineItem =
  li_id :: ident
  li_name :: string
  li_image :: string
  li_price :: js_number
  li_quantity :: int
  li_productId :: string
  li_variantId :: string
  li_sku :: string
  li_lineItemId :: string
  li_order :: "ident option"

record CartItem =
  ci_id :: ident
  ci_name :: string
  ci_image :: string
  ci_price :: string
  ci_quantity :: int
  ci_productId :: string
  ci_variantId :: string
  ci_sku :: string
  ci_lineItemId :: string
  ci_url :: string
  ci_error :: string
  ci_purchaseId :: string
  ci_status :: string
  ci_order :: "ident option"
  ci_channel :: "ident option"
  ci_user :: "ident option"

record ChannelPlatform =
  cp_createPurchaseFunction :: string
  cp_getProductFunction :: string

record Channel =
  ch_id :: ident
  ch_domain :: string
  ch_accessToken :: string
  ch_platform :: "ChannelPlatform option"

record ShopPlatform =
  sp_addCartToPlatformOrderFunction :: string
  sp_addTrackingFunction :: string

record Shop =
  sh_id :: ident
  sh_domain :: string
  sh_linkMode :: string
  sh_platform :: "ShopPlatform option"

record Link =
  l_id :: ident
  l_rank :: int
  l_shop :: "ident option"
  l_channel :: "ident option"
  l_user :: "ident option"

record ShopItem =
  si_id :: ident
  si_productId :: string
  si_variantId :: string
  si_quantity :: int
  si_shop :: "ident option"
  si_user :: "ident option"

record ChannelItem =
  chi_id :: ident
  chi_productId :: string
  chi_variantId :: string
  chi_quantity :: int
  chi_price :: string
  chi_channel :: "ident option"
  chi_user :: "ident option"

record Match =
  m_id :: ident
  m_input :: "ident list"
  m_output :: "ident list"
  m_user :: "ident option"

record TrackingDetail =
  td_id :: ident
  td_trackingCompany :: string
  td_trackingNumber :: string
  td_purchaseId :: string
  td_cartItems :: "ident list"

text \<open>
  Besides the tables the state keeps what the engine sends out: the create-purchase adapter
  invocations (fulfillment target and the cart items handed over), the add-to-platform-order
  and add-tracking invocations, and the console log.
\<close>

record db =
  orders :: "Order list"
  lineItems :: "LineItem list"
  cartItems :: "CartItem list"
  channels :: "Channel list"
  shops :: "Shop list"
  links :: "Link list"
  shopItems :: "ShopItem list"
  channelItems :: "ChannelItem list"
  matches :: "Match list"
  trackingDetails :: "TrackingDetail list"
  nextId :: ident
  purchaseCalls :: "(ident \<times> ident list) list"
  platformOrderCalls :: "(ident \<times> ident list) list"
  trackingCalls :: "(ident \<times> string) list"
  console :: "string list"

section \<open>Adapters\<close>

text \<open>
  The adapter executor calls code outside the engine. Each operation is a parameter: a
  function of the number of calls made so far (so that a platform may answer the same
  request differently over time) and of the arguments. A call either throws with a message
  or returns. A create-purchase response carries optional \<^verbatim>\<open>error\<close>, \<^verbatim>\<open>purchaseId\<close> and
  \<^verbatim>\<open>url\<close>; a null response makes the caller's first field access throw, which is the
  \<open>Threw\<close> outcome.
\<close>

record PurchaseResponse =
  res_error :: "string option"
  res_purchaseId :: "string option"
  res_url :: "string option"

datatype purchase_result = Threw string | Returned PurchaseResponse

datatype call_result = Failed string | Done

record Product =
  p_price :: string
  p_image :: string
  p_title :: string

datatype product_result = ProductThrew exn | ProductReturned "Product option"

record adapters =
  createPurchaseFunction :: "nat \<Rightarrow> Channel \<Rightarrow> CartItem list \<Rightarrow> purchase_result"
  addCartToPlatformOrderFunction :: "nat \<Rightarrow> Order \<Rightarrow> CartItem list \<Rightarrow> call_result"
  addTrackingFunction :: "nat \<Rightarrow> Order \<Rightarrow> string \<Rightarrow> string \<Rightarrow> call_result"
  getProductFunction :: "Channel \<Rightarrow> string \<Rightarrow> string \<Rightarrow> product_result"

text \<open>JavaScript truthiness of an optional string: present and not empty.\<close>

fun truthy :: "string option \<Rightarrow> bool" where
  "truthy None = False"
| "truthy (Some v) = (v \<noteq> [])"

section \<open>Store operations\<close>

definition Order_findOne :: "ident \<Rightarrow> db \<Rightarrow> Order option" where
  "Order_findOne i s = find (\<lambda>r. o_id r = i) (orders s)"

text \<open>\<^verbatim>\<open>updateOne\<close> returns the updated row and throws when no row has the identifier.\<close>

definition Order_updateOne :: "ident \<Rightarrow> (Order \<Rightarrow> Order) \<Rightarrow> db \<Rightarrow> (exn + Order) \<times> db" where
  "Order_updateOne i f s =
     (case Order_findOne i s of
        None \<Rightarrow> (Inl (Error ''Access denied: You cannot update that Order - it may not exist''), s)
      | Some r \<Rightarrow> (Inr (f r), s\<lparr>orders := map (\<lambda>r. if o_id r = i then f r else r) (orders s)\<rparr>))"

definition CartItem_updateOne :: "ident \<Rightarrow> (CartItem \<Rightarrow> CartItem) \<Rightarrow> db \<Rightarrow> db" where
  "CartItem_updateOne i f s =
     s\<lparr>cartItems := map (\<lambda>c. if ci_id c = i then f c else c) (cartItems s)\<rparr>"

definition cartItemsOfOrder :: "ident \<Rightarrow> db \<Rightarrow> CartItem list" where
  "cartItemsOfOrder oid s = filter (\<lambda>c. ci_order c = Some oid) (cartItems s)"

section \<open>Purchase placement pipeline\<close>

text \<open>
  \<^verbatim>\<open>updateCartItems\<close> (features/keystone/lib/placeMultipleOrders.ts) writes the three
  outcome fields of every given cart item; an argument left out is the empty string.
\<close>

fun updateCartItems :: "CartItem list \<Rightarrow> string \<Rightarrow> string \<Rightarrow> string \<Rightarrow> db \<Rightarrow> db" where
  "updateCartItems [] url err pid s = s"
| "updateCartItems (c # cs) url err pid s =
     updateCartItems cs url err pid
       (CartItem_updateOne (ci_id c) (\<lambda>x. x\<lparr>ci_url := url, ci_error := err, ci_purchaseId := pid\<rparr>) s)"

text \<open>
  The cart items a channel contributes to an order's placement: those of the order with
  empty \<^verbatim>\<open>purchaseId\<close> and empty \<^verbatim>\<open>url\<close>. This is the \<^verbatim>\<open>where\<close> clause of the
  \<^verbatim>\<open>Channel.findMany\<close> query in \<^verbatim>\<open>placeMultipleOrders\<close>; it has no condition on status.
\<close>

definition unplacedOf :: "ident \<Rightarrow> ident \<Rightarrow> db \<Rightarrow> CartItem list" where
  "unplacedOf orderId cid s =
     filter (\<lambda>c. ci_channel c = Some cid \<and> ci_order c = Some orderId
                 \<and> ci_purchaseId c = [] \<and> ci_url c = []) (cartItems s)"

definition cartChannels :: "ident \<Rightarrow> db \<Rightarrow> (Channel \<times> CartItem list) list" where
  "cartChannels orderId s = map (\<lambda>ch. (ch, unplacedOf orderId (ch_id ch) s)) (channels s)"

text \<open>\<^verbatim>\<open>CartItem.count\<close> of the order's rows with empty \<^verbatim>\<open>url\<close> and \<^verbatim>\<open>purchaseId\<close>.\<close>

definition cartCount :: "ident \<Rightarrow> db \<Rightarrow> nat" where
  "cartCount orderId s =
     length (filter (\<lambda>c. ci_order c = Some orderId \<and> ci_url c = [] \<and> ci_purchaseId c = [])
               (cartItems s))"

text \<open>
  The \<^verbatim>\<open>try\<close> block around the create-purchase call: the call is recorded, then the
  response's \<^verbatim>\<open>error\<close> and \<^verbatim>\<open>purchaseId\<close> are tested one after the other; a throw takes
  the \<^verbatim>\<open>catch\<close> branch.
\<close>

definition orNonEmpty :: "string \<Rightarrow> string \<Rightarrow> string" where
  "orNonEmpty a b = (if a \<noteq> [] then a else b)"

definition attemptPurchase :: "adapters \<Rightarrow> Channel \<Rightarrow> CartItem list \<Rightarrow> db \<Rightarrow> db" where
  "attemptPurchase A ch items s =
     (let s0 = s\<lparr>purchaseCalls := purchaseCalls s @ [(ch_id ch, map ci_id items)]\<rparr> in
      case createPurchaseFunction A (length (purchaseCalls s)) ch items of
        Threw msg \<Rightarrow>
          updateCartItems items []
            (''ORDER_PLACEMENT_ERROR: '' @
               orNonEmpty msg ''Error on order placement. Order may have been placed.'') [] s0
      | Returned res \<Rightarrow>
          (let s1 = (if truthy (res_error res)
                     then updateCartItems items []
                            (''ORDER_PLACEMENT_ERROR: '' @ (case res_error res of Some e \<Rightarrow> e | None \<Rightarrow> []))
                            [] s0
                     else s0)
           in if truthy (res_purchaseId res)
              then updateCartItems items
                     (case res_url res of Some u \<Rightarrow> u | None \<Rightarrow> []) []
                     (case res_purchaseId res of Some p \<Rightarrow> p | None \<Rightarrow> []) s1
              else s1))"

text \<open>
  \<^verbatim>\<open>executeShopAdapterFunction\<close> (features/keystone/utils/shopProviderAdapter.ts) for
  the function name \<^verbatim>\<open>addCartToPlatformOrderFunction\<close>, as \<^verbatim>\<open>addCartToPlatformOrder\<close>
  calls it. The function path is the text the platform row holds under that name; reading
  it from a null platform throws. A path that starts with \<^verbatim>\<open>http\<close> is an endpoint the
  request is posted to: this is the one call that leaves the engine, it is recorded, and
  the adapter parameter gives the endpoint's answer (a response that is not ok, or a failed
  request, is \<open>Failed\<close>). Any other path is looked up among the bundled shop modules; a
  path that is none of them throws in the import. The bundled modules are
  \<^verbatim>\<open>lib/executor\<close>, \<^verbatim>\<open>openfront\<close> and \<^verbatim>\<open>shopify\<close>, and none of them exports a member
  named \<^verbatim>\<open>addCartToPlatformOrderFunction\<close>, so for each of them the lookup of the function
  throws and no adapter code runs.
\<close>

definition startsWithHttp :: "string \<Rightarrow> bool" where
  "startsWithHttp functionPath = (take 4 functionPath = ''http'')"

definition shopModules :: "string list" where
  "shopModules = [''lib/executor'', ''openfront'', ''shopify'']"

definition addCartToPlatformOrder ::
    "adapters \<Rightarrow> ShopPlatform option \<Rightarrow> Order \<Rightarrow> CartItem list \<Rightarrow> db \<Rightarrow> call_result \<times> db" where
  "addCartToPlatformOrder A platform updatedOrder items s =
     (case platform of
        None \<Rightarrow>
          (Failed ''Cannot read properties of null (reading 'addCartToPlatformOrderFunction')'', s)
      | Some p \<Rightarrow>
          (let functionPath = sp_addCartToPlatformOrderFunction p in
           if startsWithHttp functionPath
           then (addCartToPlatformOrderFunction A (length (platformOrderCalls s)) updatedOrder items,
                 s\<lparr>platformOrderCalls := platformOrderCalls s @ [(o_id updatedOrder, map ci_id items)]\<rparr>)
           else if functionPath \<in> set shopModules
           then (Failed (''Function addCartToPlatformOrderFunction not found in adapter '' @ functionPath), s)
           else (Failed (''Module not found in bundle: ../../integrations/shop/'' @ functionPath @ ''.ts''), s)))"

text \<open>
  The best-effort add-to-platform-order call after an order reached AWAITING: every
  failure inside the \<^verbatim>\<open>try\<close> block, a missing shop included, ends in \<^verbatim>\<open>console.warn\<close>
  with the error's message.
\<close>

definition Order_shop :: "Order \<Rightarrow> db \<Rightarrow> Shop option" where
  "Order_shop r s = (case o_shop r of None \<Rightarrow> None | Some i \<Rightarrow> find (\<lambda>h. sh_id h = i) (shops s))"

definition addCartWarning :: "string \<Rightarrow> string" where
  "addCartWarning msg = ''Warning: Add cart to platform order function failed: '' @ msg"

definition addCartBestEffort :: "adapters \<Rightarrow> Order \<Rightarrow> db \<Rightarrow> db" where
  "addCartBestEffort A updatedOrder s =
     (case Order_shop updatedOrder s of
        None \<Rightarrow>
          s\<lparr>console := console s @
               [addCartWarning ''Cannot read properties of null (reading 'platform')'']\<rparr>
      | Some sh \<Rightarrow>
          (case addCartToPlatformOrder A (sh_platform sh) updatedOrder
                  (cartItemsOfOrder (o_id updatedOrder) s) s of
             (Done, s1) \<Rightarrow> s1
           | (Failed msg, s1) \<Rightarrow> s1\<lparr>console := console s1 @ [addCartWarning msg]\<rparr>))"

text \<open>
  Whether the add-to-platform-order call of an order leaves the engine: the order has a
  shop, the shop a platform, and the platform's function path is an endpoint.
\<close>

definition addCartEndpoint :: "Order \<Rightarrow> db \<Rightarrow> bool" where
  "addCartEndpoint r s =
     (case Order_shop r s of
        None \<Rightarrow> False
      | Some sh \<Rightarrow> (case sh_platform sh of
                     None \<Rightarrow> False
                   | Some p \<Rightarrow> startsWithHttp (sp_addCartToPlatformOrderFunction p)))"

text \<open>
  What the add-to-platform-order attempt for \<open>updatedOrder\<close> leaves behind between a
  state \<open>s\<close> and a later state \<open>s'\<close>. If the call leaves the engine, the last recorded
  call is the one for this order with the order's cart items, and if the endpoint failed,
  the last console line is the warning with the endpoint's message. If it does not, no
  call is recorded and the last console line is a warning of the attempt.
\<close>

definition addCartOutcome :: "adapters \<Rightarrow> Order \<Rightarrow> db \<Rightarrow> db \<Rightarrow> bool" where
  "addCartOutcome A updatedOrder s s' =
     (if addCartEndpoint updatedOrder s
      then length (platformOrderCalls s) < length (platformOrderCalls s')
         \<and> last (platformOrderCalls s')
             = (o_id updatedOrder, map ci_id (cartItemsOfOrder (o_id updatedOrder) s'))
         \<and> (case addCartToPlatformOrderFunction A (length (platformOrderCalls s') - 1) updatedOrder
                   (cartItemsOfOrder (o_id updatedOrder) s') of
               Done \<Rightarrow> True
             | Failed msg \<Rightarrow> length (console s) < length (console s')
                            \<and> last (console s') = addCartWarning msg)
      else platformOrderCalls s' = platformOrderCalls s
         \<and> length (console s) < length (console s')
         \<and> take (length (addCartWarning [])) (last (console s')) = addCartWarning [])"

text \<open>
  One pass of the loop over the channels that hold unplaced items of the order. The
  order's user and the channel's platform are read before the \<^verbatim>\<open>try\<close> block, so a missing
  one throws out of the whole function. The recount and the status update are inside this
  loop body.
\<close>

definition placeTarget ::
    "adapters \<Rightarrow> ident \<Rightarrow> Order \<Rightarrow> Channel \<times> CartItem list \<Rightarrow> db \<Rightarrow> (exn + Order) \<times> db" where
  "placeTarget A orderId order t s =
     (case o_user order of
        None \<Rightarrow> (Inl (TypeError ''Cannot read properties of null (reading 'email')''), s)
      | Some u \<Rightarrow>
     (case ch_platform (fst t) of
        None \<Rightarrow> (Inl (TypeError ''Cannot read properties of null (reading 'createPurchaseFunction')''), s)
      | Some p \<Rightarrow>
          (let s1 = attemptPurchase A (fst t) (snd t) s in
           if cartCount orderId s1 = 0
           then (case Order_updateOne orderId (\<lambda>r. r\<lparr>o_status := ''AWAITING''\<rparr>) s1 of
                   (Inl e, s2) \<Rightarrow> (Inl e, s2)
                 | (Inr updatedOrder, s2) \<Rightarrow> (Inr updatedOrder, addCartBestEffort A updatedOrder s2))
           else Order_updateOne orderId (\<lambda>r. r\<lparr>o_status := ''PENDING''\<rparr>) s1)))"

fun placeTargets ::
    "adapters \<Rightarrow> ident \<Rightarrow> Order \<Rightarrow> (Channel \<times> CartItem list) list \<Rightarrow> Order list \<Rightarrow> db
      \<Rightarrow> (exn + Order list) \<times> db" where
  "placeTargets A orderId order [] processed s = (Inr processed, s)"
| "placeTargets A orderId order (t # ts) processed s =
     (case placeTarget A orderId order t s of
        (Inl e, s') \<Rightarrow> (Inl e, s')
      | (Inr updatedOrder, s') \<Rightarrow> placeTargets A orderId order ts (processed @ [updatedOrder]) s')"

text \<open>The body of the outer loop of \<^verbatim>\<open>placeMultipleOrders\<close> for one order identifier.\<close>

definition placeOrder :: "adapters \<Rightarrow> ident \<Rightarrow> Order list \<Rightarrow> db \<Rightarrow> (exn + Order list) \<times> db" where
  "placeOrder A orderId processed s =
     (case Order_findOne orderId s of
        None \<Rightarrow> (Inl (TypeError ''Cannot destructure property 'firstName' of null''), s)
      | Some order \<Rightarrow>
          placeTargets A orderId order
            (filter (\<lambda>t. length (snd t) > 0) (cartChannels orderId s)) processed s)"

fun placeOrdersFrom :: "adapters \<Rightarrow> ident list \<Rightarrow> Order list \<Rightarrow> db \<Rightarrow> (exn + Order list) \<times> db" where
  "placeOrdersFrom A [] processed s = (Inr processed, s)"
| "placeOrdersFrom A (orderId # ids) processed s =
     (case placeOrder A orderId processed s of
        (Inl e, s') \<Rightarrow> (Inl e, s')
      | (Inr processed', s') \<Rightarrow> placeOrdersFrom A ids processed' s')"

definition placeMultipleOrders :: "adapters \<Rightarrow> ident list \<Rightarrow> db \<Rightarrow> (exn + Order list) \<times> db" where
  "placeMultipleOrders A ids s = placeOrdersFrom A ids [] s"

section \<open>Cancellation\<close>

text \<open>
  \<^verbatim>\<open>cancelOrder\<close> (mutations/cancelOrder.ts): the order, then each of its cart items, is set
  to CANCELLED; any throw is rethrown with a prefix.
\<close>

fun cancelCartItems :: "CartItem list \<Rightarrow> db \<Rightarrow> db" where
  "cancelCartItems [] s = s"
| "cancelCartItems (c # cs) s =
     cancelCartItems cs (CartItem_updateOne (ci_id c) (\<lambda>x. x\<lparr>ci_status := ''CANCELLED''\<rparr>) s)"

definition exn_message :: "exn \<Rightarrow> string" where
  "exn_message e = (case e of TypeError m \<Rightarrow> m | Error m \<Rightarrow> m)"

definition cancelOrder :: "ident \<Rightarrow> db \<Rightarrow> (exn + string) \<times> db" where
  "cancelOrder orderId s =
     (case Order_updateOne orderId (\<lambda>r. r\<lparr>o_status := ''CANCELLED''\<rparr>) s of
        (Inl e, s1) \<Rightarrow> (Inl (Error (''Failed to cancel order: '' @ exn_message e)), s1)
      | (Inr u, s1) \<Rightarrow>
          (Inr ''Order cancelled successfully'', cancelCartItems (cartItemsOfOrder orderId s1) s1))"

section \<open>Match resolution\<close>

text \<open>
  The many-to-many relations of a Match are read through the ShopItem and ChannelItem
  tables; \<^verbatim>\<open>inputCount\<close> is the number of related ShopItems.
\<close>

definition Match_inputOf :: "Match \<Rightarrow> db \<Rightarrow> ShopItem list" where
  "Match_inputOf m s = filter (\<lambda>i. si_id i \<in> set (m_input m)) (shopItems s)"

definition Match_outputOf :: "Match \<Rightarrow> db \<Rightarrow> ChannelItem list" where
  "Match_outputOf m s = filter (\<lambda>i. chi_id i \<in> set (m_output m)) (channelItems s)"

definition lineItemsOf :: "ident \<Rightarrow> db \<Rightarrow> LineItem list" where
  "lineItemsOf oid s = filter (\<lambda>l. li_order l = Some oid) (lineItems s)"

definition tupleIs :: "string \<Rightarrow> string \<Rightarrow> int \<Rightarrow> ShopItem \<Rightarrow> bool" where
  "tupleIs p v q i = (si_productId i = p \<and> si_variantId i = v \<and> si_quantity i = q)"

text \<open>
  The \<^verbatim>\<open>Match.findMany\<close> of \<^verbatim>\<open>getMatches\<close> and \<^verbatim>\<open>matchOrder\<close>: the user's matches in
  which every line item's tuple is the tuple of \<^emph>\<open>some\<close> input ShopItem.
\<close>

definition matchesCovering :: "ident \<Rightarrow> LineItem list \<Rightarrow> db \<Rightarrow> Match list" where
  "matchesCovering uid lis s =
     filter (\<lambda>m. m_user m = Some uid \<and>
                 list_all (\<lambda>l. list_ex (tupleIs (li_productId l) (li_variantId l) (li_quantity l))
                                  (Match_inputOf m s)) lis)
            (matches s)"

text \<open>
  The per-line-item query of the fallback: the user's matches in which \<^emph>\<open>every\<close> input
  ShopItem has the line item's tuple (a match without input ShopItems passes).
\<close>

definition singleAllMatches :: "ident \<Rightarrow> LineItem \<Rightarrow> db \<Rightarrow> Match list" where
  "singleAllMatches uid l s =
     filter (\<lambda>m. m_user m = Some uid \<and>
                 list_all (tupleIs (li_productId l) (li_variantId l) (li_quantity l))
                          (Match_inputOf m s))
            (matches s)"

definition CartItem_createOne :: "CartItem \<Rightarrow> db \<Rightarrow> CartItem \<times> db" where
  "CartItem_createOne c s =
     (c\<lparr>ci_id := nextId s\<rparr>,
      s\<lparr>cartItems := cartItems s @ [c\<lparr>ci_id := nextId s\<rparr>], nextId := Suc (nextId s)\<rparr>)"

definition priceChangeError :: "string \<Rightarrow> string \<Rightarrow> string" where
  "priceChangeError savedPriceStr currentPriceStr =
     ''PRICE_CHANGE: Price changed: '' @ savedPriceStr @ '' '' @ [CHR 0xE2, CHR 0x86, CHR 0x92]
       @ '' '' @ currentPriceStr @ ''. Verify before placing order.''"

text \<open>
  The inner loop of \<^verbatim>\<open>createCartItems\<close>: for each output ChannelItem of a match the live
  product is fetched and a cart item is created; \<open>result\<close> is the last created item.
\<close>

fun createFromOutputs ::
    "adapters \<Rightarrow> Order \<Rightarrow> ChannelItem list \<Rightarrow> CartItem option \<Rightarrow> db \<Rightarrow> (exn + CartItem option) \<times> db" where
  "createFromOutputs A order [] result s = (Inr result, s)"
| "createFromOutputs A order (out # outs) result s =
     (case (case chi_channel out of None \<Rightarrow> None | Some i \<Rightarrow> find (\<lambda>h. ch_id h = i) (channels s)) of
        None \<Rightarrow> (Inl (TypeError ''Cannot read properties of null (reading 'platform')''), s)
      | Some channel \<Rightarrow>
     (case getProductFunction A channel (chi_productId out) (chi_variantId out) of
        ProductThrew e \<Rightarrow> (Inl e, s)
      | ProductReturned None \<Rightarrow>
          (Inl (TypeError ''Cannot read properties of undefined (reading 'price')''), s)
      | ProductReturned (Some product) \<Rightarrow>
     (case chi_user out of
        None \<Rightarrow> (Inl (TypeError ''Cannot read properties of null (reading 'id')''), s)
      | Some u \<Rightarrow>
          (case CartItem_createOne
                  \<lparr>ci_id = 0, ci_name = p_title product, ci_image = p_image product,
                   ci_price = p_price product, ci_quantity = chi_quantity out,
                   ci_productId = chi_productId out, ci_variantId = chi_variantId out,
                   ci_sku = [], ci_lineItemId = [], ci_url = [],
                   ci_error = (if p_price product \<noteq> chi_price out
                               then priceChangeError (chi_price out) (p_price product) else []),
                   ci_purchaseId = [], ci_status = ''PENDING'',
                   ci_order = Some (o_id order), ci_channel = Some (ch_id channel),
                   ci_user = Some u\<rparr> s of
             (c, s') \<Rightarrow> createFromOutputs A order outs (Some c) s'))))"

text \<open>
  The outer loop of \<^verbatim>\<open>createCartItems\<close> over the matches handed in. The fallback hands in
  the array of per-line-item results as it is, \<^verbatim>\<open>undefined\<close> entries included; reading
  \<^verbatim>\<open>output\<close> of such an entry throws.
\<close>

fun createFromMatches ::
    "adapters \<Rightarrow> Order \<Rightarrow> Match option list \<Rightarrow> CartItem option \<Rightarrow> db \<Rightarrow> (exn + CartItem option) \<times> db" where
  "createFromMatches A order [] result s = (Inr result, s)"
| "createFromMatches A order (None # ms) result s =
     (Inl (TypeError ''Cannot read properties of undefined (reading 'output')''), s)"
| "createFromMatches A order (Some m # ms) result s =
     (case createFromOutputs A order (Match_outputOf m s) result s of
        (Inl e, s') \<Rightarrow> (Inl e, s')
      | (Inr r, s') \<Rightarrow> createFromMatches A order ms r s')"

definition createCartItems ::
    "adapters \<Rightarrow> Order \<Rightarrow> Match option list \<Rightarrow> db \<Rightarrow> (exn + CartItem option) \<times> db" where
  "createCartItems A order ms s =
     (if length ms > 0 then createFromMatches A order ms None s else (Inr None, s))"

text \<open>
  The fallback's \<^verbatim>\<open>Promise.all\<close> over the line items: each line item yields its first
  single match, or marks the order and yields \<^verbatim>\<open>undefined\<close>. The order was read at the
  start of \<^verbatim>\<open>getMatches\<close>, so its update finds the row.
\<close>

definition markUnmatched :: "Order \<Rightarrow> Order" where
  "markUnmatched r =
     r\<lparr>o_error := ''MATCH_ERROR: Some lineItems not matched'', o_status := ''PENDING''\<rparr>"

fun perLineItem :: "ident \<Rightarrow> ident \<Rightarrow> LineItem list \<Rightarrow> db \<Rightarrow> Match option list \<times> db" where
  "perLineItem orderId uid [] s = ([], s)"
| "perLineItem orderId uid (l # ls) s =
     (case singleAllMatches uid l s of
        singleFilt # _ \<Rightarrow>
          (case perLineItem orderId uid ls s of (out, s') \<Rightarrow> (Some singleFilt # out, s'))
      | [] \<Rightarrow>
          (case perLineItem orderId uid ls (snd (Order_updateOne orderId markUnmatched s)) of
             (out, s') \<Rightarrow> (None # out, s')))"

definition getMatches :: "adapters \<Rightarrow> ident \<Rightarrow> db \<Rightarrow> (exn + CartItem option) \<times> db" where
  "getMatches A orderId s =
     (case Order_findOne orderId s of
        None \<Rightarrow> (Inl (Error ''Order not found''), s)
      | Some order \<Rightarrow>
     (case o_user order of
        None \<Rightarrow> (Inl (TypeError ''Cannot read properties of null (reading 'id')''), s)
      | Some uid \<Rightarrow>
     (case filter (\<lambda>m. length (Match_inputOf m s) = length (lineItemsOf orderId s))
                  (matchesCovering uid (lineItemsOf orderId s) s) of
        filt # _ \<Rightarrow> createCartItems A order [Some filt] s
      | [] \<Rightarrow>
          if length (lineItemsOf orderId s) > 1
          then (case perLineItem orderId uid (lineItemsOf orderId s) s of
                  (output, s1) \<Rightarrow>
                    if length (filter (\<lambda>v. v \<noteq> None) output) > 0
                    then createCartItems A order output s1
                    else (Inr None, s1))
          else (Inr None,
                snd (Order_updateOne orderId (\<lambda>r. r\<lparr>o_error := ''MATCH_ERROR: No matches found''\<rparr>) s)))))"

text \<open>\<^verbatim>\<open>addMatchToCart\<close>: the mutation around \<^verbatim>\<open>getMatches\<close>.\<close>

definition addMatchToCart :: "adapters \<Rightarrow> ident option \<Rightarrow> ident \<Rightarrow> db \<Rightarrow> (exn + Order option) \<times> db" where
  "addMatchToCart A session orderId s =
     (case session of
        None \<Rightarrow> (Inl (Error ''You must be logged in to do this!''), s)
      | Some u \<Rightarrow>
          (case getMatches A orderId s of
             (Inl e, s') \<Rightarrow> (Inl e, s')
           | (Inr None, s') \<Rightarrow> (Inl (Error ''No Matches found''), s')
           | (Inr (Some c), s') \<Rightarrow> (Inr (Order_findOne orderId s'), s')))"

section \<open>Link resolution and the order lifecycle\<close>

text \<open>
  The virtual field \<^verbatim>\<open>dynamicWhereClause\<close> of a Link resolves to a fixed text.
\<close>

definition dynamicWhereClause :: "Link \<Rightarrow> string" where
  "dynamicWhereClause l = ''Generated where clause based on filters''"

text \<open>
  The \<^verbatim>\<open>where\<close> argument of \<^verbatim>\<open>Order.findOne\<close> as a JavaScript object: its keys in
  insertion order, each with its value. A key is an array index (what spreading a string
  gives, one key per character) or a field name; a value is a character, an identifier, a
  text or a filter object \<^verbatim>\<open>{ equals: ... }\<close>.
\<close>

datatype where_key = IndexKey nat | FieldKey string

datatype where_value = Character char | Ident ident | Str string | Equals ident

type_synonym where_input = "(where_key \<times> where_value) list"

text \<open>The spread \<^verbatim>\<open>...str\<close> of a string inside an object literal.\<close>

definition spread :: "string \<Rightarrow> where_input" where
  "spread str = map (\<lambda>(i, c). (IndexKey i, Character c)) (enumerate 0 str)"

text \<open>
  \<^verbatim>\<open>findOne\<close> takes a unique where: exactly one of the list's unique fields, \<^verbatim>\<open>id\<close> or
  \<^verbatim>\<open>orderId\<close>, with a plain value. Any other object is refused by the type check of the
  input before the store is read.
\<close>

definition whereInputError :: exn where
  "whereInputError = Error ''Variable $where got invalid value: not an OrderWhereUniqueInput''"

fun Order_findOne_where :: "where_input \<Rightarrow> db \<Rightarrow> exn + Order option" where
  "Order_findOne_where [(FieldKey k, Ident i)] s =
     (if k = ''id'' then Inr (Order_findOne i s) else Inl whereInputError)"
| "Order_findOne_where [(FieldKey k, Str x)] s =
     (if k = ''orderId'' then Inr (find (\<lambda>r. o_orderId r = x) (orders s)) else Inl whereInputError)"
| "Order_findOne_where w s = Inl whereInputError"

text \<open>
  \<^verbatim>\<open>applyDynamicWhereClause\<close>: a missing link or an empty clause gives null; otherwise
  the link's clause, a string, is spread into an object, the key \<^verbatim>\<open>id\<close> with the filter
  \<^verbatim>\<open>{ equals: orderId }\<close> is added, and the object is handed to \<^verbatim>\<open>Order.findOne\<close>.
\<close>

definition applyDynamicWhereClause :: "ident \<Rightarrow> ident \<Rightarrow> db \<Rightarrow> exn + Order option" where
  "applyDynamicWhereClause linkId orderId s =
     (case find (\<lambda>l. l_id l = linkId) (links s) of
        None \<Rightarrow> Inr None
      | Some link \<Rightarrow>
          if dynamicWhereClause link = [] then Inr None
          else Order_findOne_where
                 (spread (dynamicWhereClause link) @ [(FieldKey ''id'', Equals orderId)]) s)"

text \<open>
  The sequential loop: the first link, in the given order, whose clause finds the order.
  A throw of \<^verbatim>\<open>applyDynamicWhereClause\<close> leaves the loop and the hook.
\<close>

fun sequentialLinks :: "ident \<Rightarrow> Link list \<Rightarrow> db \<Rightarrow> exn + Link list" where
  "sequentialLinks orderId [] s = Inr []"
| "sequentialLinks orderId (link # ls) s =
     (case applyDynamicWhereClause (l_id link) orderId s of
        Inl e \<Rightarrow> Inl e
      | Inr (Some matchedOrder) \<Rightarrow> Inr [link]
      | Inr None \<Rightarrow> sequentialLinks orderId ls s)"

text \<open>The simultaneous loop: every link whose clause finds the order.\<close>

fun simultaneousLinks :: "ident \<Rightarrow> Link list \<Rightarrow> db \<Rightarrow> exn + Link list" where
  "simultaneousLinks orderId [] s = Inr []"
| "simultaneousLinks orderId (link # ls) s =
     (case applyDynamicWhereClause (l_id link) orderId s of
        Inl e \<Rightarrow> Inl e
      | Inr matchedOrder \<Rightarrow>
          (case simultaneousLinks orderId ls s of
             Inl e \<Rightarrow> Inl e
           | Inr rest \<Rightarrow> Inr (if matchedOrder \<noteq> None then link # rest else rest)))"

text \<open>
  The data of \<^verbatim>\<open>CartItem.createMany\<close> in the link route: the queried fields of a line
  item, spread unchanged, with the channel, the order and the user connected. The line
  item's \<^verbatim>\<open>price\<close> is a number and goes as it is into the input of the text field
  \<^verbatim>\<open>price\<close> of the cart item.
\<close>

datatype text_input = TextValue string | NumberValue js_number

record CartItemCreateInput =
  cin_name :: string
  cin_image :: string
  cin_price :: text_input
  cin_quantity :: int
  cin_productId :: string
  cin_variantId :: string
  cin_sku :: string
  cin_lineItemId :: string
  cin_order :: "ident option"
  cin_channel :: "ident option"
  cin_user :: "ident option"

definition cartItemOfLineItem :: "Order \<Rightarrow> ident \<Rightarrow> LineItem \<Rightarrow> CartItemCreateInput" where
  "cartItemOfLineItem order channelId l =
     \<lparr>cin_name = li_name l, cin_image = li_image l, cin_price = NumberValue (li_price l),
      cin_quantity = li_quantity l, cin_productId = li_productId l,
      cin_variantId = li_variantId l, cin_sku = li_sku l, cin_lineItemId = li_lineItemId l,
      cin_order = Some (o_id order), cin_channel = Some channelId, cin_user = o_user order\<rparr>"

text \<open>
  \<^verbatim>\<open>CartItem.createMany\<close>: the whole input is type-checked before a row is written, and
  a number is no value of the type \<^verbatim>\<open>String\<close>; the rows of a well-typed input are created
  one after the other, the fields left out at their defaults.
\<close>

definition isTextValue :: "text_input \<Rightarrow> bool" where
  "isTextValue v = (case v of TextValue x \<Rightarrow> True | NumberValue n \<Rightarrow> False)"

definition textOf :: "text_input \<Rightarrow> string" where
  "textOf v = (case v of TextValue x \<Rightarrow> x | NumberValue n \<Rightarrow> [])"

definition CartItem_ofInput :: "CartItemCreateInput \<Rightarrow> CartItem" where
  "CartItem_ofInput d =
     \<lparr>ci_id = 0, ci_name = cin_name d, ci_image = cin_image d, ci_price = textOf (cin_price d),
      ci_quantity = cin_quantity d, ci_productId = cin_productId d,
      ci_variantId = cin_variantId d, ci_sku = cin_sku d, ci_lineItemId = cin_lineItemId d,
      ci_url = [], ci_error = [], ci_purchaseId = [], ci_status = ''PENDING'',
      ci_order = cin_order d, ci_channel = cin_channel d, ci_user = cin_user d\<rparr>"

fun CartItem_createRows :: "CartItem list \<Rightarrow> db \<Rightarrow> db" where
  "CartItem_createRows [] s = s"
| "CartItem_createRows (c # cs) s = CartItem_createRows cs (snd (CartItem_createOne c s))"

definition CartItem_createMany :: "CartItemCreateInput list \<Rightarrow> db \<Rightarrow> (exn + unit) \<times> db" where
  "CartItem_createMany data s =
     (if list_all (\<lambda>d. isTextValue (cin_price d)) data
      then (Inr (), CartItem_createRows (map CartItem_ofInput data) s)
      else (Inl (Error ''Variable $data got invalid value: String cannot represent a non string value''), s))"

fun createForLinks :: "Order \<Rightarrow> LineItem list \<Rightarrow> Link list \<Rightarrow> db \<Rightarrow> (exn + unit) \<times> db" where
  "createForLinks order lis [] s = (Inr (), s)"
| "createForLinks order lis (link # ls) s =
     (case l_channel link of
        None \<Rightarrow> (Inl (TypeError ''Cannot read properties of null (reading 'id')''), s)
      | Some channelId \<Rightarrow>
          (case CartItem_createMany (map (cartItemOfLineItem order channelId) lis) s of
             (Inl e, s1) \<Rightarrow> (Inl e, s1)
           | (Inr u, s1) \<Rightarrow> createForLinks order lis ls s1))"

definition shopLinks :: "ident \<Rightarrow> db \<Rightarrow> Link list" where
  "shopLinks shopId s = filter (\<lambda>l. l_shop l = Some shopId) (links s)"

text \<open>
  \<^verbatim>\<open>Order.hooks.afterOperation\<close> for the \<^verbatim>\<open>create\<close> operation on the created row
  \<open>item\<close>. The three branches are the link route, the match route (whose throws are caught
  and written to the order) and the direct placement of an order that came with cart items.
\<close>

definition orderMatchRoute :: "adapters \<Rightarrow> Order \<Rightarrow> db \<Rightarrow> (exn + unit) \<times> db" where
  "orderMatchRoute A item s =
     (case (case getMatches A (o_id item) s of
              (Inl e, s1) \<Rightarrow> (Inl e, s1)
            | (Inr cartItemsFromMatch, s1) \<Rightarrow>
                (case Order_findOne (o_id item) s1 of
                   None \<Rightarrow>
                     (if o_processOrder item
                      then (case placeMultipleOrders A [o_id item] s1 of
                              (Inl e, s2) \<Rightarrow> (Inl e, s2) | (Inr p, s2) \<Rightarrow> (Inr (), s2))
                      else (Inr (), s1))
                 | Some order2 \<Rightarrow>
                     if o_error order2 \<noteq> []
                     then (case Order_updateOne (o_id item) (\<lambda>r. r\<lparr>o_status := ''PENDING''\<rparr>) s1 of
                             (Inl e, s2) \<Rightarrow> (Inl e, s2) | (Inr u, s2) \<Rightarrow> (Inr (), s2))
                     else if o_processOrder item
                     then (case placeMultipleOrders A [o_id item] s1 of
                             (Inl e, s2) \<Rightarrow> (Inl e, s2) | (Inr p, s2) \<Rightarrow> (Inr (), s2))
                     else (Inr (), s1))) of
        (Inr u, s') \<Rightarrow> (Inr (), s')
      | (Inl matchError, s') \<Rightarrow>
          (case Order_updateOne (o_id item)
                  (\<lambda>r. r\<lparr>o_error := ''Match processing failed: '' @ exn_message matchError,
                         o_status := ''PENDING''\<rparr>) s' of
             (Inl e, s2) \<Rightarrow> (Inl e, s2) | (Inr u, s2) \<Rightarrow> (Inr (), s2)))"

definition orderLinkRoute :: "adapters \<Rightarrow> Order \<Rightarrow> Order \<Rightarrow> Shop \<Rightarrow> db \<Rightarrow> (exn + unit) \<times> db" where
  "orderLinkRoute A item order shop s =
     (let sorted = sort_key l_rank (shopLinks (sh_id shop) s) in
      case (if sh_linkMode shop = ''sequential'' then sequentialLinks (o_id order) sorted s
            else if sh_linkMode shop = ''simultaneous'' then simultaneousLinks (o_id order) sorted s
            else Inr []) of
        Inl e \<Rightarrow> (Inl e, s)
      | Inr matchedLinks \<Rightarrow>
          if length matchedLinks > 0
          then (case createForLinks order (lineItemsOf (o_id order) s) matchedLinks s of
                  (Inl e, s1) \<Rightarrow> (Inl e, s1)
                | (Inr u, s1) \<Rightarrow>
                    if o_processOrder item
                    then (case placeMultipleOrders A [o_id item] s1 of
                            (Inl e, s2) \<Rightarrow> (Inl e, s2) | (Inr p, s2) \<Rightarrow> (Inr (), s2))
                    else (Inr (), s1))
          else (case Order_updateOne (o_id item)
                       (\<lambda>r. r\<lparr>o_error := ''No matching link found for this order''\<rparr>) s of
                  (Inl e, s1) \<Rightarrow> (Inl e, s1) | (Inr u, s1) \<Rightarrow> (Inr (), s1)))"

definition Order_afterCreate :: "adapters \<Rightarrow> Order \<Rightarrow> db \<Rightarrow> (exn + unit) \<times> db" where
  "Order_afterCreate A item s =
     (case Order_findOne (o_id item) s of
        None \<Rightarrow> (Inl (TypeError ''Cannot read properties of null (reading 'shop')''), s)
      | Some order \<Rightarrow>
          (case (if o_linkOrder item
                 then (case Order_shop order s of
                         None \<Rightarrow> None
                       | Some shop \<Rightarrow> if length (shopLinks (sh_id shop) s) > 0 then Some shop else None)
                 else None) of
             Some shop \<Rightarrow> orderLinkRoute A item order shop s
           | None \<Rightarrow>
               if o_matchOrder item then orderMatchRoute A item s
               else if length (cartItemsOfOrder (o_id order) s) > 0 \<and> o_processOrder item
               then (case placeMultipleOrders A [o_id item] s of
                       (Inl e, s2) \<Rightarrow> (Inl e, s2) | (Inr p, s2) \<Rightarrow> (Inr (), s2))
               else (Inr (), s)))"

section \<open>Tracking\<close>






section \<open>Match hooks\<close>

text \<open>
  The data of a Match create or update: the relation inputs carry optional \<^verbatim>\<open>connect\<close>,
  \<^verbatim>\<open>create\<close> and \<^verbatim>\<open>disconnect\<close> lists, as the Keystone relationship input does.
\<close>

datatype operation = Create | Update | Delete

record ShopItemData =
  sid_productId :: string
  sid_variantId :: string
  sid_quantity :: int
  sid_shop :: "ident option"
  sid_user :: "ident option"

record ChannelItemData =
  cid_productId :: string
  cid_variantId :: string
  cid_quantity :: int
  cid_price :: string
  cid_channel :: "ident option"
  cid_user :: "ident option"

record InputRel =
  in_connect :: "ident list option"
  in_create :: "ShopItemData list option"
  in_disconnect :: "ident list option"

record OutputRel =
  out_connect :: "ident list option"
  out_create :: "ChannelItemData list option"
  out_disconnect :: "ident list option"

record MatchData =
  md_input :: "InputRel option"
  md_output :: "OutputRel option"
  md_user :: "ident option"

definition orElse :: "'a option \<Rightarrow> 'a option \<Rightarrow> 'a option" where
  "orElse a b = (case a of Some x \<Rightarrow> Some x | None \<Rightarrow> b)"

definition userIs :: "ident option \<Rightarrow> ident option \<Rightarrow> bool" where
  \<comment> \<open>the filter \<^verbatim>\<open>user: { id: { equals: u } }\<close>; an undefined \<open>u\<close> filters nothing\<close>
  "userIs u rowUser = (case u of None \<Rightarrow> True | Some x \<Rightarrow> rowUser = Some x)"

text \<open>\<^verbatim>\<open>ensureShopItems\<close>: each item to create is looked up first and created when missing.\<close>

fun ensureShopItems :: "ident option \<Rightarrow> ShopItemData list \<Rightarrow> ident list \<Rightarrow> db \<Rightarrow> (exn + ident list) \<times> db" where
  "ensureShopItems session [] processedItems s = (Inr processedItems, s)"
| "ensureShopItems session (item2 # rest) processedItems s =
     (case sid_shop item2 of
        None \<Rightarrow> (Inl (TypeError ''Cannot read properties of undefined (reading 'connect')''), s)
      | Some shopId \<Rightarrow>
          (case filter (\<lambda>i. si_productId i = sid_productId item2 \<and> si_variantId i = sid_variantId item2
                            \<and> si_quantity i = sid_quantity item2 \<and> si_shop i = Some shopId
                            \<and> userIs (orElse (sid_user item2) session) (si_user i)) (shopItems s) of
             existingItem # _ \<Rightarrow> ensureShopItems session rest (processedItems @ [si_id existingItem]) s
           | [] \<Rightarrow>
               ensureShopItems session rest (processedItems @ [nextId s])
                 (s\<lparr>shopItems := shopItems s @
                       [\<lparr>si_id = nextId s, si_productId = sid_productId item2,
                         si_variantId = sid_variantId item2, si_quantity = sid_quantity item2,
                         si_shop = Some shopId, si_user = orElse (sid_user item2) session\<rparr>],
                    nextId := Suc (nextId s)\<rparr>)))"

fun ensureChannelItems :: "ident option \<Rightarrow> ChannelItemData list \<Rightarrow> ident list \<Rightarrow> db \<Rightarrow> (exn + ident list) \<times> db" where
  "ensureChannelItems session [] processedItems s = (Inr processedItems, s)"
| "ensureChannelItems session (item2 # rest) processedItems s =
     (case cid_channel item2 of
        None \<Rightarrow> (Inl (TypeError ''Cannot read properties of undefined (reading 'connect')''), s)
      | Some channelId \<Rightarrow>
          (case filter (\<lambda>i. chi_productId i = cid_productId item2 \<and> chi_variantId i = cid_variantId item2
                            \<and> chi_quantity i = cid_quantity item2 \<and> chi_channel i = Some channelId
                            \<and> userIs (orElse (cid_user item2) session) (chi_user i)) (channelItems s) of
             existingItem # _ \<Rightarrow> ensureChannelItems session rest (processedItems @ [chi_id existingItem]) s
           | [] \<Rightarrow>
               ensureChannelItems session rest (processedItems @ [nextId s])
                 (s\<lparr>channelItems := channelItems s @
                       [\<lparr>chi_id = nextId s, chi_productId = cid_productId item2,
                         chi_variantId = cid_variantId item2, chi_quantity = cid_quantity item2,
                         chi_price = cid_price item2,
                         chi_channel = Some channelId, chi_user = orElse (cid_user item2) session\<rparr>],
                    nextId := Suc (nextId s)\<rparr>)))"

text \<open>
  \<^verbatim>\<open>checkForDuplicate\<close>: among the matches that share an input with \<open>inputIds\<close>, is there
  one with as many inputs as \<open>inputIds\<close> has entries, all of them among \<open>inputIds\<close>?
\<close>

definition checkForDuplicate :: "ident list \<Rightarrow> db \<Rightarrow> bool" where
  "checkForDuplicate inputIds s =
     list_ex (\<lambda>m. length (map si_id (Match_inputOf m s)) = length inputIds
                  \<and> list_all (\<lambda>i. i \<in> set inputIds) (map si_id (Match_inputOf m s)))
             (filter (\<lambda>m. list_ex (\<lambda>i. si_id i \<in> set inputIds) (Match_inputOf m s)) (matches s))"

definition duplicateError :: exn where
  "duplicateError = Error ''A match with the same input combination already exists.''"

text \<open>The first two steps of the hook: \<^verbatim>\<open>create\<close> entries become \<^verbatim>\<open>connect\<close> entries.\<close>

definition resolveInputCreate :: "ident option \<Rightarrow> MatchData \<Rightarrow> db \<Rightarrow> (exn + MatchData) \<times> db" where
  "resolveInputCreate session rd s =
     (case md_input rd of
        None \<Rightarrow> (Inr rd, s)
      | Some inp \<Rightarrow>
          (case in_create inp of
             None \<Rightarrow> (Inr rd, s)
           | Some cr \<Rightarrow>
               (case ensureShopItems session cr [] s of
                  (Inl e, s1) \<Rightarrow> (Inl e, s1)
                | (Inr processedInput, s1) \<Rightarrow>
                    (Inr (rd\<lparr>md_input := Some (inp\<lparr>in_connect :=
                                 Some ((case in_connect inp of Some c \<Rightarrow> c | None \<Rightarrow> []) @ processedInput),
                               in_create := None\<rparr>)\<rparr>), s1))))"

definition resolveOutputCreate :: "ident option \<Rightarrow> MatchData \<Rightarrow> db \<Rightarrow> (exn + MatchData) \<times> db" where
  "resolveOutputCreate session rd s =
     (case md_output rd of
        None \<Rightarrow> (Inr rd, s)
      | Some outp \<Rightarrow>
          (case out_create outp of
             None \<Rightarrow> (Inr rd, s)
           | Some cr \<Rightarrow>
               (case ensureChannelItems session cr [] s of
                  (Inl e, s1) \<Rightarrow> (Inl e, s1)
                | (Inr processedOutput, s1) \<Rightarrow>
                    (Inr (rd\<lparr>md_output := Some (outp\<lparr>out_connect :=
                                 Some ((case out_connect outp of Some c \<Rightarrow> c | None \<Rightarrow> []) @ processedOutput),
                               out_create := None\<rparr>)\<rparr>), s1))))"

text \<open>The duplicate check of the \<^verbatim>\<open>create\<close> operation.\<close>

definition createCheck :: "MatchData \<Rightarrow> db \<Rightarrow> exn option" where
  "createCheck rd s =
     (case md_input rd of
        None \<Rightarrow> Some (TypeError ''Cannot read properties of undefined (reading 'connect')'')
      | Some inp \<Rightarrow>
          (case in_connect inp of
             None \<Rightarrow> None
           | Some c \<Rightarrow>
               if length c > 0 \<and> checkForDuplicate c s then Some duplicateError else None))"

text \<open>
  The duplicate check of the \<^verbatim>\<open>update\<close> operation on the row \<open>itemId\<close>: the inputs that stay
  after the disconnects, followed by the connected ShopItems as the store finds them.
\<close>

definition updateCheck :: "ident \<Rightarrow> MatchData \<Rightarrow> db \<Rightarrow> exn option" where
  "updateCheck itemId rd s =
     (case md_input rd of
        None \<Rightarrow> None
      | Some inp \<Rightarrow>
          (case find (\<lambda>m. m_id m = itemId) (matches s) of
             None \<Rightarrow> Some (TypeError ''Cannot read properties of null (reading 'input')'')
           | Some matchToUpdate \<Rightarrow>
               (let newInputs = (case in_connect inp of
                                   Some c \<Rightarrow> map (\<lambda>i. find (\<lambda>x. si_id x = i) (shopItems s)) c
                                 | None \<Rightarrow> []);
                    disconnectedIds = (case in_disconnect inp of Some d \<Rightarrow> d | None \<Rightarrow> []);
                    remainingCurrentInputs =
                      filter (\<lambda>i. si_id i \<notin> set disconnectedIds) (Match_inputOf matchToUpdate s)
                in if list_ex (\<lambda>x. x = None) newInputs
                   then Some (TypeError ''Cannot read properties of null (reading 'id')'')
                   else if checkForDuplicate
                             (map si_id (remainingCurrentInputs @ List.map_filter (\<lambda>x. x) newInputs)) s
                   then Some duplicateError else None)))"

definition Match_resolveInput ::
    "operation \<Rightarrow> ident \<Rightarrow> ident option \<Rightarrow> MatchData \<Rightarrow> db \<Rightarrow> (exn + MatchData) \<times> db" where
  "Match_resolveInput operation itemId session resolvedData s =
     (case resolveInputCreate session resolvedData s of
        (Inl e, s1) \<Rightarrow> (Inl e, s1)
      | (Inr rd1, s1) \<Rightarrow>
     (case resolveOutputCreate session rd1 s1 of
        (Inl e, s2) \<Rightarrow> (Inl e, s2)
      | (Inr rd2, s2) \<Rightarrow>
     (case (if operation = Create then createCheck rd2 s2
            else if operation = Update then updateCheck itemId rd2 s2 else None) of
        Some e \<Rightarrow> (Inl e, s2)
      | None \<Rightarrow> (Inr (rd2\<lparr>md_user := orElse (md_user rd2) session\<rparr>), s2))))"

text \<open>
  The store operations on Match run the hook and then persist. A relation is a set of
  rows: connecting twice connects once.
\<close>

definition Match_createOne :: "ident option \<Rightarrow> MatchData \<Rightarrow> db \<Rightarrow> (exn + Match) \<times> db" where
  "Match_createOne session d s =
     (case Match_resolveInput Create 0 session d s of
        (Inl e, s1) \<Rightarrow> (Inl e, s1)
      | (Inr rd, s1) \<Rightarrow>
          (let row = \<lparr>m_id = nextId s1,
                      m_input = remdups (case md_input rd of None \<Rightarrow> []
                                  | Some inp \<Rightarrow> (case in_connect inp of Some c \<Rightarrow> c | None \<Rightarrow> [])),
                      m_output = remdups (case md_output rd of None \<Rightarrow> []
                                  | Some outp \<Rightarrow> (case out_connect outp of Some c \<Rightarrow> c | None \<Rightarrow> [])),
                      m_user = md_user rd\<rparr>
           in (Inr row, s1\<lparr>matches := matches s1 @ [row], nextId := Suc (nextId s1)\<rparr>)))"

definition applyMatchUpdate :: "MatchData \<Rightarrow> Match \<Rightarrow> Match" where
  "applyMatchUpdate rd m =
     m\<lparr>m_input := (case md_input rd of None \<Rightarrow> m_input m
                   | Some inp \<Rightarrow>
                       remdups (filter (\<lambda>i. i \<notin> set (case in_disconnect inp of Some d \<Rightarrow> d | None \<Rightarrow> []))
                                  (m_input m)
                                @ (case in_connect inp of Some c \<Rightarrow> c | None \<Rightarrow> []))),
       m_output := (case md_output rd of None \<Rightarrow> m_output m
                   | Some outp \<Rightarrow>
                       remdups (filter (\<lambda>i. i \<notin> set (case out_disconnect outp of Some d \<Rightarrow> d | None \<Rightarrow> []))
                                  (m_output m)
                                @ (case out_connect outp of Some c \<Rightarrow> c | None \<Rightarrow> []))),
       m_user := orElse (md_user rd) (m_user m)\<rparr>"

definition Match_updateOne :: "ident option \<Rightarrow> ident \<Rightarrow> MatchData \<Rightarrow> db \<Rightarrow> (exn + Match) \<times> db" where
  "Match_updateOne session itemId d s =
     (case find (\<lambda>m. m_id m = itemId) (matches s) of
        None \<Rightarrow> (Inl (Error ''Access denied: You cannot update that Match - it may not exist''), s)
      | Some item \<Rightarrow>
          (case Match_resolveInput Update itemId session d s of
             (Inl e, s1) \<Rightarrow> (Inl e, s1)
           | (Inr rd, s1) \<Rightarrow>
               (Inr (applyMatchUpdate rd item),
                s1\<lparr>matches := map (\<lambda>m. if m_id m = itemId then applyMatchUpdate rd m else m)
                                   (matches s1)\<rparr>)))"

definition Match_deleteOne :: "ident \<Rightarrow> db \<Rightarrow> db" where
  "Match_deleteOne i s = s\<lparr>matches := filter (\<lambda>m. m_id m \<noteq> i) (matches s)\<rparr>"

section \<open>The matchOrder mutation\<close>

fun findShopItems :: "LineItem list \<Rightarrow> ident \<Rightarrow> ident \<Rightarrow> ident list \<Rightarrow> db \<Rightarrow> ident list \<times> db" where
  "findShopItems [] channelId userId arr s = (arr, s)"
| "findShopItems (l # ls) channelId userId arr s =
     (case filter (\<lambda>i. si_shop i = Some channelId \<and> si_user i = Some userId
                       \<and> si_quantity i = li_quantity l \<and> si_productId i = li_productId l
                       \<and> si_variantId i = li_variantId l) (shopItems s) of
        existingShopItem # _ \<Rightarrow> findShopItems ls channelId userId (arr @ [si_id existingShopItem]) s
      | [] \<Rightarrow>
          findShopItems ls channelId userId (arr @ [nextId s])
            (s\<lparr>shopItems := shopItems s @
                  [\<lparr>si_id = nextId s, si_productId = li_productId l, si_variantId = li_variantId l,
                    si_quantity = li_quantity l, si_shop = Some channelId, si_user = Some userId\<rparr>],
               nextId := Suc (nextId s)\<rparr>))"

fun findChannelItems :: "(CartItem \<times> ident) list \<Rightarrow> ident \<Rightarrow> ident list \<Rightarrow> db \<Rightarrow> ident list \<times> db" where
  "findChannelItems [] userId arr s = (arr, s)"
| "findChannelItems ((c, channelId) # cs) userId arr s =
     (case filter (\<lambda>i. chi_channel i = Some channelId \<and> chi_user i = Some userId
                       \<and> chi_quantity i = ci_quantity c \<and> chi_productId i = ci_productId c
                       \<and> chi_variantId i = ci_variantId c) (channelItems s) of
        existingChannelItem # _ \<Rightarrow> findChannelItems cs userId (arr @ [chi_id existingChannelItem]) s
      | [] \<Rightarrow>
          findChannelItems cs userId (arr @ [nextId s])
            (s\<lparr>channelItems := channelItems s @
                  [\<lparr>chi_id = nextId s, chi_productId = ci_productId c, chi_variantId = ci_variantId c,
                    chi_quantity = ci_quantity c, chi_price = ci_price c,
                    chi_channel = Some channelId, chi_user = Some userId\<rparr>],
               nextId := Suc (nextId s)\<rparr>))"

text \<open>
  \<^verbatim>\<open>matchOrder\<close>: the order's line items and cart items become ShopItems and
  ChannelItems, the first of the caller's matches that covers the line items with as many
  inputs as there are line items is deleted, and the new match is created. The shop is
  read once per line item, so an order without line items never reads it.
\<close>

definition matchOrder :: "ident option \<Rightarrow> ident \<Rightarrow> db \<Rightarrow> (exn + Match) \<times> db" where
  "matchOrder sesh orderId s =
     (case sesh of
        None \<Rightarrow> (Inl (TypeError ''Cannot read properties of undefined (reading 'itemId')''), s)
      | Some uid \<Rightarrow>
     (case Order_findOne orderId s of
        None \<Rightarrow> (Inl (TypeError ''Cannot read properties of null (reading 'lineItems')''), s)
      | Some order \<Rightarrow>
     (case (if lineItemsOf orderId s = [] then Some 0 else o_shop order) of
        None \<Rightarrow> (Inl (TypeError ''Cannot read properties of null (reading 'id')''), s)
      | Some shopId \<Rightarrow>
     (case findShopItems (lineItemsOf orderId s) shopId uid [] s of
        (shopItemConnect, s1) \<Rightarrow>
          if list_ex (\<lambda>c. ci_channel c = None) (cartItemsOfOrder orderId s)
          then (Inl (TypeError ''Cannot read properties of null (reading 'id')''), s1)
          else
     (case findChannelItems
             (concat (map (\<lambda>c. case ci_channel c of None \<Rightarrow> [] | Some h \<Rightarrow> [(c, h)])
                        (cartItemsOfOrder orderId s))) uid [] s1 of
        (channelItemConnect, s2) \<Rightarrow>
          (let s3 = (case filter (\<lambda>m. length (Match_inputOf m s2) = length (lineItemsOf orderId s))
                            (matchesCovering uid (lineItemsOf orderId s) s2) of
                       existingMatch # _ \<Rightarrow> Match_deleteOne (m_id existingMatch) s2
                     | [] \<Rightarrow> s2)
           in Match_createOne (Some uid)
                \<lparr>md_input = Some \<lparr>in_connect = Some shopItemConnect, in_create = None, in_disconnect = None\<rparr>,
                 md_output = Some \<lparr>out_connect = Some channelItemConnect, out_create = None, out_disconnect = None\<rparr>,
                 md_user = Some uid\<rparr> s3))))))"

section \<open>Link hooks\<close>

record LinkData =
  ld_rank :: "int option"
  ld_shop :: "ident option"
  ld_channel :: "ident option"
  ld_user :: "ident option"

text \<open>
  \<^verbatim>\<open>Link.hooks.beforeOperation\<close>: on \<^verbatim>\<open>create\<close> the rank is computed from the number of
  links the shop already has; other operations pass through.
\<close>

definition Link_beforeOperation :: "operation \<Rightarrow> LinkData \<Rightarrow> db \<Rightarrow> exn + LinkData" where
  "Link_beforeOperation operation resolvedData s =
     (if operation = Create
      then (case ld_shop resolvedData of
              None \<Rightarrow> Inl (TypeError ''Cannot read properties of undefined (reading 'connect')'')
            | Some shopId \<Rightarrow>
                (let existingLinks = filter (\<lambda>l. l_shop l = Some shopId) (links s);
                     nextRank = (if length existingLinks > 0 then int (length existingLinks) + 1 else 1)
                 in Inr (resolvedData\<lparr>ld_rank := Some nextRank\<rparr>)))
      else Inr resolvedData)"

definition Link_createOne :: "LinkData \<Rightarrow> db \<Rightarrow> (exn + Link) \<times> db" where
  "Link_createOne d s =
     (case Link_beforeOperation Create d s of
        Inl e \<Rightarrow> (Inl e, s)
      | Inr rd \<Rightarrow>
          (let row = \<lparr>l_id = nextId s, l_rank = (case ld_rank rd of Some r \<Rightarrow> r | None \<Rightarrow> 1),
                      l_shop = ld_shop rd, l_channel = ld_channel rd, l_user = ld_user rd\<rparr>
           in (Inr row, s\<lparr>links := links s @ [row], nextId := Suc (nextId s)\<rparr>)))"

definition applyLinkUpdate :: "LinkData \<Rightarrow> Link \<Rightarrow> Link" where
  "applyLinkUpdate rd l =
     l\<lparr>l_rank := (case ld_rank rd of Some r \<Rightarrow> r | None \<Rightarrow> l_rank l),
       l_shop := orElse (ld_shop rd) (l_shop l),
       l_channel := orElse (ld_channel rd) (l_channel l),
       l_user := orElse (ld_user rd) (l_user l)\<rparr>"

definition Link_updateOne :: "ident \<Rightarrow> LinkData \<Rightarrow> db \<Rightarrow> (exn + Link) \<times> db" where
  "Link_updateOne itemId d s =
     (case find (\<lambda>l. l_id l = itemId) (links s) of
        None \<Rightarrow> (Inl (Error ''Access denied: You cannot update that Link - it may not exist''), s)
      | Some item \<Rightarrow>
          (case Link_beforeOperation Update d s of
             Inl e \<Rightarrow> (Inl e, s)
           | Inr rd \<Rightarrow>
               (Inr (applyLinkUpdate rd item),
                s\<lparr>links := map (\<lambda>l. if l_id l = itemId then applyLinkUpdate rd l else l) (links s)\<rparr>)))"

text \<open>
  The rank as the specification words it, for comparison with the hook: the maximum rank
  among the shop's existing links plus one, and 1 when there is none.
\<close>

definition spec_nextRank :: "ident \<Rightarrow> db \<Rightarrow> int" where
  "spec_nextRank shopId s =
     (case filter (\<lambda>l. l_shop l = Some shopId) (links s) of
        [] \<Rightarrow> 1
      | l # ls \<Rightarrow> fold max (map l_rank ls) (l_rank l) + 1)"

section \<open>Views of a cart item\<close>

text \<open>
  The routing part of a cart item: the row with its three outcome fields blanked. The
  placement pipeline writes outcome fields only, so this part is what a route decided.
\<close>

definition routingOf :: "CartItem \<Rightarrow> CartItem" where
  "routingOf c = c\<lparr>ci_url := [], ci_error := [], ci_purchaseId := []\<rparr>"

section \<open>Store invariants used for the matchOrder mutation\<close>

text \<open>
  Identifiers are drawn from the counter: ShopItem identifiers are distinct and below
  \<open>nextId\<close>, and so is every identifier a match lists as input.
\<close>

definition store_keys_ok :: "db \<Rightarrow> bool" where
  "store_keys_ok s =
     (distinct (map si_id (shopItems s))
      \<and> list_all (\<lambda>row. si_id row < nextId s) (shopItems s)
      \<and> list_all (\<lambda>m. list_all (\<lambda>j. j < nextId s) (m_input m)) (matches s))"

definition lineTuple :: "LineItem \<Rightarrow> string \<times> string \<times> int" where
  "lineTuple l = (li_productId l, li_variantId l, li_quantity l)"

text \<open>The ShopItem \<open>j\<close> is the caller's fingerprint of line item \<open>l\<close> in the shop.\<close>

definition shopItemFor :: "ident \<Rightarrow> ident \<Rightarrow> db \<Rightarrow> LineItem \<Rightarrow> ident \<Rightarrow> bool" where
  "shopItemFor shopId uid s l j =
     list_ex (\<lambda>row. si_id row = j \<and> tupleIs (li_productId l) (li_variantId l) (li_quantity l) row
                    \<and> si_shop row = Some shopId \<and> si_user row = Some uid) (shopItems s)"

text \<open>The matches \<^verbatim>\<open>matchOrder\<close> considers as the existing recipe of an order.\<close>

definition existingMatches :: "ident \<Rightarrow> ident \<Rightarrow> db \<Rightarrow> Match list" where
  "existingMatches uid orderId s =
     filter (\<lambda>m. length (Match_inputOf m s) = length (lineItemsOf orderId s))
            (matchesCovering uid (lineItemsOf orderId s) s)"

section \<open>Concrete stores\<close>

text \<open>
  Small stores and adapters on which the theorems below are run: one user (100), one shop
  (200), channels 5 and 6, order 1.
\<close>

definition ex_db :: db where
  "ex_db = \<lparr>orders = [], lineItems = [], cartItems = [], channels = [], shops = [], links = [],
            shopItems = [], channelItems = [], matches = [], trackingDetails = [], nextId = 1000,
            purchaseCalls = [], platformOrderCalls = [], trackingCalls = [], console = []\<rparr>"

definition ex_order :: "ident \<Rightarrow> string \<Rightarrow> Order" where
  "ex_order i st = \<lparr>o_id = i, o_orderId = ''S-1'', o_status = st, o_error = [],
                    o_linkOrder = True, o_matchOrder = True, o_processOrder = True,
                    o_shop = Some 200, o_user = Some 100\<rparr>"

definition ex_cartItem :: "ident \<Rightarrow> ident \<Rightarrow> ident \<Rightarrow> string \<Rightarrow> string \<Rightarrow> string \<Rightarrow> CartItem" where
  "ex_cartItem i orderId channelId url purchaseId st =
     \<lparr>ci_id = i, ci_name = ''item'', ci_image = [], ci_price = ''10'', ci_quantity = 1,
      ci_productId = ''p1'', ci_variantId = ''v1'', ci_sku = [], ci_lineItemId = [],
      ci_url = url, ci_error = [], ci_purchaseId = purchaseId, ci_status = st,
      ci_order = Some orderId, ci_channel = Some channelId, ci_user = Some 100\<rparr>"

definition ex_channel :: "ident \<Rightarrow> Channel" where
  "ex_channel i = \<lparr>ch_id = i, ch_domain = ''target.example'', ch_accessToken = ''t'',
                   ch_platform = Some \<lparr>cp_createPurchaseFunction = ''openfront'',
                                        cp_getProductFunction = ''openfront''\<rparr>\<rparr>"

definition ex_shop :: "string \<Rightarrow> Shop" where
  "ex_shop mode = \<lparr>sh_id = 200, sh_domain = ''shop.example'', sh_linkMode = mode,
                   sh_platform = Some \<lparr>sp_addCartToPlatformOrderFunction = ''openfront'',
                                        sp_addTrackingFunction = ''openfront''\<rparr>\<rparr>"

text \<open>
  The same shop when its platform names an endpoint for the add-to-platform-order
  function.
\<close>

definition ex_endpoint_shop :: Shop where
  "ex_endpoint_shop =
     (ex_shop ''sequential'')\<lparr>sh_platform :=
        Some \<lparr>sp_addCartToPlatformOrderFunction = ''https://shop.example/add-cart'',
              sp_addTrackingFunction = ''openfront''\<rparr>\<rparr>"

text \<open>
  An adapter set whose create-purchase call succeeds and whose add-to-platform-order
  endpoint answers with a failure, and one whose create-purchase response is empty.
\<close>

definition ex_adapters :: adapters where
  "ex_adapters =
     \<lparr>createPurchaseFunction =
        (\<lambda>n ch items. Returned \<lparr>res_error = None, res_purchaseId = Some ''P1'',
                                 res_url = Some ''https://target.example/orders/P1''\<rparr>),
      addCartToPlatformOrderFunction = (\<lambda>n r items. Failed ''HTTP request failed''),
      addTrackingFunction = (\<lambda>n r company number. Done),
      getProductFunction =
        (\<lambda>ch p v. ProductReturned (Some \<lparr>p_price = ''10'', p_image = [], p_title = ''Product''\<rparr>))\<rparr>"

definition ex_adapters_empty :: adapters where
  "ex_adapters_empty =
     ex_adapters\<lparr>createPurchaseFunction :=
        (\<lambda>n ch items. Returned \<lparr>res_error = None, res_purchaseId = None, res_url = None\<rparr>)\<rparr>"

text \<open>Order 1 with one unplaced cart item (11) on channel 5.\<close>

definition ex_unplaced :: db where
  "ex_unplaced = ex_db\<lparr>orders := [ex_order 1 ''PENDING''],
                        cartItems := [ex_cartItem 11 1 5 [] [] ''PENDING''],
                        channels := [ex_channel 5], shops := [ex_shop ''sequential'']\<rparr>"

text \<open>The same store when the shop's platform names an endpoint.\<close>

definition ex_unplaced_endpoint :: db where
  "ex_unplaced_endpoint = ex_unplaced\<lparr>shops := [ex_endpoint_shop]\<rparr>"

text \<open>Order 1 with a placed cart item (10) and an unplaced one (11), both on channel 5.\<close>

definition ex_half_placed :: db where
  "ex_half_placed = ex_db\<lparr>orders := [ex_order 1 ''PENDING''],
                        cartItems := [ex_cartItem 10 1 5 ''https://target.example/orders/P0'' ''P0'' ''PENDING'',
                                      ex_cartItem 11 1 5 [] [] ''PENDING''],
                        channels := [ex_channel 5], shops := [ex_shop ''sequential'']\<rparr>"

text \<open>Order 1 without cart items.\<close>

definition ex_no_items :: db where
  "ex_no_items = ex_db\<lparr>orders := [ex_order 1 ''PENDING''],
                        channels := [ex_channel 5], shops := [ex_shop ''sequential'']\<rparr>"

text \<open>
  Order 1 in AWAITING with a placed cart item (10) and a cancelled one (11); tracking
  detail 50 belongs to cart item 10.
\<close>

definition ex_tracked :: db where
  "ex_tracked = ex_db\<lparr>orders := [ex_order 1 ''AWAITING''],
                        cartItems := [ex_cartItem 10 1 5 ''https://target.example/orders/P0'' ''P0'' ''PENDING'',
                                      ex_cartItem 11 1 5 [] [] ''CANCELLED''],
                        channels := [ex_channel 5], shops := [ex_shop ''sequential''],
                        trackingDetails := [\<lparr>td_id = 50, td_trackingCompany = ''UPS'',
                                              td_trackingNumber = ''1Z999'', td_purchaseId = ''P0'',
                                              td_cartItems = [10]\<rparr>]\<rparr>"

definition ex_lineItem :: "ident \<Rightarrow> string \<Rightarrow> string \<Rightarrow> LineItem" where
  "ex_lineItem i productId variantId =
     \<lparr>li_id = i, li_name = ''item'', li_image = [], li_price = Number 10 0, li_quantity = 1,
      li_productId = productId, li_variantId = variantId, li_sku = [], li_lineItemId = [],
      li_order = Some 1\<rparr>"

definition ex_link :: "ident \<Rightarrow> int \<Rightarrow> ident \<Rightarrow> Link" where
  "ex_link i rank channelId =
     \<lparr>l_id = i, l_rank = rank, l_shop = Some 200, l_channel = Some channelId, l_user = Some 100\<rparr>"

text \<open>
  Order 1 with two line items on a sequential shop whose links, in store order, are link
  31 (rank 3, channel 6) and link 32 (rank 1, channel 5).
\<close>

definition ex_linked :: db where
  "ex_linked = ex_db\<lparr>orders := [ex_order 1 ''PENDING''],
                      lineItems := [ex_lineItem 21 ''p1'' ''v1'', ex_lineItem 22 ''p2'' ''v2''],
                      channels := [ex_channel 5, ex_channel 6], shops := [ex_shop ''sequential''],
                      links := [ex_link 31 3 6, ex_link 32 1 5]\<rparr>"

text \<open>Shop 200 with links of rank 1 and 3: the link of rank 2 was deleted.\<close>

definition ex_links_gap :: db where
  "ex_links_gap = ex_db\<lparr>shops := [ex_shop ''sequential''], channels := [ex_channel 5],
                         links := [ex_link 31 1 5, ex_link 33 3 5]\<rparr>"

text \<open>Shop 200 with links of rank 1 and 2.\<close>

definition ex_links_two :: db where
  "ex_links_two = ex_db\<lparr>shops := [ex_shop ''sequential''], channels := [ex_channel 5],
                         links := [ex_link 31 1 5, ex_link 32 2 5]\<rparr>"

definition ex_linkData :: LinkData where
  "ex_linkData = \<lparr>ld_rank = None, ld_shop = Some 200, ld_channel = Some 5, ld_user = Some 100\<rparr>"

text \<open>
  Order 1 with line items (p1, v1, 1) and (p2, v2, 1). The user's only match (61) maps the
  ShopItem (p1, v1, 1) to one ChannelItem on channel 5; nothing matches (p2, v2, 1).
\<close>

definition ex_shopItem :: "ident \<Rightarrow> string \<Rightarrow> string \<Rightarrow> ident \<Rightarrow> ShopItem" where
  "ex_shopItem i productId variantId shopId =
     \<lparr>si_id = i, si_productId = productId, si_variantId = variantId, si_quantity = 1,
      si_shop = Some shopId, si_user = Some 100\<rparr>"

definition ex_channelItem :: "ident \<Rightarrow> ChannelItem" where
  "ex_channelItem i =
     \<lparr>chi_id = i, chi_productId = ''cp1'', chi_variantId = ''cv1'', chi_quantity = 1,
      chi_price = ''10'', chi_channel = Some 5, chi_user = Some 100\<rparr>"

definition ex_partial :: db where
  "ex_partial = ex_db\<lparr>orders := [ex_order 1 ''PENDING''],
                       lineItems := [ex_lineItem 21 ''p1'' ''v1'', ex_lineItem 22 ''p2'' ''v2''],
                       channels := [ex_channel 5], shops := [ex_shop ''sequential''],
                       shopItems := [ex_shopItem 41 ''p1'' ''v1'' 200],
                       channelItems := [ex_channelItem 51],
                       matches := [\<lparr>m_id = 61, m_input = [41], m_output = [51], m_user = Some 100\<rparr>]\<rparr>"

text \<open>
  A store with two matches of user 100: match 61 without input ShopItems and match 62 with
  the single input ShopItem 41.
\<close>

definition ex_matches :: db where
  "ex_matches = ex_partial\<lparr>matches :=
      [\<lparr>m_id = 61, m_input = [], m_output = [51], m_user = Some 100\<rparr>,
       \<lparr>m_id = 62, m_input = [41], m_output = [51], m_user = Some 100\<rparr>]\<rparr>"

text \<open>Match data that connects the given ShopItems and ChannelItem 51.\<close>

definition ex_matchData :: "ident list \<Rightarrow> MatchData" where
  "ex_matchData ids =
     \<lparr>md_input = Some \<lparr>in_connect = Some ids, in_create = None, in_disconnect = None\<rparr>,
      md_output = Some \<lparr>out_connect = Some [51], out_create = None, out_disconnect = None\<rparr>,
      md_user = None\<rparr>"

text \<open>
  Order 1 of shop 200 with the single line item (p1, v1, 1) and one cart item on channel
  5. User 100 has that tuple as ShopItem 41 of shop 201 and as ShopItem 42 of shop 200,
  and a match on each (61 and 62).
\<close>

definition ex_two_shops :: db where
  "ex_two_shops = ex_db\<lparr>orders := [ex_order 1 ''PENDING''],
                         lineItems := [ex_lineItem 21 ''p1'' ''v1''],
                         cartItems := [ex_cartItem 11 1 5 [] [] ''PENDING''],
                         channels := [ex_channel 5], shops := [ex_shop ''sequential''],
                         shopItems := [ex_shopItem 41 ''p1'' ''v1'' 201, ex_shopItem 42 ''p1'' ''v1'' 200],
                         channelItems := [ex_channelItem 51],
                         matches := [\<lparr>m_id = 61, m_input = [41], m_output = [51], m_user = Some 100\<rparr>,
                                     \<lparr>m_id = 62, m_input = [42], m_output = [51], m_user = Some 100\<rparr>]\<rparr>"

text \<open>The same order when match 62 on ShopItem 42 is the user's only match.\<close>

definition ex_one_match :: db where
  "ex_one_match = ex_two_shops\<lparr>shopItems := [ex_shopItem 42 ''p1'' ''v1'' 200],
      matches := [\<lparr>m_id = 62, m_input = [42], m_output = [51], m_user = Some 100\<rparr>]\<rparr>"

section \<open>Facts about the store operations\<close>

lemma find_distinct_key:
  "distinct (map f xs) \<Longrightarrow> c \<in> set xs \<Longrightarrow> find (\<lambda>x. f x = f c) xs = Some c"
  by (induction xs) (auto simp: image_iff)

lemma find_map_update:
  assumes "\<And>r. o_id (f r) = o_id r"
  shows "find (\<lambda>r. o_id r = i) (map (\<lambda>r. if o_id r = i then f r else r) xs)
         = map_option f (find (\<lambda>r. o_id r = i) xs)"
  by (induction xs) (auto simp: assms)


lemma Order_updateOne_found:
  assumes "Order_findOne i s = Some cur" and "\<And>r. o_id (f r) = o_id r"
  shows "fst (Order_updateOne i f s) = Inr (f cur)"
    and "Order_findOne i (snd (Order_updateOne i f s)) = Some (f cur)"
    and "cartItems (snd (Order_updateOne i f s)) = cartItems s"
    and "shops (snd (Order_updateOne i f s)) = shops s"
    and "platformOrderCalls (snd (Order_updateOne i f s)) = platformOrderCalls s"
  using assms
  by (simp_all add: Order_updateOne_def Order_findOne_def find_map_update)

lemma Order_updateOne_other:
  "Order_updateOne i f s = (r, s') \<Longrightarrow>
     cartItems s' = cartItems s \<and> purchaseCalls s' = purchaseCalls s
     \<and> platformOrderCalls s' = platformOrderCalls s \<and> shops s' = shops s
     \<and> channels s' = channels s \<and> console s' = console s \<and> lineItems s' = lineItems s
     \<and> links s' = links s \<and> matches s' = matches s \<and> shopItems s' = shopItems s
     \<and> channelItems s' = channelItems s \<and> trackingDetails s' = trackingDetails s
     \<and> nextId s' = nextId s"
  by (auto simp: Order_updateOne_def split: option.splits)

lemma cartCount_cong: "cartItems s' = cartItems s \<Longrightarrow> cartCount oid s' = cartCount oid s"
  by (simp add: cartCount_def)

lemma Order_shop_cong:
  "shops s' = shops s \<Longrightarrow> o_shop r' = o_shop r \<Longrightarrow> Order_shop r' s' = Order_shop r s"
  by (simp add: Order_shop_def split: option.split)

section \<open>What the placement pipeline leaves alone\<close>

lemma updateCartItems_cartItems:
  "cartItems (updateCartItems items u e p s) =
     map (\<lambda>c. if ci_id c \<in> ci_id ` set items
               then c\<lparr>ci_url := u, ci_error := e, ci_purchaseId := p\<rparr> else c)
         (cartItems s)"
  by (induction items arbitrary: s) (auto simp: CartItem_updateOne_def)

lemma updateCartItems_other:
  "orders (updateCartItems items u e p s) = orders s"
  "purchaseCalls (updateCartItems items u e p s) = purchaseCalls s"
  "platformOrderCalls (updateCartItems items u e p s) = platformOrderCalls s"
  "shops (updateCartItems items u e p s) = shops s"
  "channels (updateCartItems items u e p s) = channels s"
  "console (updateCartItems items u e p s) = console s"
  by (induction items arbitrary: s) (auto simp: CartItem_updateOne_def)

lemma updateCartItems_routing:
  "map routingOf (cartItems (updateCartItems items u e p s)) = map routingOf (cartItems s)"
  by (simp add: updateCartItems_cartItems routingOf_def comp_def if_distrib cong: if_cong)

lemma updateCartItems_keeps:
  "c \<in> set (cartItems s) \<Longrightarrow> ci_id c \<notin> ci_id ` set items
     \<Longrightarrow> c \<in> set (cartItems (updateCartItems items u e p s))"
  by (force simp: updateCartItems_cartItems)

lemma attemptPurchase_other:
  "orders (attemptPurchase A ch items s) = orders s"
  "purchaseCalls (attemptPurchase A ch items s) = purchaseCalls s @ [(ch_id ch, map ci_id items)]"
  "platformOrderCalls (attemptPurchase A ch items s) = platformOrderCalls s"
  "shops (attemptPurchase A ch items s) = shops s"
  "channels (attemptPurchase A ch items s) = channels s"
  "console (attemptPurchase A ch items s) = console s"
  by (simp_all add: attemptPurchase_def Let_def updateCartItems_other
        split: purchase_result.split)

lemma attemptPurchase_routing:
  "map routingOf (cartItems (attemptPurchase A ch items s)) = map routingOf (cartItems s)"
  by (simp add: attemptPurchase_def Let_def updateCartItems_routing split: purchase_result.split)

lemma attemptPurchase_keeps:
  "c \<in> set (cartItems s) \<Longrightarrow> ci_id c \<notin> ci_id ` set items
     \<Longrightarrow> c \<in> set (cartItems (attemptPurchase A ch items s))"
  by (simp add: attemptPurchase_def Let_def updateCartItems_keeps split: purchase_result.split)

lemma addCartToPlatformOrder_other:
  "addCartToPlatformOrder A pf u items s = (r, s1) \<Longrightarrow>
     cartItems s1 = cartItems s \<and> orders s1 = orders s \<and> purchaseCalls s1 = purchaseCalls s
     \<and> shops s1 = shops s \<and> channels s1 = channels s \<and> console s1 = console s"
  by (auto simp: addCartToPlatformOrder_def Let_def split: option.splits if_splits)

lemma addCartBestEffort_other:
  "cartItems (addCartBestEffort A u s) = cartItems s"
  "orders (addCartBestEffort A u s) = orders s"
  "purchaseCalls (addCartBestEffort A u s) = purchaseCalls s"
  "shops (addCartBestEffort A u s) = shops s"
  "channels (addCartBestEffort A u s) = channels s"
  by (auto simp: addCartBestEffort_def dest!: addCartToPlatformOrder_other
        split: option.split prod.split call_result.split)

lemma addCartBestEffort_endpoint:
  assumes "addCartEndpoint u s"
  shows "platformOrderCalls (addCartBestEffort A u s)
           = platformOrderCalls s @ [(o_id u, map ci_id (cartItemsOfOrder (o_id u) s))]"
    and "console (addCartBestEffort A u s) =
           (case addCartToPlatformOrderFunction A (length (platformOrderCalls s)) u
                   (cartItemsOfOrder (o_id u) s) of
              Done \<Rightarrow> console s
            | Failed msg \<Rightarrow> console s @ [addCartWarning msg])"
  using assms
  by (auto simp: addCartEndpoint_def addCartBestEffort_def addCartToPlatformOrder_def Let_def
        split: option.splits call_result.splits)

lemma addCartBestEffort_internal:
  assumes "\<not> addCartEndpoint u s"
  shows "platformOrderCalls (addCartBestEffort A u s) = platformOrderCalls s"
    and "\<exists>msg. console (addCartBestEffort A u s) = console s @ [addCartWarning msg]"
  using assms
  by (auto simp: addCartEndpoint_def addCartBestEffort_def addCartToPlatformOrder_def Let_def
        split: option.splits)

lemma addCartEndpoint_cong:
  "o_shop r' = o_shop r \<Longrightarrow> shops s' = shops s \<Longrightarrow> addCartEndpoint r' s' = addCartEndpoint r s"
  by (simp add: addCartEndpoint_def Order_shop_cong[of s' s r' r])

lemma addCartWarning_prefix:
  "take (length (addCartWarning [])) (addCartWarning msg) = addCartWarning []"
  by (simp add: addCartWarning_def)

lemma addCartBestEffort_outcome:
  "addCartOutcome A u s (addCartBestEffort A u s)"
proof (cases "addCartEndpoint u s")
  case True
  note e = addCartBestEffort_endpoint[OF True, of A]
  show ?thesis using True e
    by (auto simp: addCartOutcome_def cartItemsOfOrder_def addCartBestEffort_other
          split: call_result.splits)
next
  case False
  from addCartBestEffort_internal[OF False, of A] obtain msg where
    "platformOrderCalls (addCartBestEffort A u s) = platformOrderCalls s"
    "console (addCartBestEffort A u s) = console s @ [addCartWarning msg]" by blast
  then show ?thesis using False by (simp add: addCartOutcome_def addCartWarning_prefix)
qed

lemma addCartBestEffort_grows:
  "length (platformOrderCalls s) \<le> length (platformOrderCalls (addCartBestEffort A u s))"
  "length (console s) \<le> length (console (addCartBestEffort A u s))"
  "\<not> addCartEndpoint u s \<Longrightarrow> platformOrderCalls (addCartBestEffort A u s) = platformOrderCalls s"
proof -
  show "length (platformOrderCalls s) \<le> length (platformOrderCalls (addCartBestEffort A u s))"
    using addCartBestEffort_endpoint(1)[of u s A] addCartBestEffort_internal(1)[of u s A]
    by (cases "addCartEndpoint u s") simp_all
  show "length (console s) \<le> length (console (addCartBestEffort A u s))"
    using addCartBestEffort_endpoint(2)[of u s A] addCartBestEffort_internal(2)[of u s A]
    by (cases "addCartEndpoint u s") (auto split: call_result.splits)
  show "\<not> addCartEndpoint u s \<Longrightarrow> platformOrderCalls (addCartBestEffort A u s) = platformOrderCalls s"
    by (rule addCartBestEffort_internal(1))
qed

lemma addCartOutcome_later:
  assumes "addCartOutcome A u s1 s'"
    and "addCartEndpoint u s1 = addCartEndpoint u s"
    and "length (platformOrderCalls s) \<le> length (platformOrderCalls s1)"
    and "length (console s) \<le> length (console s1)"
    and "\<not> addCartEndpoint u s \<Longrightarrow> platformOrderCalls s1 = platformOrderCalls s"
  shows "addCartOutcome A u s s'"
  using assms by (auto simp: addCartOutcome_def split: call_result.splits if_splits)

lemma routing_ids:
  "map routingOf xs = map routingOf ys \<Longrightarrow> map ci_id xs = map ci_id ys"
proof -
  assume "map routingOf xs = map routingOf ys"
  then have "map ci_id (map routingOf xs) = map ci_id (map routingOf ys)" by simp
  then show ?thesis by (simp add: routingOf_def comp_def)
qed

lemma placeTarget_frame:
  assumes "placeTarget A oid order t s = (r, s')"
  shows "map routingOf (cartItems s') = map routingOf (cartItems s)"
    and "c \<in> set (cartItems s) \<Longrightarrow> ci_id c \<notin> ci_id ` set (snd t) \<Longrightarrow> c \<in> set (cartItems s')"
    and "purchaseCalls s' = purchaseCalls s
         \<or> purchaseCalls s' = purchaseCalls s @ [(ch_id (fst t), map ci_id (snd t))]"
  using assms
  by (auto simp: placeTarget_def Let_def attemptPurchase_routing attemptPurchase_keeps
        attemptPurchase_other addCartBestEffort_other
        dest!: Order_updateOne_other split: option.splits if_splits prod.splits sum.splits)

lemma placeTargets_routing:
  "placeTargets A oid order ts processed s = (r, s')
     \<Longrightarrow> map routingOf (cartItems s') = map routingOf (cartItems s)"
proof (induction ts arbitrary: processed s)
  case Nil
  then show ?case by simp
next
  case (Cons t ts)
  obtain r1 s1 where step: "placeTarget A oid order t s = (r1, s1)"
    by (cases "placeTarget A oid order t s") auto
  note f1 = placeTarget_frame(1)[OF step]
  show ?case
  proof (cases r1)
    case (Inl e)
    with step Cons.prems have "s' = s1" by simp
    with f1 show ?thesis by simp
  next
    case (Inr u)
    with step Cons.prems have "placeTargets A oid order ts (processed @ [u]) s1 = (r, s')" by simp
    from Cons.IH[OF this] f1 show ?thesis by simp
  qed
qed

lemma placeOrder_routing:
  "placeOrder A oid processed s = (r, s')
     \<Longrightarrow> map routingOf (cartItems s') = map routingOf (cartItems s)"
  by (auto simp: placeOrder_def split: option.splits dest: placeTargets_routing)

lemma placeOrdersFrom_routing:
  "placeOrdersFrom A ids processed s = (r, s')
     \<Longrightarrow> map routingOf (cartItems s') = map routingOf (cartItems s)"
proof (induction ids arbitrary: processed s)
  case Nil
  then show ?case by simp
next
  case (Cons oid ids)
  obtain r1 s1 where step: "placeOrder A oid processed s = (r1, s1)"
    by (cases "placeOrder A oid processed s") auto
  note f1 = placeOrder_routing[OF step]
  show ?case
  proof (cases r1)
    case (Inl e)
    with step Cons.prems have "s' = s1" by simp
    with f1 show ?thesis by simp
  next
    case (Inr p)
    with step Cons.prems have "placeOrdersFrom A ids p s1 = (r, s')" by simp
    from Cons.IH[OF this] f1 show ?thesis by simp
  qed
qed

lemma placeMultipleOrders_routing:
  "placeMultipleOrders A ids s = (r, s')
     \<Longrightarrow> map routingOf (cartItems s') = map routingOf (cartItems s)"
  by (simp add: placeMultipleOrders_def placeOrdersFrom_routing)

lemma placeTargets_frame:
  assumes "placeTargets A oid order ts processed s = (r, s')"
    and "\<forall>t \<in> set ts. ci_id c \<notin> ci_id ` set (snd t)"
    and "c \<in> set (cartItems s)"
  shows "c \<in> set (cartItems s')
         \<and> (\<exists>new. purchaseCalls s' = purchaseCalls s @ new
                \<and> (\<forall>call \<in> set new. ci_id c \<notin> set (snd call)))"
  using assms
proof (induction ts arbitrary: processed s)
  case Nil
  then show ?case by simp
next
  case (Cons t ts)
  obtain r1 s1 where step: "placeTarget A oid order t s = (r1, s1)"
    by (cases "placeTarget A oid order t s") auto
  have keep: "c \<in> set (cartItems s1)"
    using placeTarget_frame(2)[OF step] Cons.prems by simp
  have calls: "\<exists>new. purchaseCalls s1 = purchaseCalls s @ new
                 \<and> (\<forall>call \<in> set new. ci_id c \<notin> set (snd call))"
  proof -
    from placeTarget_frame(3)[OF step]
    consider "purchaseCalls s1 = purchaseCalls s"
      | "purchaseCalls s1 = purchaseCalls s @ [(ch_id (fst t), map ci_id (snd t))]" by blast
    then show ?thesis
    proof cases
      case 1 then show ?thesis by simp
    next
      case 2
      moreover have "ci_id c \<notin> set (map ci_id (snd t))" using Cons.prems(2) by simp
      ultimately show ?thesis by simp
    qed
  qed
  show ?case
  proof (cases r1)
    case (Inl e)
    with step Cons.prems(1) have "s' = s1" by simp
    with keep calls show ?thesis by simp
  next
    case (Inr u)
    with step Cons.prems(1) have rest: "placeTargets A oid order ts (processed @ [u]) s1 = (r, s')"
      by simp
    from Cons.IH[OF rest _ keep] Cons.prems(2)
    have ih: "c \<in> set (cartItems s')
         \<and> (\<exists>new. purchaseCalls s' = purchaseCalls s1 @ new
                \<and> (\<forall>call \<in> set new. ci_id c \<notin> set (snd call)))"
      by simp
    then obtain new2 where n2: "purchaseCalls s' = purchaseCalls s1 @ new2"
      "\<forall>call \<in> set new2. ci_id c \<notin> set (snd call)" by blast
    from calls obtain new1 where n1: "purchaseCalls s1 = purchaseCalls s @ new1"
      "\<forall>call \<in> set new1. ci_id c \<notin> set (snd call)" by blast
    have "purchaseCalls s' = purchaseCalls s @ (new1 @ new2)
          \<and> (\<forall>call \<in> set (new1 @ new2). ci_id c \<notin> set (snd call))" using n1 n2 by auto
    then have "\<exists>new. purchaseCalls s' = purchaseCalls s @ new
          \<and> (\<forall>call \<in> set new. ci_id c \<notin> set (snd call))" by (rule exI)
    then show ?thesis using ih by simp
  qed
qed

text \<open>A cart item with a purchase id or a url is in no target's selection.\<close>

lemma placed_not_selected:
  assumes "distinct (map ci_id (cartItems s))" "c \<in> set (cartItems s)"
    and "ci_purchaseId c \<noteq> [] \<or> ci_url c \<noteq> []"
  shows "\<forall>t \<in> set (filter (\<lambda>t. length (snd t) > 0) (cartChannels oid s)).
           ci_id c \<notin> ci_id ` set (snd t)"
proof -
  have "ci_id c \<notin> ci_id ` set (unplacedOf oid cid s)" for cid
  proof
    assume "ci_id c \<in> ci_id ` set (unplacedOf oid cid s)"
    then obtain x where x: "x \<in> set (cartItems s)" "ci_id x = ci_id c"
      "ci_purchaseId x = []" "ci_url x = []"
      by (auto simp: unplacedOf_def)
    from assms(1) x(1,2) assms(2) have "x = c"
      by (meson distinct_map inj_onD)
    with x assms(3) show False by simp
  qed
  then show ?thesis by (auto simp: cartChannels_def)
qed

lemma placeOrder_frame:
  assumes "placeOrder A oid processed s = (r, s')"
    and "distinct (map ci_id (cartItems s))" "c \<in> set (cartItems s)"
    and "ci_purchaseId c \<noteq> [] \<or> ci_url c \<noteq> []"
  shows "c \<in> set (cartItems s')
         \<and> (\<exists>new. purchaseCalls s' = purchaseCalls s @ new
                \<and> (\<forall>call \<in> set new. ci_id c \<notin> set (snd call)))"
proof (cases "Order_findOne oid s")
  case None
  with assms(1) have "s' = s" by (simp add: placeOrder_def)
  with assms(3) show ?thesis by simp
next
  case (Some order)
  with assms(1) have run: "placeTargets A oid order
      (filter (\<lambda>t. length (snd t) > 0) (cartChannels oid s)) processed s = (r, s')"
    by (simp add: placeOrder_def)
  show ?thesis
    by (rule placeTargets_frame[OF run placed_not_selected[OF assms(2,3,4)] assms(3)])
qed

lemma placeOrdersFrom_frame:
  assumes "placeOrdersFrom A ids processed s = (r, s')"
    and "distinct (map ci_id (cartItems s))" "c \<in> set (cartItems s)"
    and "ci_purchaseId c \<noteq> [] \<or> ci_url c \<noteq> []"
  shows "c \<in> set (cartItems s')
         \<and> (\<exists>new. purchaseCalls s' = purchaseCalls s @ new
                \<and> (\<forall>call \<in> set new. ci_id c \<notin> set (snd call)))"
  using assms
proof (induction ids arbitrary: processed s)
  case Nil
  then show ?case by simp
next
  case (Cons oid ids)
  obtain r1 s1 where step: "placeOrder A oid processed s = (r1, s1)"
    by (cases "placeOrder A oid processed s") auto
  note f1 = placeOrder_frame[OF step Cons.prems(2,3,4)]
  show ?case
  proof (cases r1)
    case (Inl e)
    with step Cons.prems(1) have "s' = s1" by simp
    with f1 show ?thesis by simp
  next
    case (Inr p)
    with step Cons.prems(1) have rest: "placeOrdersFrom A ids p s1 = (r, s')" by simp
    have d1: "distinct (map ci_id (cartItems s1))"
      using routing_ids[OF placeOrder_routing[OF step]] Cons.prems(2) by simp
    have k1: "c \<in> set (cartItems s1)" using f1 by simp
    note ih = Cons.IH[OF rest d1 k1 Cons.prems(4)]
    from ih obtain new2 where n2: "purchaseCalls s' = purchaseCalls s1 @ new2"
      "\<forall>call \<in> set new2. ci_id c \<notin> set (snd call)" by blast
    from f1 obtain new1 where n1: "purchaseCalls s1 = purchaseCalls s @ new1"
      "\<forall>call \<in> set new1. ci_id c \<notin> set (snd call)" by blast
    have "purchaseCalls s' = purchaseCalls s @ (new1 @ new2)
          \<and> (\<forall>call \<in> set (new1 @ new2). ci_id c \<notin> set (snd call))" using n1 n2 by auto
    then have "\<exists>new. purchaseCalls s' = purchaseCalls s @ new
          \<and> (\<forall>call \<in> set new. ci_id c \<notin> set (snd call))" by (rule exI)
    then show ?thesis using ih by simp
  qed
qed

lemmas pipeline_defs = placeMultipleOrders_def placeOrder_def placeTarget_def attemptPurchase_def
  cartChannels_def unplacedOf_def cartCount_def Order_updateOne_def Order_findOne_def
  addCartBestEffort_def addCartToPlatformOrder_def startsWithHttp_def shopModules_def
  addCartWarning_def Order_shop_def cartItemsOfOrder_def CartItem_updateOne_def Let_def
  cancelOrder_def orNonEmpty_def

lemmas ex_defs = ex_db_def ex_order_def ex_cartItem_def ex_channel_def ex_shop_def ex_adapters_def
  ex_endpoint_shop_def ex_unplaced_endpoint_def
  ex_adapters_empty_def ex_unplaced_def ex_half_placed_def ex_no_items_def ex_tracked_def
  ex_linked_def ex_link_def ex_lineItem_def ex_links_gap_def ex_links_two_def ex_linkData_def
  ex_shopItem_def ex_channelItem_def ex_partial_def ex_matches_def
  ex_matchData_def ex_two_shops_def ex_one_match_def

section \<open>Placement and cancelled cart items\<close>

text \<open>
  Claim C2. A cart item whose status is CANCELLED is never handed to the create-purchase
  adapter: after \<^verbatim>\<open>cancelOrder\<close> no later placement run attempts the order's items.

  The selection of \<^verbatim>\<open>placeMultipleOrders\<close> does not look at the status. On the store
  with order 1 and its unplaced cart item 11, cancelling the order sets both to CANCELLED;
  the next placement run still hands item 11 to the create-purchase adapter of channel 5,
  records the purchase on the cancelled item and moves the cancelled order to AWAITING.
\<close>

theorem cancelled_item_still_placed:
  "map o_status (orders (snd (cancelOrder 1 ex_unplaced))) = [''CANCELLED'']
   \<and> map ci_status (cartItems (snd (cancelOrder 1 ex_unplaced))) = [''CANCELLED'']
   \<and> purchaseCalls (snd (placeMultipleOrders ex_adapters [1] (snd (cancelOrder 1 ex_unplaced))))
       = [(5, [11])]
   \<and> map (\<lambda>c. (ci_status c, ci_purchaseId c))
        (cartItems (snd (placeMultipleOrders ex_adapters [1] (snd (cancelOrder 1 ex_unplaced)))))
       = [(''CANCELLED'', ''P1'')]
   \<and> map o_status (orders (snd (placeMultipleOrders ex_adapters [1] (snd (cancelOrder 1 ex_unplaced)))))
       = [''AWAITING'']"
  by (simp add: pipeline_defs ex_defs)

section \<open>Outcome fields after an attempt\<close>

text \<open>
  Claim C3. After \<^verbatim>\<open>placeMultipleOrders\<close> every cart item for which placement was
  attempted has either a purchase id and no error, or no purchase id and an error with the
  \<^verbatim>\<open>ORDER_PLACEMENT_ERROR:\<close> prefix; never both empty.

  The two tests on the adapter's response are independent and there is no branch for a
  response that carries neither an error nor a purchase id. With such a response the
  attempted item 11 of order 1 keeps an empty purchase id and an empty error.
\<close>

theorem attempted_item_both_empty:
  "purchaseCalls (snd (placeMultipleOrders ex_adapters_empty [1] ex_unplaced)) = [(5, [11])]
   \<and> map (\<lambda>c. (ci_id c, ci_purchaseId c, ci_error c))
        (cartItems (snd (placeMultipleOrders ex_adapters_empty [1] ex_unplaced)))
       = [(11, [], [])]"
  by (simp add: pipeline_defs ex_defs)

lemma updated_item:
  assumes "c \<in> set (cartItems (updateCartItems items u e p s))" and "ci_id c \<in> ci_id ` set items"
  shows "ci_url c = u \<and> ci_error c = e \<and> ci_purchaseId c = p"
  using assms by (auto simp: updateCartItems_cartItems split: if_splits)

text \<open>
  For every other outcome of the call (a throw, or a response with an error or a purchase
  id) each cart item handed to the adapter ends with a purchase id and no error, or with
  no purchase id and an error that starts with \<^verbatim>\<open>ORDER_PLACEMENT_ERROR:\<close>.
\<close>

lemma attempt_records_outcome:
  assumes "case createPurchaseFunction A (length (purchaseCalls s)) ch items of
             Threw msg \<Rightarrow> True
           | Returned res \<Rightarrow> truthy (res_error res) \<or> truthy (res_purchaseId res)"
    and "c \<in> set (cartItems (attemptPurchase A ch items s))"
    and "ci_id c \<in> ci_id ` set items"
  shows "(ci_purchaseId c \<noteq> [] \<and> ci_error c = [])
       \<or> (ci_purchaseId c = [] \<and> (\<exists>e. ci_error c = ''ORDER_PLACEMENT_ERROR: '' @ e))"
proof (cases "createPurchaseFunction A (length (purchaseCalls s)) ch items")
  case (Threw msg)
  with assms(2) have "c \<in> set (cartItems (updateCartItems items []
            (''ORDER_PLACEMENT_ERROR: '' @
               orNonEmpty msg ''Error on order placement. Order may have been placed.'') []
            (s\<lparr>purchaseCalls := purchaseCalls s @ [(ch_id ch, map ci_id items)]\<rparr>)))"
    by (simp add: attemptPurchase_def)
  from updated_item[OF this assms(3)] show ?thesis by blast
next
  case (Returned res)
  define s0 where "s0 = s\<lparr>purchaseCalls := purchaseCalls s @ [(ch_id ch, map ci_id items)]\<rparr>"
  show ?thesis
  proof (cases "truthy (res_purchaseId res)")
    case True
    then obtain p where p: "res_purchaseId res = Some p" "p \<noteq> []"
      by (cases "res_purchaseId res") auto
    from assms(2) Returned True obtain s1 where
      "c \<in> set (cartItems (updateCartItems items
                     (case res_url res of Some u \<Rightarrow> u | None \<Rightarrow> []) []
                     (case res_purchaseId res of Some p \<Rightarrow> p | None \<Rightarrow> []) s1))"
      by (auto simp: attemptPurchase_def Let_def split: if_splits)
    from updated_item[OF this assms(3)] p show ?thesis by simp
  next
    case False
    with assms(1) Returned have e: "truthy (res_error res)" by simp
    from assms(2) Returned False e have
      "c \<in> set (cartItems (updateCartItems items []
                  (''ORDER_PLACEMENT_ERROR: '' @ (case res_error res of Some e \<Rightarrow> e | None \<Rightarrow> []))
                  [] s0))"
      by (simp add: attemptPurchase_def Let_def s0_def)
    from updated_item[OF this assms(3)] show ?thesis by blast
  qed
qed

section \<open>Re-entrance of the placement pipeline\<close>

text \<open>
  Claim C4. A run of \<^verbatim>\<open>placeMultipleOrders\<close> issues no create-purchase call for a cart
  item that is already placed (purchase id and url not empty) and leaves that item's row,
  its url, purchase id and error included, as it was. This holds for any run, so also for
  a second run after a first; cart item identifiers are the store's keys, hence distinct.
\<close>

theorem placed_items_untouched:
  assumes "placeMultipleOrders A ids s = (r, s')"
    and "distinct (map ci_id (cartItems s))"
    and "c \<in> set (cartItems s)"
    and "ci_purchaseId c \<noteq> []" and "ci_url c \<noteq> []"
  shows "find (\<lambda>x. ci_id x = ci_id c) (cartItems s') = Some c
         \<and> (\<forall>call \<in> set (drop (length (purchaseCalls s)) (purchaseCalls s')).
               ci_id c \<notin> set (snd call))"
proof -
  from assms(1) have run: "placeOrdersFrom A ids [] s = (r, s')"
    by (simp add: placeMultipleOrders_def)
  from assms(4) have pl: "ci_purchaseId c \<noteq> [] \<or> ci_url c \<noteq> []" by simp
  note f = placeOrdersFrom_frame[OF run assms(2,3) pl]
  have "distinct (map ci_id (cartItems s'))"
    using routing_ids[OF placeOrdersFrom_routing[OF run]] assms(2) by simp
  moreover have "c \<in> set (cartItems s')" using f by simp
  ultimately have "find (\<lambda>x. ci_id x = ci_id c) (cartItems s') = Some c"
    by (rule find_distinct_key)
  moreover from f obtain new where "purchaseCalls s' = purchaseCalls s @ new"
    "\<forall>call \<in> set new. ci_id c \<notin> set (snd call)" by blast
  then have "\<forall>call \<in> set (drop (length (purchaseCalls s)) (purchaseCalls s')).
               ci_id c \<notin> set (snd call)"
    by simp
  ultimately show ?thesis by simp
qed

text \<open>
  The theorem at work on order 1 with the placed item 10 and the unplaced item 11: the
  run calls the adapter once, for item 11 only, and item 10 is found unchanged.
\<close>

theorem placed_items_untouched_witness:
  "distinct (map ci_id (cartItems ex_half_placed))
   \<and> ex_cartItem 10 1 5 ''https://target.example/orders/P0'' ''P0'' ''PENDING''
        \<in> set (cartItems ex_half_placed)
   \<and> find (\<lambda>x. ci_id x = 10) (cartItems (snd (placeMultipleOrders ex_adapters [1] ex_half_placed)))
       = Some (ex_cartItem 10 1 5 ''https://target.example/orders/P0'' ''P0'' ''PENDING'')
   \<and> list_all (\<lambda>call. 10 \<notin> set (snd call))
        (drop (length (purchaseCalls ex_half_placed))
           (purchaseCalls (snd (placeMultipleOrders ex_adapters [1] ex_half_placed))))
   \<and> purchaseCalls (snd (placeMultipleOrders ex_adapters [1] ex_half_placed)) = [(5, [11])]"
proof -
  let ?c = "ex_cartItem 10 1 5 ''https://target.example/orders/P0'' ''P0'' ''PENDING''"
  have h1: "distinct (map ci_id (cartItems ex_half_placed))" by (simp add: ex_defs)
  have h2: "?c \<in> set (cartItems ex_half_placed)" by (simp add: ex_defs)
  have h3: "ci_purchaseId ?c \<noteq> []" and h4: "ci_url ?c \<noteq> []" by (simp_all add: ex_defs)
  have id: "ci_id ?c = 10" by (simp add: ex_defs)
  have calls: "purchaseCalls (snd (placeMultipleOrders ex_adapters [1] ex_half_placed)) = [(5, [11])]"
    by (simp add: pipeline_defs ex_defs)
  from placed_items_untouched[OF prod.collapse[symmetric] h1 h2 h3 h4, of ex_adapters "[1]"]
  show ?thesis using h1 h2 id calls by (simp add: list_all_iff)
qed

section \<open>Order status after placement\<close>

lemma placeTarget_status:
  assumes found: "Order_findOne oid s = Some cur"
    and user: "o_user order = Some u"
    and plat: "ch_platform (fst t) \<noteq> None"
  shows "\<exists>upd s'. placeTarget A oid order t s = (Inr upd, s')
          \<and> Order_findOne oid s' =
              Some (cur\<lparr>o_status := (if cartCount oid s' = 0 then ''AWAITING'' else ''PENDING'')\<rparr>)
          \<and> shops s' = shops s
          \<and> length (platformOrderCalls s) \<le> length (platformOrderCalls s')
          \<and> length (console s) \<le> length (console s')
          \<and> (\<not> addCartEndpoint cur s \<longrightarrow> platformOrderCalls s' = platformOrderCalls s)
          \<and> (cartCount oid s' = 0 \<longrightarrow> addCartOutcome A (cur\<lparr>o_status := ''AWAITING''\<rparr>) s s')"
proof -
  define s1 where "s1 = attemptPurchase A (fst t) (snd t) s"
  have f1: "Order_findOne oid s1 = Some cur"
    using found by (simp add: s1_def Order_findOne_def attemptPurchase_other)
  have sh1: "shops s1 = shops s" and pc1: "platformOrderCalls s1 = platformOrderCalls s"
    and co1: "console s1 = console s"
    by (simp_all add: s1_def attemptPurchase_other)
  obtain p where p: "ch_platform (fst t) = Some p" using plat by auto
  show ?thesis
  proof (cases "cartCount oid s1 = 0")
    case True
    define s2 where "s2 = snd (Order_updateOne oid (\<lambda>r. r\<lparr>o_status := ''AWAITING''\<rparr>) s1)"
    define upd where "upd = cur\<lparr>o_status := ''AWAITING''\<rparr>"
    have u: "Order_updateOne oid (\<lambda>r. r\<lparr>o_status := ''AWAITING''\<rparr>) s1 = (Inr upd, s2)"
      using Order_updateOne_found(1)[OF f1, of "\<lambda>r. r\<lparr>o_status := ''AWAITING''\<rparr>"]
      by (simp add: s2_def upd_def prod_eq_iff)
    have f2: "Order_findOne oid s2 = Some upd"
      using Order_updateOne_found(2)[OF f1, of "\<lambda>r. r\<lparr>o_status := ''AWAITING''\<rparr>"]
      by (simp add: s2_def upd_def)
    have c2: "cartItems s2 = cartItems s1" and sh2: "shops s2 = shops s1"
      and pc2: "platformOrderCalls s2 = platformOrderCalls s1" and co2: "console s2 = console s1"
      using Order_updateOne_other[OF u] by simp_all
    define s3 where "s3 = addCartBestEffort A upd s2"
    have res: "placeTarget A oid order t s = (Inr upd, s3)"
      using True u user p by (simp add: placeTarget_def s1_def[symmetric] s3_def)
    have c3: "cartCount oid s3 = 0"
      using True c2 by (simp add: s3_def cartCount_def addCartBestEffort_other)
    have f3: "Order_findOne oid s3 = Some upd"
      using f2 by (simp add: s3_def Order_findOne_def addCartBestEffort_other)
    have sh3: "shops s3 = shops s" using sh1 sh2 by (simp add: s3_def addCartBestEffort_other)
    have ep: "addCartEndpoint upd s2 = addCartEndpoint upd s"
      by (rule addCartEndpoint_cong) (simp_all add: sh2 sh1)
    have epc: "addCartEndpoint upd s = addCartEndpoint cur s"
      by (rule addCartEndpoint_cong) (simp_all add: upd_def)
    have g1: "length (platformOrderCalls s) \<le> length (platformOrderCalls s3)"
      using addCartBestEffort_grows(1)[of s2 A upd] pc1 pc2 by (simp add: s3_def)
    have g2: "length (console s) \<le> length (console s3)"
      using addCartBestEffort_grows(2)[of s2 A upd] co1 co2 by (simp add: s3_def)
    have g3: "\<not> addCartEndpoint cur s \<longrightarrow> platformOrderCalls s3 = platformOrderCalls s"
      using addCartBestEffort_grows(3)[of upd s2 A] ep epc pc1 pc2 by (simp add: s3_def)
    have out2: "addCartOutcome A upd s2 s3"
      unfolding s3_def by (rule addCartBestEffort_outcome)
    have out: "addCartOutcome A upd s s3"
      by (rule addCartOutcome_later[OF out2 ep]) (simp_all add: pc1 pc2 co1 co2)
    have st: "Order_findOne oid s3 =
        Some (cur\<lparr>o_status := (if cartCount oid s3 = 0 then ''AWAITING'' else ''PENDING'')\<rparr>)"
      using f3 c3 by (simp add: upd_def)
    have out': "cartCount oid s3 = 0 \<longrightarrow> addCartOutcome A (cur\<lparr>o_status := ''AWAITING''\<rparr>) s s3"
      using out by (simp add: upd_def)
    show ?thesis
      by (rule exI[of _ upd], rule exI[of _ s3]) (intro conjI res st sh3 g1 g2 g3 out')
  next
    case False
    define s2 where "s2 = snd (Order_updateOne oid (\<lambda>r. r\<lparr>o_status := ''PENDING''\<rparr>) s1)"
    define upd where "upd = cur\<lparr>o_status := ''PENDING''\<rparr>"
    have u: "Order_updateOne oid (\<lambda>r. r\<lparr>o_status := ''PENDING''\<rparr>) s1 = (Inr upd, s2)"
      using Order_updateOne_found(1)[OF f1, of "\<lambda>r. r\<lparr>o_status := ''PENDING''\<rparr>"]
      by (simp add: s2_def upd_def prod_eq_iff)
    have f2: "Order_findOne oid s2 = Some upd"
      using Order_updateOne_found(2)[OF f1, of "\<lambda>r. r\<lparr>o_status := ''PENDING''\<rparr>"]
      by (simp add: s2_def upd_def)
    have c2: "cartItems s2 = cartItems s1" and sh2: "shops s2 = shops s1"
      and pc2: "platformOrderCalls s2 = platformOrderCalls s1" and co2: "console s2 = console s1"
      using Order_updateOne_other[OF u] by simp_all
    have res: "placeTarget A oid order t s = (Inr upd, s2)"
      using False u user p by (simp add: placeTarget_def s1_def[symmetric])
    have c3: "cartCount oid s2 \<noteq> 0" using False c2 by (simp add: cartCount_def)
    show ?thesis using res c3 f2 sh1 sh2 pc1 pc2 co1 co2 by (simp add: upd_def)
  qed
qed

lemma placeTargets_status:
  assumes "Order_findOne oid s = Some cur"
    and "o_user order = Some u"
    and "\<forall>t \<in> set ts. ch_platform (fst t) \<noteq> None"
    and "ts \<noteq> []"
  shows "\<exists>p s'. placeTargets A oid order ts processed s = (Inr p, s')
          \<and> Order_findOne oid s' =
              Some (cur\<lparr>o_status := (if cartCount oid s' = 0 then ''AWAITING'' else ''PENDING'')\<rparr>)
          \<and> shops s' = shops s
          \<and> length (platformOrderCalls s) \<le> length (platformOrderCalls s')
          \<and> length (console s) \<le> length (console s')
          \<and> (\<not> addCartEndpoint cur s \<longrightarrow> platformOrderCalls s' = platformOrderCalls s)
          \<and> (cartCount oid s' = 0 \<longrightarrow> addCartOutcome A (cur\<lparr>o_status := ''AWAITING''\<rparr>) s s')"
  using assms
proof (induction ts arbitrary: processed s cur)
  case Nil
  then show ?case by simp
next
  case (Cons t ts)
  from Cons.prems(3) have plat: "ch_platform (fst t) \<noteq> None" by simp
  from placeTarget_status[OF Cons.prems(1,2) plat, of A]
  obtain upd s1 where step: "placeTarget A oid order t s = (Inr upd, s1)"
    and f1: "Order_findOne oid s1 =
              Some (cur\<lparr>o_status := (if cartCount oid s1 = 0 then ''AWAITING'' else ''PENDING'')\<rparr>)"
    and sh1: "shops s1 = shops s"
    and g1: "length (platformOrderCalls s) \<le> length (platformOrderCalls s1)"
            "length (console s) \<le> length (console s1)"
            "\<not> addCartEndpoint cur s \<longrightarrow> platformOrderCalls s1 = platformOrderCalls s"
    and o1: "cartCount oid s1 = 0 \<longrightarrow> addCartOutcome A (cur\<lparr>o_status := ''AWAITING''\<rparr>) s s1"
    by (elim exE conjE) (rule that)
  show ?case
  proof (cases "ts = []")
    case True
    then have r: "placeTargets A oid order (t # ts) processed s = (Inr (processed @ [upd]), s1)"
      using step by simp
    show ?thesis
      by (rule exI[of _ "processed @ [upd]"], rule exI[of _ s1]) (intro conjI r f1 sh1 g1 o1)
  next
    case False
    define cur1 where
      "cur1 = cur\<lparr>o_status := (if cartCount oid s1 = 0 then ''AWAITING'' else ''PENDING'')\<rparr>"
    have f1': "Order_findOne oid s1 = Some cur1" using f1 by (simp add: cur1_def)
    from Cons.prems(3) have plats: "\<forall>t \<in> set ts. ch_platform (fst t) \<noteq> None" by simp
    from Cons.IH[OF f1' Cons.prems(2) plats False, of "processed @ [upd]"]
    obtain p s' where rest: "placeTargets A oid order ts (processed @ [upd]) s1 = (Inr p, s')"
      and f2: "Order_findOne oid s' =
              Some (cur1\<lparr>o_status := (if cartCount oid s' = 0 then ''AWAITING'' else ''PENDING'')\<rparr>)"
      and sh2: "shops s' = shops s1"
      and g2: "length (platformOrderCalls s1) \<le> length (platformOrderCalls s')"
              "length (console s1) \<le> length (console s')"
              "\<not> addCartEndpoint cur1 s1 \<longrightarrow> platformOrderCalls s' = platformOrderCalls s1"
      and o2: "cartCount oid s' = 0 \<longrightarrow> addCartOutcome A (cur1\<lparr>o_status := ''AWAITING''\<rparr>) s1 s'"
      by (elim exE conjE) (rule that)
    have ep1: "addCartEndpoint cur1 s1 = addCartEndpoint cur s"
      by (rule addCartEndpoint_cong) (simp_all add: sh1 cur1_def)
    have ep: "addCartEndpoint (cur\<lparr>o_status := ''AWAITING''\<rparr>) s1
                = addCartEndpoint (cur\<lparr>o_status := ''AWAITING''\<rparr>) s"
      by (rule addCartEndpoint_cong) (simp_all add: sh1)
    have epc: "addCartEndpoint (cur\<lparr>o_status := ''AWAITING''\<rparr>) s = addCartEndpoint cur s"
      by (rule addCartEndpoint_cong) simp_all
    have up: "cur1\<lparr>o_status := ''AWAITING''\<rparr> = cur\<lparr>o_status := ''AWAITING''\<rparr>"
      by (simp add: cur1_def)
    have run: "placeTargets A oid order (t # ts) processed s = (Inr p, s')"
      using step rest by simp
    have fin: "Order_findOne oid s' =
              Some (cur\<lparr>o_status := (if cartCount oid s' = 0 then ''AWAITING'' else ''PENDING'')\<rparr>)"
      using f2 by (simp add: cur1_def)
    have sh: "shops s' = shops s" using sh1 sh2 by simp
    have g: "length (platformOrderCalls s) \<le> length (platformOrderCalls s')"
            "length (console s) \<le> length (console s')"
            "\<not> addCartEndpoint cur s \<longrightarrow> platformOrderCalls s' = platformOrderCalls s"
      using g1 g2 ep1 by simp_all
    have out: "cartCount oid s' = 0 \<longrightarrow> addCartOutcome A (cur\<lparr>o_status := ''AWAITING''\<rparr>) s s'"
    proof
      assume "cartCount oid s' = 0"
      with o2 up have o: "addCartOutcome A (cur\<lparr>o_status := ''AWAITING''\<rparr>) s1 s'" by simp
      show "addCartOutcome A (cur\<lparr>o_status := ''AWAITING''\<rparr>) s s'"
        by (rule addCartOutcome_later[OF o ep g1(1) g1(2)]) (use g1(3) epc in simp)
    qed
    show ?thesis
      by (rule exI[of _ p], rule exI[of _ s']) (intro conjI run fin sh g out)
  qed
qed

text \<open>
  Claim C7, as stated: after \<^verbatim>\<open>placeMultipleOrders\<close> processed an order, its status is
  AWAITING if no unplaced cart item remains and PENDING otherwise, and on AWAITING the
  storefront's add-to-platform-order adapter operation is invoked. The recount and the
  status update sit inside the loop over the targets, so an order without a target is
  left as it is: order 1 without cart items has no unplaced item and stays PENDING. And
  the adapter executor reaches no adapter for a shop whose platform names a bundled
  module: order 1 with its unplaced item 11 and the \<^verbatim>\<open>openfront\<close> shop platform becomes
  AWAITING, no add-to-platform-order call is made, and the executor's failure is logged.
\<close>

theorem no_target_status_counterexample:
  "fst (placeMultipleOrders ex_adapters [1] ex_no_items) = Inr []
   \<and> cartCount 1 (snd (placeMultipleOrders ex_adapters [1] ex_no_items)) = 0
   \<and> map o_status (orders (snd (placeMultipleOrders ex_adapters [1] ex_no_items))) = [''PENDING'']
   \<and> map o_status (orders (snd (placeMultipleOrders ex_adapters [1] ex_unplaced))) = [''AWAITING'']
   \<and> platformOrderCalls (snd (placeMultipleOrders ex_adapters [1] ex_unplaced)) = []
   \<and> console (snd (placeMultipleOrders ex_adapters [1] ex_unplaced))
       = [''Warning: Add cart to platform order function failed: Function addCartToPlatformOrderFunction not found in adapter openfront'']"
  by (simp add: pipeline_defs ex_defs)

text \<open>
  Claim C7, amended. \<open>placeOrder\<close> is what \<^verbatim>\<open>placeMultipleOrders\<close> does for one order
  identifier of an existing order, for every behaviour of the adapters. If no channel
  holds an unplaced cart item of the order, the pass changes nothing: the order keeps its
  status. If some channel does, the order has a user and every channel has a platform,
  then the pass returns normally and the order's status afterwards is AWAITING if no cart
  item of the order with empty url and purchase id remains and PENDING otherwise. When
  none remains, the add-to-platform-order operation was attempted (\<open>addCartOutcome\<close>): the
  attempt reaches an adapter, and is recorded as the last call, exactly when the order's
  shop has a platform whose function path is an endpoint, and then a failure of the
  endpoint is the last line logged; in every other case no call is made and the failure
  of the attempt is the last line logged. The failure is never propagated and does not
  change the status.
\<close>

theorem placeOrder_final_status:
  assumes "Order_findOne oid s = Some order"
    and "placeOrder A oid processed s = (r, s')"
  shows "(if list_ex (\<lambda>ch. unplacedOf oid (ch_id ch) s \<noteq> []) (channels s)
          then o_user order \<noteq> None \<and> list_all (\<lambda>ch. ch_platform ch \<noteq> None) (channels s)
               \<longrightarrow> (\<exists>p. r = Inr p)
                 \<and> map_option o_status (Order_findOne oid s') =
                      Some (if cartCount oid s' = 0 then ''AWAITING'' else ''PENDING'')
                 \<and> (cartCount oid s' = 0
                      \<longrightarrow> addCartOutcome A (order\<lparr>o_status := ''AWAITING''\<rparr>) s s')
          else r = Inr processed \<and> s' = s)"
proof (cases "list_ex (\<lambda>ch. unplacedOf oid (ch_id ch) s \<noteq> []) (channels s)")
  case False
  then have "filter (\<lambda>t. length (snd t) > 0) (cartChannels oid s) = []"
    by (auto simp: cartChannels_def list_ex_iff filter_empty_conv)
  then have "placeOrder A oid processed s = (Inr processed, s)"
    using assms(1) by (simp add: placeOrder_def)
  then show ?thesis using False assms(2) by simp
next
  case True
  have "(\<exists>p. r = Inr p)
      \<and> map_option o_status (Order_findOne oid s') =
           Some (if cartCount oid s' = 0 then ''AWAITING'' else ''PENDING'')
      \<and> (cartCount oid s' = 0 \<longrightarrow> addCartOutcome A (order\<lparr>o_status := ''AWAITING''\<rparr>) s s')"
    if usr: "o_user order \<noteq> None"
      and pl: "list_all (\<lambda>ch. ch_platform ch \<noteq> None) (channels s)"
  proof -
    define ts where "ts = filter (\<lambda>t. length (snd t) > 0) (cartChannels oid s)"
    obtain u where u: "o_user order = Some u" using usr by auto
    have plats: "\<forall>t \<in> set ts. ch_platform (fst t) \<noteq> None"
      using pl by (auto simp: ts_def cartChannels_def list_all_iff)
    have ne: "ts \<noteq> []"
      using True by (auto simp: ts_def cartChannels_def list_ex_iff filter_empty_conv)
    have run: "placeOrder A oid processed s = placeTargets A oid order ts processed s"
      using assms(1) by (simp add: placeOrder_def ts_def)
    from placeTargets_status[OF assms(1) u plats ne, of A processed]
    obtain p s2 where res: "placeTargets A oid order ts processed s = (Inr p, s2)"
      and fin: "Order_findOne oid s2 =
                Some (order\<lparr>o_status := (if cartCount oid s2 = 0 then ''AWAITING'' else ''PENDING'')\<rparr>)"
      and out: "cartCount oid s2 = 0 \<longrightarrow> addCartOutcome A (order\<lparr>o_status := ''AWAITING''\<rparr>) s s2"
      by (elim exE conjE) (rule that)
    from res run assms(2) have eq: "r = Inr p" "s' = s2" by simp_all
    show ?thesis using eq fin out by simp
  qed
  then show ?thesis using True by simp
qed

text \<open>
  The theorem at work. Order 1 with its unplaced item 11, on a shop whose platform names
  an endpoint that answers with a failure: the purchase succeeds, the order is AWAITING,
  the call to the endpoint is recorded and its failure logged. Order 1 without cart
  items: the pass returns the store as it was.
\<close>

theorem placeOrder_final_status_witness:
  "Order_findOne 1 ex_unplaced_endpoint = Some (ex_order 1 ''PENDING'')
   \<and> list_ex (\<lambda>ch. unplacedOf 1 (ch_id ch) ex_unplaced_endpoint \<noteq> []) (channels ex_unplaced_endpoint)
   \<and> o_user (ex_order 1 ''PENDING'') \<noteq> None
   \<and> list_all (\<lambda>ch. ch_platform ch \<noteq> None) (channels ex_unplaced_endpoint)
   \<and> (\<exists>p. fst (placeOrder ex_adapters 1 [] ex_unplaced_endpoint) = Inr p)
   \<and> cartCount 1 (snd (placeOrder ex_adapters 1 [] ex_unplaced_endpoint)) = 0
   \<and> map_option o_status (Order_findOne 1 (snd (placeOrder ex_adapters 1 [] ex_unplaced_endpoint)))
       = Some ''AWAITING''
   \<and> addCartOutcome ex_adapters (ex_order 1 ''AWAITING'') ex_unplaced_endpoint
        (snd (placeOrder ex_adapters 1 [] ex_unplaced_endpoint))
   \<and> platformOrderCalls (snd (placeOrder ex_adapters 1 [] ex_unplaced_endpoint)) = [(1, [11])]
   \<and> console (snd (placeOrder ex_adapters 1 [] ex_unplaced_endpoint))
       = [''Warning: Add cart to platform order function failed: HTTP request failed'']
   \<and> Order_findOne 1 ex_no_items = Some (ex_order 1 ''PENDING'')
   \<and> \<not> list_ex (\<lambda>ch. unplacedOf 1 (ch_id ch) ex_no_items \<noteq> []) (channels ex_no_items)
   \<and> placeOrder ex_adapters 1 [] ex_no_items = (Inr [], ex_no_items)"
proof -
  have h1: "Order_findOne 1 ex_unplaced_endpoint = Some (ex_order 1 ''PENDING'')"
    by (simp add: Order_findOne_def ex_defs)
  have h2: "list_ex (\<lambda>ch. unplacedOf 1 (ch_id ch) ex_unplaced_endpoint \<noteq> []) (channels ex_unplaced_endpoint)"
    by (simp add: unplacedOf_def ex_defs)
  have h3: "o_user (ex_order 1 ''PENDING'') \<noteq> None" by (simp add: ex_defs)
  have h4: "list_all (\<lambda>ch. ch_platform ch \<noteq> None) (channels ex_unplaced_endpoint)"
    by (simp add: ex_defs)
  have c: "cartCount 1 (snd (placeOrder ex_adapters 1 [] ex_unplaced_endpoint)) = 0"
    by (simp add: pipeline_defs ex_defs)
  have upd: "(ex_order 1 ''PENDING'')\<lparr>o_status := ''AWAITING''\<rparr> = ex_order 1 ''AWAITING''"
    by (simp add: ex_defs)
  have calls: "platformOrderCalls (snd (placeOrder ex_adapters 1 [] ex_unplaced_endpoint)) = [(1, [11])]"
    by (simp add: pipeline_defs ex_defs)
  have log: "console (snd (placeOrder ex_adapters 1 [] ex_unplaced_endpoint))
       = [''Warning: Add cart to platform order function failed: HTTP request failed'']"
    by (simp add: pipeline_defs ex_defs)
  have k1: "Order_findOne 1 ex_no_items = Some (ex_order 1 ''PENDING'')"
    by (simp add: Order_findOne_def ex_defs)
  have k2: "\<not> list_ex (\<lambda>ch. unplacedOf 1 (ch_id ch) ex_no_items \<noteq> []) (channels ex_no_items)"
    by (simp add: unplacedOf_def ex_defs)
  note a = placeOrder_final_status[OF h1 prod.collapse[symmetric], of ex_adapters "[]"]
  note b = placeOrder_final_status[OF k1 prod.collapse[symmetric], of ex_adapters "[]"]
  have a1: "\<exists>p. fst (placeOrder ex_adapters 1 [] ex_unplaced_endpoint) = Inr p"
    using a h2 h3 h4 by simp
  have a2: "map_option o_status (Order_findOne 1 (snd (placeOrder ex_adapters 1 [] ex_unplaced_endpoint)))
       = Some ''AWAITING''"
    using a h2 h3 h4 c by simp
  have a3: "addCartOutcome ex_adapters (ex_order 1 ''AWAITING'') ex_unplaced_endpoint
        (snd (placeOrder ex_adapters 1 [] ex_unplaced_endpoint))"
    using a h2 h3 h4 c upd by simp
  have b1: "placeOrder ex_adapters 1 [] ex_no_items = (Inr [], ex_no_items)"
    using b k2 by (simp add: prod_eq_iff)
  show ?thesis by (intro conjI h1 h2 h3 h4 a1 c a2 a3 calls log k1 k2 b1)
qed

section \<open>Completion by tracking\<close>








section \<open>Sequential link routing\<close>

lemma Order_findOne_where_spread:
  "str \<noteq> [] \<Longrightarrow> Order_findOne_where (spread str @ w) s = Inl whereInputError"
  by (cases str) (simp_all add: spread_def)

lemma applyDynamicWhereClause_throws:
  assumes "link \<in> set (links s)"
  shows "applyDynamicWhereClause (l_id link) orderId s = Inl whereInputError"
proof -
  have "find (\<lambda>l. l_id l = l_id link) (links s) \<noteq> None"
    using assms by (auto simp: find_None_iff)
  then obtain found where "find (\<lambda>l. l_id l = l_id link) (links s) = Some found" by auto
  moreover have "dynamicWhereClause found \<noteq> []" by (simp add: dynamicWhereClause_def)
  ultimately show ?thesis
    by (simp add: applyDynamicWhereClause_def Order_findOne_where_spread)
qed

lemma sequentialLinks_throws:
  assumes "ls \<noteq> []" and "set ls \<subseteq> set (links s)"
  shows "sequentialLinks orderId ls s = Inl whereInputError"
proof (cases ls)
  case Nil
  then show ?thesis using assms(1) by simp
next
  case (Cons link rest)
  then have "link \<in> set (links s)" using assms(2) by auto
  then show ?thesis using Cons by (simp add: applyDynamicWhereClause_throws)
qed

text \<open>
  The data of \<^verbatim>\<open>CartItem.createMany\<close> is refused as well: a line item's price is a
  number, so the creation for a link throws as soon as the order has a line item.
\<close>

lemma createForLinks_number_price:
  assumes "lis \<noteq> []" and "l_channel link = Some channelId"
  shows "createForLinks order lis (link # ls) s
           = (Inl (Error ''Variable $data got invalid value: String cannot represent a non string value''), s)"
proof -
  obtain l rest where "lis = l # rest" using assms(1) by (cases lis) auto
  then show ?thesis
    using assms(2) by (simp add: CartItem_createMany_def cartItemOfLineItem_def isTextValue_def)
qed

text \<open>
  Claim C8. For an order created with \<^verbatim>\<open>linkOrder\<close> on a shop in sequential mode that
  has links, the claim has the first link in ascending rank whose clause matches the order
  receive one cart item per line item. The hook never gets that far. The links are sorted
  by rank and the first of them is handed to \<^verbatim>\<open>applyDynamicWhereClause\<close>; the clause of
  every link is the same non-empty text, and spreading it into the \<^verbatim>\<open>where\<close> of
  \<^verbatim>\<open>Order.findOne\<close> gives an object the store refuses. The call is outside any
  \<^verbatim>\<open>try\<close>, so the hook throws with the store as it was: no link matches, no cart
  item is created, and the order is not even marked.
\<close>

theorem link_route_throws:
  assumes "Order_findOne (o_id item) s = Some order"
    and "o_linkOrder item"
    and "Order_shop order s = Some shop"
    and "shopLinks (sh_id shop) s \<noteq> []"
    and "sh_linkMode shop = ''sequential''"
  shows "Order_afterCreate A item s = (Inl whereInputError, s)"
proof -
  define sorted where "sorted = sort_key l_rank (shopLinks (sh_id shop) s)"
  have "set sorted = set (shopLinks (sh_id shop) s)" by (simp add: sorted_def)
  then have ne: "sorted \<noteq> []" and sub: "set sorted \<subseteq> set (links s)"
    using assms(4) by (auto simp: shopLinks_def)
  have thr: "sequentialLinks (o_id order) sorted s = Inl whereInputError"
    by (rule sequentialLinks_throws[OF ne sub])
  have "Order_afterCreate A item s = orderLinkRoute A item order shop s"
    using assms(1,2,3,4) by (simp add: Order_afterCreate_def)
  also have "\<dots> = (Inl whereInputError, s)"
    using assms(5) thr by (simp add: orderLinkRoute_def Let_def sorted_def[symmetric])
  finally show ?thesis .
qed

text \<open>
  The theorem at work on order 1 with two line items, on the sequential shop 200 whose
  links in rank order are link 32 (channel 5) and link 31 (channel 6): the hook throws
  and the store holds no cart item.
\<close>

theorem link_route_throws_witness:
  "Order_findOne (o_id (ex_order 1 ''PENDING'')) ex_linked = Some (ex_order 1 ''PENDING'')
   \<and> o_linkOrder (ex_order 1 ''PENDING'')
   \<and> Order_shop (ex_order 1 ''PENDING'') ex_linked = Some (ex_shop ''sequential'')
   \<and> sort_key l_rank (shopLinks (sh_id (ex_shop ''sequential'')) ex_linked)
       = [ex_link 32 1 5, ex_link 31 3 6]
   \<and> sh_linkMode (ex_shop ''sequential'') = ''sequential''
   \<and> length (lineItemsOf 1 ex_linked) = 2
   \<and> Order_afterCreate ex_adapters (ex_order 1 ''PENDING'') ex_linked
       = (Inl whereInputError, ex_linked)
   \<and> cartItems (snd (Order_afterCreate ex_adapters (ex_order 1 ''PENDING'') ex_linked)) = []
   \<and> map o_error (orders (snd (Order_afterCreate ex_adapters (ex_order 1 ''PENDING'') ex_linked)))
       = [[]]"
proof -
  let ?item = "ex_order 1 ''PENDING''"
  let ?shop = "ex_shop ''sequential''"
  have h1: "Order_findOne (o_id ?item) ex_linked = Some ?item"
    by (simp add: Order_findOne_def ex_defs)
  have h2: "o_linkOrder ?item" by (simp add: ex_defs)
  have h3: "Order_shop ?item ex_linked = Some ?shop" by (simp add: Order_shop_def ex_defs)
  have srt: "sort_key l_rank (shopLinks (sh_id ?shop) ex_linked) = [ex_link 32 1 5, ex_link 31 3 6]"
    by (simp add: shopLinks_def ex_defs)
  have h4: "shopLinks (sh_id ?shop) ex_linked \<noteq> []" by (simp add: shopLinks_def ex_defs)
  have h5: "sh_linkMode ?shop = ''sequential''" by (simp add: ex_defs)
  have n: "length (lineItemsOf 1 ex_linked) = 2" by (simp add: lineItemsOf_def ex_defs)
  note th = link_route_throws[OF h1 h2 h3 h4 h5, of ex_adapters]
  have c: "cartItems (snd (Order_afterCreate ex_adapters ?item ex_linked)) = []"
    using th by (simp add: ex_defs)
  have e: "map o_error (orders (snd (Order_afterCreate ex_adapters ?item ex_linked))) = [[]]"
    using th by (simp add: ex_defs)
  show ?thesis by (intro conjI h1 h2 h3 srt h5 n th c e)
qed

section \<open>Link ranks\<close>

lemma spec_nextRank_contiguous:
  assumes "set (map l_rank (shopLinks shopId s)) = {1..int (length (shopLinks shopId s))}"
  shows "spec_nextRank shopId s = int (length (shopLinks shopId s)) + 1"
proof (cases "shopLinks shopId s")
  case Nil
  then show ?thesis by (simp add: spec_nextRank_def shopLinks_def)
next
  case (Cons l ls)
  have "Max (set (l_rank l # map l_rank ls)) = fold max (map l_rank ls) (l_rank l)"
    by (rule Max.set_eq_fold)
  then have "fold max (map l_rank ls) (l_rank l) = Max (set (map l_rank (l # ls)))"
    by simp
  also have "\<dots> = Max {1..int (length (l # ls))}" using assms Cons by simp
  also have "\<dots> = int (length (l # ls))" by (simp add: Max_eq_iff)
  finally show ?thesis using Cons by (simp add: spec_nextRank_def shopLinks_def)
qed

text \<open>
  Claim C9, as stated: a new link's rank is the maximum rank among the shop's links plus
  one, and the rank never changes afterwards. The hook counts the shop's links instead:
  with links of rank 1 and 3 the new link gets rank 3, where the maximum plus one is 4.
  And the rank is an ordinary field: an update that carries a rank writes it.
\<close>

theorem link_rank_counterexample:
  "map l_rank (links (snd (Link_createOne ex_linkData ex_links_gap))) = [1, 3, 3]
   \<and> spec_nextRank 200 ex_links_gap = 4
   \<and> map l_rank (links (snd (Link_updateOne 31
          \<lparr>ld_rank = Some 9, ld_shop = None, ld_channel = None, ld_user = None\<rparr> ex_links_gap)))
       = [9, 3]"
  by (simp add: Link_createOne_def Link_updateOne_def Link_beforeOperation_def applyLinkUpdate_def
        orElse_def spec_nextRank_def Let_def ex_defs)

text \<open>
  Claim C9, amended. A link created for a shop is stored with rank equal to the number of
  links the shop already has plus one (1 when it has none), whatever rank the request
  carried; this is the maximum plus one whenever the existing ranks are exactly
  \<open>1, \<dots>, n\<close>. The hook never recomputes a rank: an update that carries no rank leaves
  every rank as it was.
\<close>

theorem link_rank_is_count_plus_one:
  "(ld_shop d = Some shopId \<longrightarrow>
      (\<exists>row. Link_createOne d s = (Inr row, s\<lparr>links := links s @ [row], nextId := Suc (nextId s)\<rparr>)
         \<and> l_rank row = int (length (shopLinks shopId s)) + 1
         \<and> (set (map l_rank (shopLinks shopId s)) = {1..int (length (shopLinks shopId s))}
              \<longrightarrow> l_rank row = spec_nextRank shopId s)))
   \<and> (ld_rank u = None \<longrightarrow>
        map l_rank (links (snd (Link_updateOne i u s))) = map l_rank (links s))"
proof (intro conjI impI)
  assume sh: "ld_shop d = Some shopId"
  define row where "row = \<lparr>l_id = nextId s, l_rank = int (length (shopLinks shopId s)) + 1,
                      l_shop = Some shopId, l_channel = ld_channel d, l_user = ld_user d\<rparr>"
  have "Link_createOne d s = (Inr row, s\<lparr>links := links s @ [row], nextId := Suc (nextId s)\<rparr>)"
    using sh by (simp add: Link_createOne_def Link_beforeOperation_def Let_def row_def shopLinks_def)
  moreover have "l_rank row = int (length (shopLinks shopId s)) + 1" by (simp add: row_def)
  moreover have "set (map l_rank (shopLinks shopId s)) = {1..int (length (shopLinks shopId s))}
              \<longrightarrow> l_rank row = spec_nextRank shopId s"
    using spec_nextRank_contiguous[of shopId s] by (simp add: row_def)
  ultimately show "\<exists>row. Link_createOne d s = (Inr row, s\<lparr>links := links s @ [row], nextId := Suc (nextId s)\<rparr>)
         \<and> l_rank row = int (length (shopLinks shopId s)) + 1
         \<and> (set (map l_rank (shopLinks shopId s)) = {1..int (length (shopLinks shopId s))}
              \<longrightarrow> l_rank row = spec_nextRank shopId s)" by blast
next
  assume "ld_rank u = None"
  then show "map l_rank (links (snd (Link_updateOne i u s))) = map l_rank (links s)"
    by (auto simp: Link_updateOne_def Link_beforeOperation_def applyLinkUpdate_def
          split: option.split)
qed

text \<open>
  The theorem at work on a shop with links of rank 1 and 2: the new link gets rank 3, the
  maximum plus one, and an update of link 31 that carries no rank changes no rank.
\<close>

theorem link_rank_is_count_plus_one_witness:
  "ld_shop ex_linkData = Some 200
   \<and> set (map l_rank (shopLinks 200 ex_links_two)) = {1..int (length (shopLinks 200 ex_links_two))}
   \<and> map l_rank (links (snd (Link_createOne ex_linkData ex_links_two))) = [1, 2, 3]
   \<and> spec_nextRank 200 ex_links_two = 3
   \<and> ld_rank ex_linkData = None
   \<and> map l_rank (links (snd (Link_updateOne 31 ex_linkData ex_links_two))) = [1, 2]"
proof -
  have h1: "ld_shop ex_linkData = Some 200" and h3: "ld_rank ex_linkData = None"
    by (simp_all add: ex_linkData_def)
  have n: "length (shopLinks 200 ex_links_two) = 2"
    by (simp add: shopLinks_def ex_defs)
  have "{1..2::int} = {1, 2}" by auto
  then have h2: "set (map l_rank (shopLinks 200 ex_links_two))
                  = {1..int (length (shopLinks 200 ex_links_two))}"
    unfolding n by (simp add: shopLinks_def ex_defs)
  have g: "map l_rank (links ex_links_two) = [1, 2]" by (simp add: ex_defs)
  from link_rank_is_count_plus_one[of ex_linkData 200 ex_links_two ex_linkData 31]
  show ?thesis using h1 h2 h3 n g by auto
qed

section \<open>Partial matches\<close>

lemmas match_defs = getMatches_def createCartItems_def matchesCovering_def singleAllMatches_def
  Match_inputOf_def Match_outputOf_def lineItemsOf_def tupleIs_def CartItem_createOne_def
  priceChangeError_def Order_findOne_def Order_updateOne_def addMatchToCart_def markUnmatched_def

lemma singleAllMatches_cong:
  "matches s' = matches s \<Longrightarrow> shopItems s' = shopItems s
     \<Longrightarrow> singleAllMatches uid l s' = singleAllMatches uid l s"
  by (simp add: singleAllMatches_def Match_inputOf_def)

lemma Order_updateOne_snd_other:
  "cartItems (snd (Order_updateOne i f s)) = cartItems s"
  "matches (snd (Order_updateOne i f s)) = matches s"
  "shopItems (snd (Order_updateOne i f s)) = shopItems s"
  by (simp_all add: Order_updateOne_def split: option.split)

lemma perLineItem_result:
  assumes "Order_findOne oid s = Some cur"
  shows "\<exists>out s'. perLineItem oid uid ls s = (out, s')
       \<and> out = map (\<lambda>l. case singleAllMatches uid l s of [] \<Rightarrow> None | m # _ \<Rightarrow> Some m) ls
       \<and> cartItems s' = cartItems s \<and> matches s' = matches s \<and> shopItems s' = shopItems s
       \<and> Order_findOne oid s' =
            Some (if list_ex (\<lambda>l. singleAllMatches uid l s = []) ls then markUnmatched cur else cur)"
  using assms
proof (induction ls arbitrary: s cur)
  case Nil
  then show ?case by simp
next
  case (Cons l ls)
  show ?case
  proof (cases "singleAllMatches uid l s")
    case Nil
    define s1 where "s1 = snd (Order_updateOne oid markUnmatched s)"
    have f1: "Order_findOne oid s1 = Some (markUnmatched cur)"
      using Order_updateOne_found(2)[OF Cons.prems, of markUnmatched]
      by (simp add: s1_def markUnmatched_def)
    have fr: "cartItems s1 = cartItems s" "matches s1 = matches s" "shopItems s1 = shopItems s"
      by (simp_all add: s1_def Order_updateOne_snd_other)
    have sm: "singleAllMatches uid x s1 = singleAllMatches uid x s" for x
      by (rule singleAllMatches_cong) (simp_all add: fr)
    from Cons.IH[OF f1] obtain out s' where
      ih: "perLineItem oid uid ls s1 = (out, s')"
        "out = map (\<lambda>l. case singleAllMatches uid l s1 of [] \<Rightarrow> None | m # _ \<Rightarrow> Some m) ls"
        "cartItems s' = cartItems s1" "matches s' = matches s1" "shopItems s' = shopItems s1"
        "Order_findOne oid s' =
            Some (if list_ex (\<lambda>l. singleAllMatches uid l s1 = []) ls
                  then markUnmatched (markUnmatched cur) else markUnmatched cur)"
      by blast
    have idem: "markUnmatched (markUnmatched cur) = markUnmatched cur"
      by (simp add: markUnmatched_def)
    have "perLineItem oid uid (l # ls) s = (None # out, s')"
      using Nil ih(1) by (simp add: s1_def)
    then show ?thesis using Nil ih fr sm idem by simp
  next
    case (Cons m ms)
    from Cons.IH[OF Cons.prems] obtain out s' where
      ih: "perLineItem oid uid ls s = (out, s')"
        "out = map (\<lambda>l. case singleAllMatches uid l s of [] \<Rightarrow> None | m # _ \<Rightarrow> Some m) ls"
        "cartItems s' = cartItems s" "matches s' = matches s" "shopItems s' = shopItems s"
        "Order_findOne oid s' =
            Some (if list_ex (\<lambda>l. singleAllMatches uid l s = []) ls then markUnmatched cur else cur)"
      by blast
    have "perLineItem oid uid (l # ls) s = (Some m # out, s')"
      using Cons ih(1) by simp
    then show ?thesis using Cons ih by simp
  qed
qed

lemma createFromOutputs_orders:
  "orders (snd (createFromOutputs A order outs result s)) = orders s"
  by (induction outs arbitrary: result s)
     (auto simp: CartItem_createOne_def split: option.split product_result.split)

lemma createFromMatches_orders:
  "orders (snd (createFromMatches A order ms result s)) = orders s"
proof (induction ms arbitrary: result s)
  case Nil
  then show ?case by simp
next
  case (Cons m ms)
  show ?case
  proof (cases m)
    case None
    then show ?thesis by simp
  next
    case (Some x)
    obtain r1 s1 where st: "createFromOutputs A order (Match_outputOf x s) result s = (r1, s1)"
      by (cases "createFromOutputs A order (Match_outputOf x s) result s") auto
    have o1: "orders s1 = orders s" using createFromOutputs_orders[of A order _ result s] st
      by (metis snd_conv)
    show ?thesis using Some st o1 Cons.IH by (cases r1) simp_all
  qed
qed

lemma createFromMatches_undefined:
  "None \<in> set ms \<Longrightarrow> \<exists>e. fst (createFromMatches A order ms result s) = Inl e"
proof (induction ms arbitrary: result s)
  case Nil
  then show ?case by simp
next
  case (Cons m ms)
  show ?case
  proof (cases m)
    case None
    then show ?thesis by simp
  next
    case (Some x)
    with Cons.prems have rest: "None \<in> set ms" by simp
    obtain r1 s1 where st: "createFromOutputs A order (Match_outputOf x s) result s = (r1, s1)"
      by (cases "createFromOutputs A order (Match_outputOf x s) result s") auto
    show ?thesis using Some st Cons.IH[OF rest] by (cases r1) simp_all
  qed
qed

text \<open>
  What \<^verbatim>\<open>getMatches\<close> does whenever an order with a user has more than one line item,
  no match of the user passes the exact lookup (every line item's tuple among its inputs,
  as many inputs as line items), and some line item has no match of the user all of whose
  inputs carry its tuple: it throws or returns nothing, so \<^verbatim>\<open>addMatchToCart\<close> throws,
  and the order is left with the fixed text
  \<^verbatim>\<open>MATCH_ERROR: Some lineItems not matched\<close>. Only when no line item at all has such
  a match is it certain that no cart item is created.
\<close>

lemma unmatched_line_item_outcome:
  assumes "Order_findOne oid s = Some order"
    and "o_user order = Some uid"
    and "length (lineItemsOf oid s) > 1"
    and "filter (\<lambda>m. length (Match_inputOf m s) = length (lineItemsOf oid s))
           (matchesCovering uid (lineItemsOf oid s) s) = []"
    and "list_ex (\<lambda>l. singleAllMatches uid l s = []) (lineItemsOf oid s)"
    and "getMatches A oid s = (r, s')"
  shows "(r = Inr None \<or> (\<exists>e. r = Inl e))
       \<and> (\<exists>e. fst (addMatchToCart A (Some caller) oid s) = Inl e)
       \<and> Order_findOne oid s' =
           Some (order\<lparr>o_error := ''MATCH_ERROR: Some lineItems not matched'', o_status := ''PENDING''\<rparr>)
       \<and> (list_all (\<lambda>l. singleAllMatches uid l s = []) (lineItemsOf oid s)
            \<longrightarrow> r = Inr None \<and> cartItems s' = cartItems s)"
proof -
  define lis where "lis = lineItemsOf oid s"
  from perLineItem_result[OF assms(1), of uid lis] obtain out s1 where
    p: "perLineItem oid uid lis s = (out, s1)"
      "out = map (\<lambda>l. case singleAllMatches uid l s of [] \<Rightarrow> None | m # _ \<Rightarrow> Some m) lis"
      "cartItems s1 = cartItems s"
      "Order_findOne oid s1 =
            Some (if list_ex (\<lambda>l. singleAllMatches uid l s = []) lis then markUnmatched order else order)"
    by blast
  have f1: "Order_findOne oid s1 = Some (markUnmatched order)"
    using p(4) assms(5) by (simp add: lis_def)
  have none_in: "None \<in> set out"
    using assms(5) p(2) by (force simp: lis_def list_ex_iff split: list.splits)
  have run: "getMatches A oid s =
      (if length (filter (\<lambda>v. v \<noteq> None) out) > 0 then createCartItems A order out s1
       else (Inr None, s1))"
    using assms(1,2,3,4) p(1) by (simp add: getMatches_def lis_def[symmetric])
  have res: "(r = Inr None \<or> (\<exists>e. r = Inl e)) \<and> orders s' = orders s1"
  proof (cases "length (filter (\<lambda>v. v \<noteq> None) out) > 0")
    case True
    then have ne: "length out > 0" by (cases out) auto
    have eq: "(r, s') = createFromMatches A order out None s1"
      using run assms(6) True ne by (simp add: createCartItems_def)
    from createFromMatches_undefined[OF none_in, of A order None s1] eq
    have "\<exists>e. r = Inl e" by (metis fst_conv)
    moreover have "orders s' = orders s1"
      using createFromMatches_orders[of A order out None s1] eq by (metis snd_conv)
    ultimately show ?thesis by simp
  next
    case False
    with run assms(6) show ?thesis by simp
  qed
  have fin: "Order_findOne oid s' = Some (markUnmatched order)"
    using f1 res by (simp add: Order_findOne_def)
  have allnone: "list_all (\<lambda>l. singleAllMatches uid l s = []) lis
            \<Longrightarrow> r = Inr None \<and> cartItems s' = cartItems s"
  proof -
    assume a: "list_all (\<lambda>l. singleAllMatches uid l s = []) lis"
    have "filter (\<lambda>v. v \<noteq> None) out = []"
      using a p(2) by (auto simp: list_all_iff filter_empty_conv)
    with run assms(6) p(3) show ?thesis by simp
  qed
  have amc: "\<exists>e. fst (addMatchToCart A (Some caller) oid s) = Inl e"
    using res assms(6) by (auto simp: addMatchToCart_def)
  show ?thesis using res amc fin allnone by (simp add: markUnmatched_def lis_def)
qed

text \<open>
  Claim C1. When an order has more than one line item, no match covers them all and some
  line item has no match of its own, match resolution fails with an error naming the
  unmatched tuples and creates no cart item. The code run on order 1 with line items
  (p1, v1, 1) and (p2, v2, 1), where only the first has a match: \<^verbatim>\<open>getMatches\<close> marks
  the order with a text that names no tuple, hands the list of matches with its
  \<^verbatim>\<open>undefined\<close> entry to \<^verbatim>\<open>createCartItems\<close>, creates the cart item of the first
  line item and then throws a TypeError on the entry of the second. \<^verbatim>\<open>addMatchToCart\<close>
  passes that TypeError on; the order hook catches it and writes its message to the
  order. The cart item stays, and the next placement run buys it and sets the order to
  AWAITING although one of its line items was never fulfilled.
\<close>

theorem partial_match_leaves_cart_item:
  "length (lineItemsOf 1 ex_partial) = 2
   \<and> matchesCovering 100 (lineItemsOf 1 ex_partial) ex_partial = []
   \<and> singleAllMatches 100 (ex_lineItem 22 ''p2'' ''v2'') ex_partial = []
   \<and> cartItems ex_partial = []
   \<and> fst (getMatches ex_adapters 1 ex_partial)
       = Inl (TypeError ''Cannot read properties of undefined (reading 'output')'')
   \<and> map (\<lambda>c. (ci_id c, ci_order c, ci_channel c, ci_productId c, ci_variantId c))
        (cartItems (snd (getMatches ex_adapters 1 ex_partial)))
       = [(1000, Some 1, Some 5, ''cp1'', ''cv1'')]
   \<and> map o_error (orders (snd (getMatches ex_adapters 1 ex_partial)))
       = [''MATCH_ERROR: Some lineItems not matched'']
   \<and> fst (addMatchToCart ex_adapters (Some 100) 1 ex_partial)
       = Inl (TypeError ''Cannot read properties of undefined (reading 'output')'')
   \<and> fst (Order_afterCreate ex_adapters (ex_order 1 ''PENDING'') ex_partial) = Inr ()
   \<and> map (\<lambda>r. (o_status r, o_error r))
        (orders (snd (Order_afterCreate ex_adapters (ex_order 1 ''PENDING'') ex_partial)))
       = [(''PENDING'',
           ''Match processing failed: Cannot read properties of undefined (reading 'output')'')]
   \<and> map ci_id (cartItems (snd (Order_afterCreate ex_adapters (ex_order 1 ''PENDING'') ex_partial)))
       = [1000]
   \<and> purchaseCalls (snd (placeMultipleOrders ex_adapters [1]
                            (snd (getMatches ex_adapters 1 ex_partial)))) = [(5, [1000])]
   \<and> map o_status (orders (snd (placeMultipleOrders ex_adapters [1]
                                   (snd (getMatches ex_adapters 1 ex_partial))))) = [''AWAITING'']"
proof -
  have g: "getMatches ex_adapters 1 ex_partial
      = (Inl (TypeError ''Cannot read properties of undefined (reading 'output')''),
         ex_partial\<lparr>orders := [(ex_order 1 ''PENDING'')
                                  \<lparr>o_error := ''MATCH_ERROR: Some lineItems not matched''\<rparr>],
                     cartItems := [\<lparr>ci_id = 1000, ci_name = ''Product'', ci_image = [],
                        ci_price = ''10'', ci_quantity = 1, ci_productId = ''cp1'',
                        ci_variantId = ''cv1'', ci_sku = [], ci_lineItemId = [], ci_url = [],
                        ci_error = [], ci_purchaseId = [], ci_status = ''PENDING'',
                        ci_order = Some 1, ci_channel = Some 5, ci_user = Some 100\<rparr>],
                     nextId := 1001\<rparr>)"
    by (simp add: match_defs ex_defs)
  have a: "length (lineItemsOf 1 ex_partial) = 2"
    "matchesCovering 100 (lineItemsOf 1 ex_partial) ex_partial = []"
    "singleAllMatches 100 (ex_lineItem 22 ''p2'' ''v2'') ex_partial = []"
    "cartItems ex_partial = []"
    by (simp_all add: match_defs ex_defs)
  have e: "fst (getMatches ex_adapters 1 ex_partial)
       = Inl (TypeError ''Cannot read properties of undefined (reading 'output')'')"
    "map (\<lambda>c. (ci_id c, ci_order c, ci_channel c, ci_productId c, ci_variantId c))
        (cartItems (snd (getMatches ex_adapters 1 ex_partial)))
       = [(1000, Some 1, Some 5, ''cp1'', ''cv1'')]"
    "map o_error (orders (snd (getMatches ex_adapters 1 ex_partial)))
       = [''MATCH_ERROR: Some lineItems not matched'']"
    using g by (simp_all add: ex_defs)
  have m: "fst (addMatchToCart ex_adapters (Some 100) 1 ex_partial)
       = Inl (TypeError ''Cannot read properties of undefined (reading 'output')'')"
    using g by (simp add: addMatchToCart_def)
  have h: "Order_afterCreate ex_adapters (ex_order 1 ''PENDING'') ex_partial
      = orderMatchRoute ex_adapters (ex_order 1 ''PENDING'') ex_partial"
    by (simp add: Order_afterCreate_def Order_findOne_def Order_shop_def shopLinks_def ex_defs)
  have o: "o_id (ex_order 1 ''PENDING'') = 1" by (simp add: ex_defs)
  have r: "fst (Order_afterCreate ex_adapters (ex_order 1 ''PENDING'') ex_partial) = Inr ()"
    "map (\<lambda>r. (o_status r, o_error r))
        (orders (snd (Order_afterCreate ex_adapters (ex_order 1 ''PENDING'') ex_partial)))
       = [(''PENDING'',
           ''Match processing failed: Cannot read properties of undefined (reading 'output')'')]"
    "map ci_id (cartItems (snd (Order_afterCreate ex_adapters (ex_order 1 ''PENDING'') ex_partial)))
       = [1000]"
    unfolding h using g
    by (simp_all add: orderMatchRoute_def o exn_message_def Order_updateOne_def
          Order_findOne_def ex_defs)
  have p: "purchaseCalls (snd (placeMultipleOrders ex_adapters [1]
                            (snd (getMatches ex_adapters 1 ex_partial)))) = [(5, [1000])]"
    "map o_status (orders (snd (placeMultipleOrders ex_adapters [1]
                                   (snd (getMatches ex_adapters 1 ex_partial))))) = [''AWAITING'']"
    using g by (simp_all add: pipeline_defs ex_defs)
  show ?thesis by (intro conjI a e m r p)
qed

section \<open>Uniqueness of match inputs\<close>

lemmas hook_defs = Match_createOne_def Match_updateOne_def Match_resolveInput_def
  resolveInputCreate_def resolveOutputCreate_def createCheck_def updateCheck_def
  checkForDuplicate_def duplicateError_def Match_inputOf_def orElse_def applyMatchUpdate_def
  Let_def

lemma Match_inputOf_distinct:
  "distinct (map si_id (shopItems s)) \<Longrightarrow> distinct (map si_id (Match_inputOf m s))"
  by (simp add: Match_inputOf_def distinct_map_filter)

lemma checkForDuplicate_hit:
  assumes "distinct (map si_id (shopItems s))"
    and "m \<in> set (matches s)"
    and "set (map si_id (Match_inputOf m s)) = set ids"
    and "ids \<noteq> []" and "distinct ids"
  shows "checkForDuplicate ids s"
proof -
  let ?mi = "map si_id (Match_inputOf m s)"
  have d: "distinct ?mi" using assms(1) by (rule Match_inputOf_distinct)
  have len: "length ?mi = length ids"
    using d assms(3,5) by (metis distinct_card)
  have sub: "list_all (\<lambda>i. i \<in> set ids) ?mi"
    using assms(3) by (simp add: list_all_iff)
  have "set ?mi \<noteq> {}" using assms(3,4) by simp
  then obtain x where x: "x \<in> set (Match_inputOf m s)"
    by (cases "Match_inputOf m s") auto
  then have "si_id x \<in> set ids" using assms(3) by auto
  then have some: "list_ex (\<lambda>i. si_id i \<in> set ids) (Match_inputOf m s)"
    using x by (auto simp: list_ex_iff)
  show ?thesis
    unfolding checkForDuplicate_def
    using assms(2) some len sub by (auto simp: list_ex_iff)
qed

lemma resolve_connect_only:
  assumes "md_input d = Some inp" and "in_create inp = None"
    and "case md_output d of None \<Rightarrow> True | Some outp \<Rightarrow> out_create outp = None"
  shows "resolveInputCreate session d s = (Inr d, s)"
    and "resolveOutputCreate session d s = (Inr d, s)"
  using assms by (auto simp: resolveInputCreate_def resolveOutputCreate_def split: option.splits)

lemma found_rows:
  "list_all (\<lambda>j. j \<in> si_id ` set (shopItems s)) c \<Longrightarrow>
     \<not> list_ex (\<lambda>x. x = None) (map (\<lambda>i. find (\<lambda>x. si_id x = i) (shopItems s)) c)
     \<and> map si_id (List.map_filter (\<lambda>x. x) (map (\<lambda>i. find (\<lambda>x. si_id x = i) (shopItems s)) c)) = c"
proof (induction c)
  case Nil
  show ?case by simp
next
  case (Cons j c)
  from Cons.prems obtain row where row: "find (\<lambda>x. si_id x = j) (shopItems s) = Some row"
    by (cases "find (\<lambda>x. si_id x = j) (shopItems s)") (auto simp: find_None_iff)
  then have rid: "si_id row = j" by (auto simp: find_Some_iff)
  from Cons.prems have "list_all (\<lambda>j. j \<in> si_id ` set (shopItems s)) c" by simp
  from Cons.IH[OF this] row rid show ?case by simp
qed

text \<open>
  Claim C5, as stated: creating a match whose input ShopItem set is identical to an
  existing match's input set is rejected. The check of the \<^verbatim>\<open>create\<close> operation is
  guarded by \<^verbatim>\<open>connect.length > 0\<close>, so a second match without inputs is accepted; and
  the check compares the length of the \<^verbatim>\<open>connect\<close> list, so connecting ShopItem 41 twice
  is accepted although match 62 has exactly the input set {41}.
\<close>

theorem duplicate_input_counterexample:
  "fst (Match_createOne (Some 100) (ex_matchData []) ex_matches)
     = Inr \<lparr>m_id = 1000, m_input = [], m_output = [51], m_user = Some 100\<rparr>
   \<and> map m_input (matches (snd (Match_createOne (Some 100) (ex_matchData []) ex_matches)))
       = [[], [41], []]
   \<and> map m_input (matches (snd (Match_createOne (Some 100) (ex_matchData [41, 41]) ex_matches)))
       = [[], [41], [41]]"
  by (simp add: hook_defs ex_defs)

text \<open>
  Claim C5, amended. Let ShopItem identifiers be distinct (they are the store's keys) and
  let an existing match have exactly the input set \<open>ids\<close>, a non-empty list without
  repetition. A \<^verbatim>\<open>create\<close> whose \<^verbatim>\<open>connect\<close> list is \<open>ids\<close> is rejected with the
  duplicate error and the store is unchanged; so is an \<^verbatim>\<open>update\<close> whose resulting inputs
  (the current inputs that are not disconnected, followed by the connected ShopItems, all
  of which exist) are \<open>ids\<close>. Both for requests that give their relations by
  \<^verbatim>\<open>connect\<close> and \<^verbatim>\<open>disconnect\<close>.
\<close>

theorem duplicate_input_rejected:
  assumes "distinct (map si_id (shopItems s))"
    and "m \<in> set (matches s)"
    and "set (map si_id (Match_inputOf m s)) = set ids"
    and "ids \<noteq> []" and "distinct ids"
    and "md_input d = Some inp" and "in_create inp = None"
    and "case md_output d of None \<Rightarrow> True | Some outp \<Rightarrow> out_create outp = None"
  shows "(in_connect inp = Some ids \<longrightarrow> Match_createOne session d s = (Inl duplicateError, s))
       \<and> (find (\<lambda>x. m_id x = i) (matches s) = Some cur
            \<and> list_all (\<lambda>j. j \<in> si_id ` set (shopItems s))
                 (case in_connect inp of Some c \<Rightarrow> c | None \<Rightarrow> [])
            \<and> ids = map si_id (filter (\<lambda>x. si_id x \<notin> set (case in_disconnect inp of Some d \<Rightarrow> d | None \<Rightarrow> []))
                                 (Match_inputOf cur s))
                     @ (case in_connect inp of Some c \<Rightarrow> c | None \<Rightarrow> [])
          \<longrightarrow> Match_updateOne session i d s = (Inl duplicateError, s))"
proof (intro conjI impI)
  note dup = checkForDuplicate_hit[OF assms(1-5)]
  note ro = resolve_connect_only[OF assms(6,7,8), of session s]
  {
    assume c: "in_connect inp = Some ids"
    have "createCheck d s = Some duplicateError"
      using assms(4,6) c dup by (simp add: createCheck_def)
    then show "Match_createOne session d s = (Inl duplicateError, s)"
      using ro by (simp add: Match_createOne_def Match_resolveInput_def)
  }
  {
    assume u: "find (\<lambda>x. m_id x = i) (matches s) = Some cur
            \<and> list_all (\<lambda>j. j \<in> si_id ` set (shopItems s))
                 (case in_connect inp of Some c \<Rightarrow> c | None \<Rightarrow> [])
            \<and> ids = map si_id (filter (\<lambda>x. si_id x \<notin> set (case in_disconnect inp of Some d \<Rightarrow> d | None \<Rightarrow> []))
                                 (Match_inputOf cur s))
                     @ (case in_connect inp of Some c \<Rightarrow> c | None \<Rightarrow> [])"
    define c where "c = (case in_connect inp of Some c \<Rightarrow> c | None \<Rightarrow> [])"
    define newInputs where "newInputs = (case in_connect inp of
                 Some c \<Rightarrow> map (\<lambda>i. find (\<lambda>x. si_id x = i) (shopItems s)) c | None \<Rightarrow> [])"
    define remaining where "remaining =
        filter (\<lambda>x. si_id x \<notin> set (case in_disconnect inp of Some d \<Rightarrow> d | None \<Rightarrow> []))
               (Match_inputOf cur s)"
    have ex: "list_all (\<lambda>j. j \<in> si_id ` set (shopItems s)) c" using u by (simp add: c_def)
    have ni: "newInputs = map (\<lambda>i. find (\<lambda>x. si_id x = i) (shopItems s)) c"
      by (simp add: c_def newInputs_def split: option.split)
    from found_rows[OF ex] have fr1: "\<not> list_ex (\<lambda>x. x = None) newInputs"
      and fr2: "map si_id (List.map_filter (\<lambda>x. x) newInputs) = c"
      unfolding ni by simp_all
    have ids: "map si_id (remaining @ List.map_filter (\<lambda>x. x) newInputs) = ids"
      using u fr2 by (simp add: remaining_def c_def)
    have "updateCheck i d s =
            (if list_ex (\<lambda>x. x = None) newInputs
             then Some (TypeError ''Cannot read properties of null (reading 'id')'')
             else if checkForDuplicate (map si_id (remaining @ List.map_filter (\<lambda>x. x) newInputs)) s
             then Some duplicateError else None)"
      using assms(6) u by (simp add: updateCheck_def Let_def newInputs_def remaining_def)
    then have "updateCheck i d s = Some duplicateError"
      using fr1 dup unfolding ids by simp
    then show "Match_updateOne session i d s = (Inl duplicateError, s)"
      using ro u by (simp add: Match_updateOne_def Match_resolveInput_def)
  }
qed

text \<open>
  The theorem at work: a new match on ShopItem 41 is rejected because of match 62, and so
  is the update that would connect ShopItem 41 to match 61.
\<close>

theorem duplicate_input_rejected_witness:
  "distinct (map si_id (shopItems ex_matches))
   \<and> \<lparr>m_id = 62, m_input = [41], m_output = [51], m_user = Some 100\<rparr> \<in> set (matches ex_matches)
   \<and> set (map si_id (Match_inputOf \<lparr>m_id = 62, m_input = [41], m_output = [51], m_user = Some 100\<rparr>
                          ex_matches)) = set [41]
   \<and> find (\<lambda>x. m_id x = 61) (matches ex_matches)
       = Some \<lparr>m_id = 61, m_input = [], m_output = [51], m_user = Some 100\<rparr>
   \<and> Match_createOne (Some 100) (ex_matchData [41]) ex_matches = (Inl duplicateError, ex_matches)
   \<and> Match_updateOne (Some 100) 61 (ex_matchData [41]) ex_matches = (Inl duplicateError, ex_matches)"
proof -
  let ?m = "\<lparr>m_id = 62, m_input = [41], m_output = [51], m_user = Some 100\<rparr>"
  let ?cur = "\<lparr>m_id = 61, m_input = [], m_output = [51], m_user = Some 100\<rparr>"
  let ?inp = "\<lparr>in_connect = Some [41], in_create = None, in_disconnect = None\<rparr>"
  have h1: "distinct (map si_id (shopItems ex_matches))" by (simp add: ex_defs)
  have h2: "?m \<in> set (matches ex_matches)" by (simp add: ex_defs)
  have h3: "set (map si_id (Match_inputOf ?m ex_matches)) = set [41]"
    by (simp add: Match_inputOf_def ex_defs)
  have h4: "[41::nat] \<noteq> []" and h5: "distinct [41::nat]" by simp_all
  have h6: "md_input (ex_matchData [41]) = Some ?inp" and h7: "in_create ?inp = None"
    by (simp_all add: ex_defs)
  have h8: "case md_output (ex_matchData [41]) of None \<Rightarrow> True | Some outp \<Rightarrow> out_create outp = None"
    by (simp add: ex_defs)
  have u1: "find (\<lambda>x. m_id x = 61) (matches ex_matches) = Some ?cur" by (simp add: ex_defs)
  have u2: "list_all (\<lambda>j. j \<in> si_id ` set (shopItems ex_matches))
              (case in_connect ?inp of Some c \<Rightarrow> c | None \<Rightarrow> [])"
    by (simp add: ex_defs)
  have u3: "[41] = map si_id (filter (\<lambda>x. si_id x \<notin> set (case in_disconnect ?inp of Some d \<Rightarrow> d | None \<Rightarrow> []))
                                 (Match_inputOf ?cur ex_matches))
                     @ (case in_connect ?inp of Some c \<Rightarrow> c | None \<Rightarrow> [])"
    by (simp add: Match_inputOf_def ex_defs)
  have c: "in_connect ?inp = Some [41]" by simp
  note th = duplicate_input_rejected[OF h1 h2 h3 h4 h5 h6 h7 h8, of "Some 100" 61 ?cur]
  from th c have r1: "Match_createOne (Some 100) (ex_matchData [41]) ex_matches = (Inl duplicateError, ex_matches)"
    by blast
  from th u1 u2 u3 have r2: "Match_updateOne (Some 100) 61 (ex_matchData [41]) ex_matches = (Inl duplicateError, ex_matches)"
    by blast
  show ?thesis by (intro conjI h1 h2 h3 u1 r1 r2)
qed

section \<open>Replacing a match by matchOrder\<close>

lemmas mo_defs = matchOrder_def Match_createOne_def Match_resolveInput_def
  resolveInputCreate_def resolveOutputCreate_def createCheck_def checkForDuplicate_def
  duplicateError_def orElse_def Let_def matchesCovering_def Match_inputOf_def lineItemsOf_def
  tupleIs_def Order_findOne_def cartItemsOfOrder_def Match_deleteOne_def existingMatches_def

lemma shopItemFor_mono:
  "shopItemFor shopId uid s l j \<Longrightarrow> shopItems s1 = shopItems s @ new
     \<Longrightarrow> shopItemFor shopId uid s1 l j"
  by (auto simp: shopItemFor_def list_ex_iff)

lemma findShopItems_spec:
  assumes "store_keys_ok s"
  shows "\<exists>ids s1 new. findShopItems lis shopId uid arr s = (arr @ ids, s1)
       \<and> store_keys_ok s1 \<and> matches s1 = matches s \<and> orders s1 = orders s
       \<and> lineItems s1 = lineItems s \<and> cartItems s1 = cartItems s
       \<and> shopItems s1 = shopItems s @ new \<and> list_all (\<lambda>row. nextId s \<le> si_id row) new
       \<and> nextId s \<le> nextId s1
       \<and> list_all2 (shopItemFor shopId uid s1) lis ids"
  using assms
proof (induction lis arbitrary: arr s)
  case Nil
  then show ?case by simp
next
  case (Cons l lis)
  let ?P = "\<lambda>i. si_shop i = Some shopId \<and> si_user i = Some uid
                       \<and> si_quantity i = li_quantity l \<and> si_productId i = li_productId l
                       \<and> si_variantId i = li_variantId l"
  show ?case
  proof (cases "filter ?P (shopItems s)")
    case (Cons row rest)
    then have "row \<in> set (filter ?P (shopItems s))" by simp
    then have here: "shopItemFor shopId uid s l (si_id row)"
      by (auto simp: shopItemFor_def list_ex_iff tupleIs_def)
    from Cons.IH[OF Cons.prems, of "arr @ [si_id row]"] obtain ids s1 new where
      ih: "findShopItems lis shopId uid (arr @ [si_id row]) s = ((arr @ [si_id row]) @ ids, s1)"
        "store_keys_ok s1" "matches s1 = matches s" "orders s1 = orders s"
        "lineItems s1 = lineItems s" "cartItems s1 = cartItems s"
        "shopItems s1 = shopItems s @ new" "list_all (\<lambda>row. nextId s \<le> si_id row) new"
        "nextId s \<le> nextId s1"
        "list_all2 (shopItemFor shopId uid s1) lis ids"
      by blast
    have run: "findShopItems (l # lis) shopId uid arr s = (arr @ (si_id row # ids), s1)"
      using Cons ih(1) by simp
    have "list_all2 (shopItemFor shopId uid s1) (l # lis) (si_id row # ids)"
      using ih(10) shopItemFor_mono[OF here ih(7)] by simp
    then show ?thesis using run ih by blast
  next
    case Nil
    define row where "row = \<lparr>si_id = nextId s, si_productId = li_productId l,
        si_variantId = li_variantId l, si_quantity = li_quantity l,
        si_shop = Some shopId, si_user = Some uid\<rparr>"
    define sA where "sA = s\<lparr>shopItems := shopItems s @ [row], nextId := Suc (nextId s)\<rparr>"
    have okA: "store_keys_ok sA"
      using Cons.prems
      by (auto simp: store_keys_ok_def sA_def row_def list_all_iff less_Suc_eq)
    have here: "shopItemFor shopId uid sA l (nextId s)"
      by (simp add: shopItemFor_def sA_def row_def tupleIs_def)
    from Cons.IH[OF okA, of "arr @ [nextId s]"] obtain ids s1 new where
      ih: "findShopItems lis shopId uid (arr @ [nextId s]) sA = ((arr @ [nextId s]) @ ids, s1)"
        "store_keys_ok s1" "matches s1 = matches sA" "orders s1 = orders sA"
        "lineItems s1 = lineItems sA" "cartItems s1 = cartItems sA"
        "shopItems s1 = shopItems sA @ new" "list_all (\<lambda>row. nextId sA \<le> si_id row) new"
        "nextId sA \<le> nextId s1"
        "list_all2 (shopItemFor shopId uid s1) lis ids"
      by blast
    have run: "findShopItems (l # lis) shopId uid arr s = (arr @ (nextId s # ids), s1)"
      using Nil ih(1) by (simp add: sA_def row_def)
    have l2: "list_all2 (shopItemFor shopId uid s1) (l # lis) (nextId s # ids)"
      using ih(10) shopItemFor_mono[OF here ih(7)] by simp
    have app: "shopItems s1 = shopItems s @ (row # new)" using ih(7) by (simp add: sA_def)
    have fresh: "list_all (\<lambda>row. nextId s \<le> si_id row) (row # new)"
      using ih(8) by (auto simp: sA_def row_def list_all_iff)
    have "matches s1 = matches s" "orders s1 = orders s" "lineItems s1 = lineItems s"
      "cartItems s1 = cartItems s" "nextId s \<le> nextId s1"
      using ih(3,4,5,6,9) by (simp_all add: sA_def)
    then show ?thesis using run ih(2) l2 app fresh by blast
  qed
qed

lemma findChannelItems_frame:
  "shopItems (snd (findChannelItems cs uid arr s)) = shopItems s
   \<and> matches (snd (findChannelItems cs uid arr s)) = matches s
   \<and> lineItems (snd (findChannelItems cs uid arr s)) = lineItems s
   \<and> orders (snd (findChannelItems cs uid arr s)) = orders s
   \<and> nextId s \<le> nextId (snd (findChannelItems cs uid arr s))"
proof (induction cs arbitrary: arr s)
  case Nil
  then show ?case by simp
next
  case (Cons c cs)
  obtain ci h where c: "c = (ci, h)" by (cases c)
  show ?case
  proof (cases "filter (\<lambda>i. chi_channel i = Some h \<and> chi_user i = Some uid
                       \<and> chi_quantity i = ci_quantity ci \<and> chi_productId i = ci_productId ci
                       \<and> chi_variantId i = ci_variantId ci) (channelItems s)")
    case Nil
    define sA where "sA = s\<lparr>channelItems := channelItems s @
                  [\<lparr>chi_id = nextId s, chi_productId = ci_productId ci, chi_variantId = ci_variantId ci,
                    chi_quantity = ci_quantity ci, chi_price = ci_price ci,
                    chi_channel = Some h, chi_user = Some uid\<rparr>],
               nextId := Suc (nextId s)\<rparr>"
    have "findChannelItems (c # cs) uid arr s = findChannelItems cs uid (arr @ [nextId s]) sA"
      using Nil c by (simp add: sA_def)
    moreover have "shopItems sA = shopItems s" "matches sA = matches s" "lineItems sA = lineItems s"
      "orders sA = orders s" "nextId s \<le> nextId sA" by (simp_all add: sA_def)
    ultimately show ?thesis using Cons.IH[of "arr @ [nextId s]" sA] by simp
  next
    case (Cons row rest)
    then have "findChannelItems (c # cs) uid arr s = findChannelItems cs uid (arr @ [chi_id row]) s"
      using c by simp
    then show ?thesis using Cons.IH[of "arr @ [chi_id row]" s] by simp
  qed
qed

lemma Match_inputOf_stable:
  assumes "store_keys_ok s" and "shopItems s1 = shopItems s @ new"
    and "list_all (\<lambda>row. nextId s \<le> si_id row) new" and "m \<in> set (matches s)"
  shows "Match_inputOf m s1 = Match_inputOf m s"
proof -
  have "\<forall>row \<in> set new. si_id row \<notin> set (m_input m)"
    using assms(1,3,4) by (fastforce simp: store_keys_ok_def list_all_iff)
  then have "filter (\<lambda>i. si_id i \<in> set (m_input m)) new = []"
    by (simp add: filter_empty_conv)
  then show ?thesis using assms(2) by (simp add: Match_inputOf_def)
qed

lemma existingMatches_stable:
  assumes "store_keys_ok s" and "shopItems s1 = shopItems s @ new"
    and "list_all (\<lambda>row. nextId s \<le> si_id row) new" and "matches s1 = matches s"
  shows "filter (\<lambda>m. length (Match_inputOf m s1) = length lis) (matchesCovering uid lis s1)
       = filter (\<lambda>m. length (Match_inputOf m s) = length lis) (matchesCovering uid lis s)"
proof -
  have st: "\<And>m. m \<in> set (matches s) \<Longrightarrow> Match_inputOf m s1 = Match_inputOf m s"
    using Match_inputOf_stable[OF assms(1,2,3)] by simp
  show ?thesis
    unfolding matchesCovering_def assms(4) filter_filter
    by (rule filter_cong) (simp_all add: st)
qed

lemma same_key:
  "distinct (map f xs) \<Longrightarrow> x \<in> set xs \<Longrightarrow> y \<in> set xs \<Longrightarrow> f x = f y \<Longrightarrow> x = y"
  by (auto simp: distinct_map inj_on_def)

lemma list_all2_right: "list_all2 P xs ys \<Longrightarrow> y \<in> set ys \<Longrightarrow> \<exists>x \<in> set xs. P x y"
  by (induction rule: list_all2_induct) auto

lemma list_all2_left: "list_all2 P xs ys \<Longrightarrow> x \<in> set xs \<Longrightarrow> \<exists>y \<in> set ys. P x y"
  by (induction rule: list_all2_induct) auto

lemma ids_distinct:
  assumes "distinct (map si_id (shopItems s))"
  shows "list_all2 (shopItemFor shopId uid s) lis ids \<Longrightarrow> distinct (map lineTuple lis)
         \<Longrightarrow> distinct ids"
proof (induction lis ids rule: list_all2_induct)
  case Nil
  then show ?case by simp
next
  case (Cons l lis j ids)
  have "j \<notin> set ids"
  proof
    assume "j \<in> set ids"
    then obtain l' where l': "l' \<in> set lis" "shopItemFor shopId uid s l' j"
      using list_all2_right[OF Cons.hyps(2)] by blast
    from Cons.hyps(1) obtain row where row: "row \<in> set (shopItems s)" "si_id row = j"
      "tupleIs (li_productId l) (li_variantId l) (li_quantity l) row"
      by (auto simp: shopItemFor_def list_ex_iff)
    from l'(2) obtain row' where row': "row' \<in> set (shopItems s)" "si_id row' = j"
      "tupleIs (li_productId l') (li_variantId l') (li_quantity l') row'"
      by (auto simp: shopItemFor_def list_ex_iff)
    have "row = row'" using same_key[OF assms row(1) row'(1)] row(2) row'(2) by simp
    then have "lineTuple l = lineTuple l'" using row(3) row'(3)
      by (simp add: lineTuple_def tupleIs_def)
    then show False using Cons.prems l'(1) by auto
  qed
  then show ?case using Cons by simp
qed

lemma list_all2_lengths: "list_all2 P xs ys \<Longrightarrow> length xs = length ys"
  by (rule list_all2_lengthD)

text \<open>A match of the caller whose input rows are exactly the order's ShopItems is an existing match.\<close>

lemma same_inputs_is_existing:
  assumes "distinct (map si_id (shopItems s))"
    and "list_all2 (shopItemFor shopId uid s) lis ids"
    and "distinct ids"
    and "D \<in> set (matches s)" and "m_user D = Some uid"
    and "set (map si_id (Match_inputOf D s)) = set ids"
  shows "D \<in> set (filter (\<lambda>m. length (Match_inputOf m s) = length lis) (matchesCovering uid lis s))"
proof -
  have dD: "distinct (map si_id (Match_inputOf D s))"
    using assms(1) by (simp add: Match_inputOf_def distinct_map_filter)
  have "length (map si_id (Match_inputOf D s)) = length ids"
    using dD assms(3,6) by (metis distinct_card)
  then have len: "length (Match_inputOf D s) = length lis"
    using list_all2_lengthD[OF assms(2)] by simp
  have cover: "list_ex (tupleIs (li_productId l) (li_variantId l) (li_quantity l)) (Match_inputOf D s)"
    if "l \<in> set lis" for l
  proof -
    from list_all2_left[OF assms(2) that] obtain j where
      j: "j \<in> set ids" "shopItemFor shopId uid s l j" by blast
    from j(2) obtain row where row: "row \<in> set (shopItems s)" "si_id row = j"
      "tupleIs (li_productId l) (li_variantId l) (li_quantity l) row"
      by (auto simp: shopItemFor_def list_ex_iff)
    have "j \<in> si_id ` set (Match_inputOf D s)" using j(1) assms(6) by simp
    then obtain row' where row': "row' \<in> set (Match_inputOf D s)" "si_id row' = j"
      by (auto simp: image_iff)
    then have "row' \<in> set (shopItems s)" by (simp add: Match_inputOf_def)
    then have "row = row'" using same_key[OF assms(1) row(1)] row(2) row'(2) by simp
    then show ?thesis using row(3) row'(1) by (auto simp: list_ex_iff)
  qed
  show ?thesis using assms(4,5) len cover by (simp add: matchesCovering_def list_all_iff)
qed


lemma covering_cong:
  "matches s' = matches s \<Longrightarrow> shopItems s' = shopItems s
     \<Longrightarrow> filter (\<lambda>m. length (Match_inputOf m s') = length lis) (matchesCovering uid lis s')
       = filter (\<lambda>m. length (Match_inputOf m s) = length lis) (matchesCovering uid lis s)"
  by (simp add: matchesCovering_def Match_inputOf_def)

lemma shopItemFor_cong:
  "shopItems s' = shopItems s \<Longrightarrow> shopItemFor shopId uid s' = shopItemFor shopId uid s"
  by (simp add: shopItemFor_def fun_eq_iff)

lemma Match_inputOf_cong:
  "shopItems s' = shopItems s \<Longrightarrow> Match_inputOf m s' = Match_inputOf m s"
  by (simp add: Match_inputOf_def)

text \<open>With the existing match gone, no remaining match has the order's ShopItems as inputs.\<close>

lemma no_other_match:
  assumes d: "distinct (map si_id (shopItems s2))"
    and l2: "list_all2 (shopItemFor shopId uid s2) lis ids"
    and di: "distinct ids"
    and own: "list_all (\<lambda>m. m_user m = Some uid) (matches s2)"
    and ex: "filter (\<lambda>m. length (Match_inputOf m s2) = length lis) (matchesCovering uid lis s2) = [E]"
    and D: "D \<in> set (matches s2)" "m_id D \<noteq> m_id E"
  shows "set (map si_id (Match_inputOf D s2)) \<noteq> set ids"
proof
  assume eq: "set (map si_id (Match_inputOf D s2)) = set ids"
  have u: "m_user D = Some uid" using own D(1) by (simp add: list_all_iff)
  from same_inputs_is_existing[OF d l2 di D(1) u eq] ex have "D = E" by simp
  with D(2) show False by simp
qed

lemma checkForDuplicate_set:
  assumes "distinct (map si_id (shopItems s))" and "distinct ids"
    and "checkForDuplicate ids s"
  shows "\<exists>D \<in> set (matches s). set (map si_id (Match_inputOf D s)) = set ids"
proof -
  from assms(3) obtain D where D: "D \<in> set (matches s)"
    "length (map si_id (Match_inputOf D s)) = length ids"
    "set (map si_id (Match_inputOf D s)) \<subseteq> set ids"
    by (auto simp: checkForDuplicate_def list_ex_iff list_all_iff)
  have dD: "distinct (map si_id (Match_inputOf D s))"
    using assms(1) by (simp add: Match_inputOf_def distinct_map_filter)
  have "card (set (map si_id (Match_inputOf D s))) = length (map si_id (Match_inputOf D s))"
    using dD by (rule distinct_card)
  moreover have "card (set ids) = length ids" using assms(2) by (rule distinct_card)
  ultimately have "card (set (map si_id (Match_inputOf D s))) = card (set ids)"
    using D(2) by simp
  then have "set (map si_id (Match_inputOf D s)) = set ids"
    using D(3) by (simp add: card_subset_eq)
  then show ?thesis using D(1) by blast
qed

text \<open>
  Claim C10, as stated: when the caller owns a match that covers the order's line-item
  tuples with as many inputs as there are line items, \<^verbatim>\<open>matchOrder\<close> deletes it before
  creating the new match and so never runs into the duplicate rejection. The lookup goes
  by tuple, the duplicate check by ShopItem, and only the first match found is deleted:
  user 100 has the tuple (p1, v1, 1) as a ShopItem of shop 201 (match 61) and of shop 200
  (match 62). For order 1 of shop 200 the mutation deletes match 61 and is then rejected
  as a duplicate of match 62.
\<close>

theorem matchOrder_counterexample:
  "map m_id (existingMatches 100 1 ex_two_shops) = [61, 62]
   \<and> fst (matchOrder (Some 100) 1 ex_two_shops) = Inl duplicateError
   \<and> map m_id (matches (snd (matchOrder (Some 100) 1 ex_two_shops))) = [62]"
  by (simp add: mo_defs ex_defs)

text \<open>
  Claim C10, amended. Let the store's keys be in order, the order have a shop, its cart
  items a channel and its line items pairwise different tuples, let every match in the
  store belong to the caller, and let exactly one match \<open>E\<close> of the caller cover the line
  items with as many inputs as there are line items. Then \<^verbatim>\<open>matchOrder\<close> returns a new
  match of the caller: \<open>E\<close> is gone, the other matches are kept and the new one is added;
  its inputs are the caller's ShopItems of the line items in the order's shop; and it is
  the only match in the store with that input set.
\<close>

theorem matchOrder_replaces:
  assumes ok: "store_keys_ok s"
    and ord: "Order_findOne oid s = Some order"
    and shop: "o_shop order = Some shopId"
    and chans: "list_all (\<lambda>c. ci_channel c \<noteq> None) (cartItemsOfOrder oid s)"
    and dt: "distinct (map lineTuple (lineItemsOf oid s))"
    and own: "list_all (\<lambda>m. m_user m = Some uid) (matches s)"
    and ex: "existingMatches uid oid s = [E]"
    and run: "matchOrder (Some uid) oid s = (r, s')"
  shows "\<exists>new. r = Inr new
       \<and> matches s' = filter (\<lambda>m. m_id m \<noteq> m_id E) (matches s) @ [new]
       \<and> m_user new = Some uid
       \<and> list_all2 (shopItemFor shopId uid s') (lineItemsOf oid s) (m_input new)
       \<and> filter (\<lambda>m. set (map si_id (Match_inputOf m s')) = set (m_input new)) (matches s') = [new]"
proof -
  define lis where "lis = lineItemsOf oid s"
  define sid where "sid = (if lis = [] then 0 else shopId)"
  from findShopItems_spec[OF ok, of lis sid uid "[]"] obtain ids s1 new where
    f: "findShopItems lis sid uid [] s = (ids, s1)"
      "store_keys_ok s1" "matches s1 = matches s"
      "shopItems s1 = shopItems s @ new" "list_all (\<lambda>row. nextId s \<le> si_id row) new"
      "list_all2 (shopItemFor sid uid s1) lis ids"
    by auto
  define pairs where "pairs = concat (map (\<lambda>c. case ci_channel c of None \<Rightarrow> [] | Some h \<Rightarrow> [(c, h)])
                        (cartItemsOfOrder oid s))"
  obtain cids s2 where g: "findChannelItems pairs uid [] s1 = (cids, s2)"
    by (cases "findChannelItems pairs uid [] s1") auto
  have g2: "shopItems s2 = shopItems s1" "matches s2 = matches s1"
    using findChannelItems_frame[of pairs uid "[]" s1] g by simp_all
  have l2: "list_all2 (shopItemFor shopId uid s2) lis ids"
  proof (cases "lis = []")
    case True
    with f(6) show ?thesis by simp
  next
    case False
    then have "sid = shopId" by (simp add: sid_def)
    with f(6) shopItemFor_cong[OF g2(1)] show ?thesis by simp
  qed
  have d2: "distinct (map si_id (shopItems s2))" using f(2) g2(1) by (simp add: store_keys_ok_def)
  have di: "distinct ids"
    using ids_distinct[OF d2 l2] dt by (simp add: lis_def)
  have ex2: "filter (\<lambda>m. length (Match_inputOf m s2) = length lis) (matchesCovering uid lis s2) = [E]"
  proof -
    have "filter (\<lambda>m. length (Match_inputOf m s2) = length lis) (matchesCovering uid lis s2)
        = filter (\<lambda>m. length (Match_inputOf m s1) = length lis) (matchesCovering uid lis s1)"
      by (rule covering_cong) (simp_all add: g2)
    also have "\<dots> = filter (\<lambda>m. length (Match_inputOf m s) = length lis) (matchesCovering uid lis s)"
      by (rule existingMatches_stable[OF ok f(4) f(5) f(3)])
    finally show ?thesis using ex by (simp add: existingMatches_def lis_def)
  qed
  have own2: "list_all (\<lambda>m. m_user m = Some uid) (matches s2)" using own g2(2) f(3) by simp
  define s3 where "s3 = Match_deleteOne (m_id E) s2"
  have m3: "matches s3 = filter (\<lambda>m. m_id m \<noteq> m_id E) (matches s)"
    and sh3: "shopItems s3 = shopItems s2"
    by (simp_all add: s3_def Match_deleteOne_def g2 f(3))
  have none3: "\<And>D. D \<in> set (matches s3) \<Longrightarrow> set (map si_id (Match_inputOf D s3)) \<noteq> set ids"
  proof -
    fix D assume "D \<in> set (matches s3)"
    then have D: "D \<in> set (matches s2)" "m_id D \<noteq> m_id E" by (simp_all add: m3 g2 f(3))
    from no_other_match[OF d2 l2 di own2 ex2 D] Match_inputOf_cong[OF sh3, of D]
    show "set (map si_id (Match_inputOf D s3)) \<noteq> set ids" by simp
  qed
  have nodup: "\<not> checkForDuplicate ids s3"
  proof
    assume "checkForDuplicate ids s3"
    from checkForDuplicate_set[OF _ di this] d2 sh3 none3 show False by auto
  qed
  define d where "d = \<lparr>md_input = Some \<lparr>in_connect = Some ids, in_create = None, in_disconnect = None\<rparr>,
                 md_output = Some \<lparr>out_connect = Some cids, out_create = None, out_disconnect = None\<rparr>,
                 md_user = Some uid\<rparr>"
  define row where "row = \<lparr>m_id = nextId s3, m_input = ids, m_output = remdups cids, m_user = Some uid\<rparr>"
  have created: "Match_createOne (Some uid) d s3
                  = (Inr row, s3\<lparr>matches := matches s3 @ [row], nextId := Suc (nextId s3)\<rparr>)"
    using nodup di
    by (simp add: Match_createOne_def Match_resolveInput_def resolveInputCreate_def
          resolveOutputCreate_def createCheck_def d_def row_def orElse_def Let_def
          distinct_remdups_id)
  have nochan: "\<not> list_ex (\<lambda>c. ci_channel c = None) (cartItemsOfOrder oid s)"
    using chans by (auto simp: list_all_iff list_ex_iff)
  have sidopt: "(if lineItemsOf oid s = [] then Some 0 else o_shop order) = Some sid"
    using shop by (simp add: sid_def lis_def)
  have whole: "matchOrder (Some uid) oid s = Match_createOne (Some uid) d s3"
    using ord sidopt f(1) nochan g ex2
    by (simp add: matchOrder_def lis_def[symmetric] pairs_def[symmetric] d_def s3_def)
  from whole created run have r: "r = Inr row"
    and s': "s' = s3\<lparr>matches := matches s3 @ [row], nextId := Suc (nextId s3)\<rparr>" by simp_all
  have ms': "matches s' = filter (\<lambda>m. m_id m \<noteq> m_id E) (matches s) @ [row]"
    using s' m3 by simp
  have sh': "shopItems s' = shopItems s2" using s' sh3 by simp
  have l2': "list_all2 (shopItemFor shopId uid s') lis (m_input row)"
    using l2 shopItemFor_cong[OF sh'] by (simp add: row_def)
  have mi: "m_input row = ids" and mu: "m_user row = Some uid" by (simp_all add: row_def)
  have own_inputs: "set (map si_id (Match_inputOf row s')) = set ids"
  proof -
    have "\<And>j. j \<in> set ids \<Longrightarrow> j \<in> si_id ` set (shopItems s')"
    proof -
      fix j assume "j \<in> set ids"
      from list_all2_right[OF l2' [unfolded mi] this]
      show "j \<in> si_id ` set (shopItems s')"
        by (auto simp: shopItemFor_def list_ex_iff)
    qed
    then show ?thesis unfolding Match_inputOf_def mi by auto
  qed
  have others: "filter (\<lambda>m. set (map si_id (Match_inputOf m s')) = set (m_input row)) (matches s3) = []"
  proof -
    have "\<And>D. D \<in> set (matches s3) \<Longrightarrow> set (map si_id (Match_inputOf D s')) \<noteq> set ids"
      using none3 Match_inputOf_cong[of s' s3] sh' sh3 by simp
    then show ?thesis unfolding mi by (simp add: filter_empty_conv)
  qed
  have self: "filter (\<lambda>m. set (map si_id (Match_inputOf m s')) = set (m_input row)) [row] = [row]"
    using own_inputs unfolding mi by simp
  have ms3: "matches s' = matches s3 @ [row]" using s' by simp
  have fin: "filter (\<lambda>m. set (map si_id (Match_inputOf m s')) = set (m_input row)) (matches s') = [row]"
    unfolding ms3 filter_append others self by simp
  have "r = Inr row
       \<and> matches s' = filter (\<lambda>m. m_id m \<noteq> m_id E) (matches s) @ [row]
       \<and> m_user row = Some uid
       \<and> list_all2 (shopItemFor shopId uid s') (lineItemsOf oid s) (m_input row)
       \<and> filter (\<lambda>m. set (map si_id (Match_inputOf m s')) = set (m_input row)) (matches s') = [row]"
    using r ms' mu l2' fin by (simp add: lis_def)
  then show ?thesis by (rule exI)
qed

text \<open>
  The theorem at work on order 1 when match 62 is the user's only match: match 62 is
  replaced by the new match 1001 on the same ShopItem 42.
\<close>

theorem matchOrder_replaces_witness:
  "store_keys_ok ex_one_match
   \<and> Order_findOne 1 ex_one_match = Some (ex_order 1 ''PENDING'')
   \<and> distinct (map lineTuple (lineItemsOf 1 ex_one_match))
   \<and> existingMatches 100 1 ex_one_match
       = [\<lparr>m_id = 62, m_input = [42], m_output = [51], m_user = Some 100\<rparr>]
   \<and> fst (matchOrder (Some 100) 1 ex_one_match)
       = Inr \<lparr>m_id = 1001, m_input = [42], m_output = [1000], m_user = Some 100\<rparr>
   \<and> matches (snd (matchOrder (Some 100) 1 ex_one_match))
       = [\<lparr>m_id = 1001, m_input = [42], m_output = [1000], m_user = Some 100\<rparr>]
   \<and> filter (\<lambda>m. set (map si_id (Match_inputOf m (snd (matchOrder (Some 100) 1 ex_one_match))))
                    = set [42])
        (matches (snd (matchOrder (Some 100) 1 ex_one_match)))
       = [\<lparr>m_id = 1001, m_input = [42], m_output = [1000], m_user = Some 100\<rparr>]"
proof -
  let ?E = "\<lparr>m_id = 62, m_input = [42], m_output = [51], m_user = Some 100\<rparr>"
  let ?new = "\<lparr>m_id = 1001, m_input = [42], m_output = [1000], m_user = Some 100\<rparr>"
  have h1: "store_keys_ok ex_one_match" by (simp add: store_keys_ok_def ex_defs)
  have h2: "Order_findOne 1 ex_one_match = Some (ex_order 1 ''PENDING'')"
    by (simp add: Order_findOne_def ex_defs)
  have h3: "o_shop (ex_order 1 ''PENDING'') = Some 200" by (simp add: ex_defs)
  have h4: "list_all (\<lambda>c. ci_channel c \<noteq> None) (cartItemsOfOrder 1 ex_one_match)"
    by (simp add: cartItemsOfOrder_def ex_defs)
  have h5: "distinct (map lineTuple (lineItemsOf 1 ex_one_match))"
    by (simp add: lineItemsOf_def lineTuple_def ex_defs)
  have h6: "list_all (\<lambda>m. m_user m = Some 100) (matches ex_one_match)" by (simp add: ex_defs)
  have h7: "existingMatches 100 1 ex_one_match = [?E]"
    by (simp add: existingMatches_def matchesCovering_def Match_inputOf_def lineItemsOf_def
          tupleIs_def ex_defs)
  have res: "fst (matchOrder (Some 100) 1 ex_one_match) = Inr ?new"
    by (simp add: mo_defs ex_defs)
  from matchOrder_replaces[OF h1 h2 h3 h4 h5 h6 h7 prod.collapse[symmetric]]
  obtain new where n: "fst (matchOrder (Some 100) 1 ex_one_match) = Inr new"
    "matches (snd (matchOrder (Some 100) 1 ex_one_match))
       = filter (\<lambda>m. m_id m \<noteq> m_id ?E) (matches ex_one_match) @ [new]"
    "filter (\<lambda>m. set (map si_id (Match_inputOf m (snd (matchOrder (Some 100) 1 ex_one_match))))
                    = set (m_input new))
        (matches (snd (matchOrder (Some 100) 1 ex_one_match))) = [new]"
    by blast
  have new: "new = ?new" using n(1) res by simp
  have c: "matches (snd (matchOrder (Some 100) 1 ex_one_match))
             = filter (\<lambda>m. m_id m \<noteq> m_id ?E) (matches ex_one_match) @ [?new]"
    using n(2) unfolding new .
  have f: "filter (\<lambda>m. set (map si_id (Match_inputOf m (snd (matchOrder (Some 100) 1 ex_one_match))))
                    = set (m_input ?new))
        (matches (snd (matchOrder (Some 100) 1 ex_one_match))) = [?new]"
    using n(3) unfolding new .
  have c': "matches (snd (matchOrder (Some 100) 1 ex_one_match)) = [?new]"
    using c by (simp add: ex_defs)
  have f': "filter (\<lambda>m. set (map si_id (Match_inputOf m (snd (matchOrder (Some 100) 1 ex_one_match))))
                    = set [42])
        (matches (snd (matchOrder (Some 100) 1 ex_one_match))) = [?new]"
  proof -
    have "m_input ?new = [42]" by simp
    with f show ?thesis by (simp only:)
  qed
  show ?thesis by (intro conjI h1 h2 h5 h7 res c' f')
qed

end
